(* ===== verification/Prelude.thy ===== *)
theory Prelude
  imports Main "HOL-Library.Word" "HOL-Library.Monad_Syntax" "HOL-Library.Char_ord"
begin

text \<open>
  What the components share: names for C's fixed-width integers, C strings and byte
  buffers with bounds-checked writes, the \<^verbatim>\<open>printf\<close> conversions the program uses, and
  small lemmas on lists and options.

  A buffer is the list of the bytes of one C array or heap block.  Every write names its
  offset, and a write outside the block is \<open>None\<close>: the program's undefined behaviour is
  a value of the model.  Reads of a C string stop at the first NUL byte (\<open>cstr\<close>).
\<close>

unbundle bit_operations_syntax

section \<open>Integers\<close>

type_synonym u8 = "8 word"
type_synonym u16 = "16 word"
type_synonym u32 = "32 word"
type_synonym u64 = "64 word"

section \<open>Collections of facts\<close>

named_theorems buffer_simps \<open>evaluation of buffer operations\<close>
named_theorems call_simps \<open>effects of external calls on what the model observes\<close>

section \<open>Options and lists\<close>

declare Option.bind_eq_Some_conv [simp]

lemma takeWhile_neq_id: "x \<notin> set xs \<Longrightarrow> takeWhile (\<lambda>c. c \<noteq> x) xs = xs"
  by (induction xs) auto

lemma takeWhile_neq_append:
  "x \<notin> set xs \<Longrightarrow> takeWhile (\<lambda>c. c \<noteq> x) (xs @ x # ys) = xs"
  by (induction xs) auto

lemma takeWhile_neq_notin: "x \<notin> set (takeWhile (\<lambda>c. c \<noteq> x) xs)"
  by (auto dest: set_takeWhileD)

lemma sum_list_bound:
  assumes "\<And>x. x \<in> set xs \<Longrightarrow> f x \<le> (k::nat)"
  shows "sum_list (map f xs) \<le> k * length xs"
  using assms by (induction xs) (auto intro!: add_mono)

section \<open>C strings and buffers\<close>

type_synonym buf = "char list"

abbreviation NUL :: char where "NUL \<equiv> CHR 0x00"
abbreviation DQ :: char where "DQ \<equiv> CHR 0x22"
abbreviation BSLASH :: char where "BSLASH \<equiv> CHR 0x5C"
abbreviation NEWLINE :: char where "NEWLINE \<equiv> CHR 0x0A"

definition cstr :: "buf \<Rightarrow> string" where
  "cstr b = takeWhile (\<lambda>c. c \<noteq> NUL) b"

definition buf_put :: "nat \<Rightarrow> char \<Rightarrow> buf \<Rightarrow> buf option" where
  "buf_put i c b = (if i < length b then Some (b[i := c]) else None)"

definition buf_write :: "nat \<Rightarrow> char list \<Rightarrow> buf \<Rightarrow> buf option" where
  "buf_write i xs b =
     (if i + length xs \<le> length b then Some (take i b @ xs @ drop (i + length xs) b) else None)"

text \<open>\<open>strlen\<close> of a buffer without a terminator reads out of its bounds.\<close>

definition c_strlen :: "buf \<Rightarrow> nat option" where
  "c_strlen b = (if NUL \<in> set b then Some (length (cstr b)) else None)"

definition c_strcpy :: "buf \<Rightarrow> string \<Rightarrow> buf option" where
  "c_strcpy dst src = buf_write 0 (src @ [NUL]) dst"

definition c_strcat :: "buf \<Rightarrow> string \<Rightarrow> buf option" where
  "c_strcat dst src = do { n \<leftarrow> c_strlen dst; buf_write n (src @ [NUL]) dst }"

text \<open>
  \<open>snprintf\<close> at an offset: at most \<open>n - 1\<close> characters of the text and the terminator,
  nothing at all for size 0.
\<close>

definition c_snprintf :: "buf \<Rightarrow> nat \<Rightarrow> nat \<Rightarrow> string \<Rightarrow> buf option" where
  "c_snprintf dst off n text =
     (if n = 0 then Some dst else buf_write off (take (n - 1) text @ [NUL]) dst)"

lemma cstr_no_NUL [simp]: "NUL \<notin> set (cstr b)"
  unfolding cstr_def by (rule takeWhile_neq_notin)

lemma cstr_id [simp]: "NUL \<notin> set s \<Longrightarrow> cstr s = s"
  unfolding cstr_def by (rule takeWhile_neq_id)

lemma cstr_terminated [simp]: "NUL \<notin> set s \<Longrightarrow> cstr (s @ NUL # r) = s"
  unfolding cstr_def by (rule takeWhile_neq_append)

lemma cstr_idem [simp]: "cstr (cstr b) = cstr b"
  by simp

lemma length_cstr_le: "length (cstr b) \<le> length b"
  unfolding cstr_def by (rule length_takeWhile_le)

lemma cstr_Nil_iff: "cstr b = [] \<longleftrightarrow> b = [] \<or> b ! 0 = NUL"
  unfolding cstr_def by (cases b) auto

lemma buf_put_length: "buf_put i c b = Some b' \<Longrightarrow> length b' = length b"
  by (auto simp: buf_put_def split: if_splits)

lemma buf_write_length: "buf_write i xs b = Some b' \<Longrightarrow> length b' = length b"
  by (auto simp: buf_write_def split: if_splits)

lemma c_strlen_terminated [buffer_simps]:
  "NUL \<notin> set s \<Longrightarrow> c_strlen (s @ NUL # r) = Some (length s)"
  by (simp add: c_strlen_def)

lemma c_strcpy_eq [buffer_simps]:
  "c_strcpy dst src =
     (if length src < length dst then Some (src @ NUL # drop (Suc (length src)) dst) else None)"
  by (simp add: c_strcpy_def buf_write_def Suc_le_eq)

lemma c_strcat_eq [buffer_simps]:
  assumes "NUL \<notin> set s"
  shows "c_strcat (s @ NUL # r) src =
     (if length src \<le> length r then Some (s @ src @ NUL # drop (length src) r) else None)"
  using assms by (simp add: c_strcat_def buf_write_def buffer_simps Suc_le_eq)

section \<open>Conversions of printf\<close>

text \<open>Decimal digits of \<^verbatim>\<open>%d\<close>, and \<^verbatim>\<open>%04x\<close> of a value below \<open>2^16\<close>.\<close>

definition digit_char :: "nat \<Rightarrow> char" where
  "digit_char n = char_of (48 + n)"

fun show_nat :: "nat \<Rightarrow> string" where
  "show_nat n = (if n < 10 then [digit_char n] else show_nat (n div 10) @ [digit_char (n mod 10)])"

declare show_nat.simps [simp del]

definition show_int :: "int \<Rightarrow> string" where
  "show_int i = (if i < 0 then CHR ''-'' # show_nat (nat (- i)) else show_nat (nat i))"

definition hex_char :: "nat \<Rightarrow> char" where
  "hex_char n = (if n < 10 then char_of (48 + n) else char_of (87 + n))"

definition show_hex4 :: "nat \<Rightarrow> string" where
  "show_hex4 n = [hex_char (n div 4096 mod 16), hex_char (n div 256 mod 16),
                  hex_char (n div 16 mod 16), hex_char (n mod 16)]"

lemma length_show_hex4 [simp]: "length (show_hex4 n) = 4"
  by (simp add: show_hex4_def)

lemma of_char_digit [simp]: "n < 10 \<Longrightarrow> of_char (digit_char n) = (48 + n :: nat)"
  by (simp add: digit_char_def)

lemma digit_char_range: "n < 10 \<Longrightarrow> digit_char n \<in> {CHR ''0''..CHR ''9''}"
  by (simp add: less_eq_char_def)

lemma set_show_nat: "set (show_nat n) \<subseteq> {CHR ''0''..CHR ''9''}"
proof (induction n rule: show_nat.induct)
  case (1 n)
  then show ?case
    using digit_char_range [of n] digit_char_range [of "n mod 10"]
    by (subst show_nat.simps) auto
qed

lemma show_nat_nonempty [simp]: "show_nat n \<noteq> []"
  by (subst show_nat.simps) simp

lemma length_show_nat: "0 < k \<Longrightarrow> n < 10 ^ k \<Longrightarrow> length (show_nat n) \<le> k"
proof (induction n arbitrary: k rule: show_nat.induct)
  case (1 n)
  show ?case
  proof (cases "n < 10")
    case True
    then show ?thesis using "1.prems" by (subst show_nat.simps) simp
  next
    case False
    have "1 < k"
    proof (rule ccontr)
      assume "\<not> 1 < k"
      with "1.prems" have "k = 1" by simp
      with "1.prems" False show False by simp
    qed
    then obtain k' where k: "k = Suc k'" "0 < k'" by (cases k) auto
    with "1.prems" have "n div 10 < 10 ^ k'" by (simp add: div_less_iff_less_mult mult.commute)
    with "1.IH" False k have "length (show_nat (n div 10)) \<le> k'" by blast
    with False k show ?thesis by (subst show_nat.simps) simp
  qed
qed

lemma length_show_int:
  "0 < k \<Longrightarrow> - (10 ^ k) < i \<Longrightarrow> i < 10 ^ k \<Longrightarrow> length (show_int i) \<le> Suc k"
  unfolding show_int_def
  by (auto intro!: length_show_nat le_SucI simp: nat_less_iff)

lemma NUL_not_in_show_nat [simp]: "NUL \<notin> set (show_nat n)"
  using set_show_nat [of n] by (force simp: less_eq_char_def)

lemma NUL_not_in_show_int [simp]: "NUL \<notin> set (show_int n)"
  by (simp add: show_int_def)

lemma NUL_not_in_hex [simp]: "NUL \<notin> set (show_hex4 n)"
proof -
  have "hex_char m \<noteq> NUL" if "m < 16" for m
  proof -
    from that have "of_char (hex_char m) \<noteq> (0::nat)" by (auto simp: hex_char_def)
    then show ?thesis by auto
  qed
  then show ?thesis by (auto simp: show_hex4_def dest: sym)
qed

section \<open>Printers that can be read back\<close>

text \<open>
  The interface between a printer and its reader: what is printed from a value that
  satisfies the printer's condition reads back as that value.  Such a printer is injective.
\<close>

locale text_codec =
  fixes enc :: "'a \<Rightarrow> string"
    and dec :: "string \<Rightarrow> 'a option"
    and ok :: "'a \<Rightarrow> bool"
  assumes dec_enc: "ok x \<Longrightarrow> dec (enc x) = Some x"
begin

lemma enc_inject: "ok x \<Longrightarrow> ok y \<Longrightarrow> enc x = enc y \<longleftrightarrow> x = y"
  by (metis dec_enc option.inject)

lemma dec_map_enc: "\<forall>x \<in> set xs. ok x \<Longrightarrow> map dec (map enc xs) = map Some xs"
  by (simp add: dec_enc)

end

text \<open>Decimal numerals are read back by the digits' positional value, as \<^verbatim>\<open>atoi\<close> does.\<close>

definition read_digit :: "char \<Rightarrow> nat option" where
  "read_digit c = (let d = of_char c in if 48 \<le> d \<and> d \<le> 57 then Some (d - 48) else None)"

fun read_nat_acc :: "nat \<Rightarrow> string \<Rightarrow> nat option" where
  "read_nat_acc a [] = Some a"
| "read_nat_acc a (c # cs) =
     (case read_digit c of None \<Rightarrow> None | Some d \<Rightarrow> read_nat_acc (10 * a + d) cs)"

lemma read_digit_char [simp]: "n < 10 \<Longrightarrow> read_digit (digit_char n) = Some n"
  by (simp add: read_digit_def Let_def)

lemma read_nat_acc_append:
  "read_nat_acc a (xs @ ys) =
     (case read_nat_acc a xs of None \<Rightarrow> None | Some b \<Rightarrow> read_nat_acc b ys)"
  by (induction xs arbitrary: a) (auto split: option.splits)

lemma read_show_nat: "read_nat_acc 0 (show_nat n) = Some n"
proof (induction n rule: show_nat.induct)
  case (1 n)
  then show ?case
    by (subst show_nat.simps) (simp add: read_nat_acc_append)
qed

interpretation decimal: text_codec show_nat "read_nat_acc 0" "\<lambda>_. True"
  by unfold_locales (simp add: read_show_nat)

end
