(* ===== verification/Json.thy ===== *)
theory Json
  imports Prelude
begin

text \<open>
  The JSON string printer of \<^verbatim>\<open>common/wifi_manager/src/json.c\<close>, a cut-down cJSON printer
  that writes into a buffer it does not know the size of.  The model writes into a bounded
  buffer, so the theorems say exactly when the write stays inside and what it leaves there:
  the escaped string between quotes, terminated.  A decoder for JSON string literals, written
  from the JSON grammar, reads the printed text back.
\<close>

section \<open>The printer\<close>

definition json_escape_set :: "char list" where
  "json_escape_set = [DQ, BSLASH, CHR 0x08, CHR 0x0C, CHR 0x0A, CHR 0x0D, CHR 0x09]"

text \<open>First loop: the number of characters the escapes add.\<close>

fun json_escape_count :: "string \<Rightarrow> nat" where
  "json_escape_count [] = 0"
| "json_escape_count (c # cs) =
     (if c \<in> set json_escape_set then 1 else if of_char c < (32::nat) then 5 else 0)
     + json_escape_count cs"

text \<open>
  Second loop: copy with escapes, \<open>p\<close> the output pointer.  \<^verbatim>\<open>sprintf\<close> writes a terminator
  after the four hexadecimal digits, which the next write overwrites.
\<close>

fun json_copy :: "string \<Rightarrow> nat \<Rightarrow> buf \<Rightarrow> buf option" where
  "json_copy [] p out = Some out"
| "json_copy (c # cs) p out =
     (if 31 < (of_char c :: nat) \<and> c \<noteq> DQ \<and> c \<noteq> BSLASH
      then do { out \<leftarrow> buf_put p c out; json_copy cs (p + 1) out }
      else do {
        out \<leftarrow> buf_put p BSLASH out;
        if c = BSLASH then do { out \<leftarrow> buf_put (p + 1) BSLASH out; json_copy cs (p + 2) out }
        else if c = DQ then do { out \<leftarrow> buf_put (p + 1) DQ out; json_copy cs (p + 2) out }
        else if c = CHR 0x08 then do { out \<leftarrow> buf_put (p + 1) CHR ''b'' out; json_copy cs (p + 2) out }
        else if c = CHR 0x0C then do { out \<leftarrow> buf_put (p + 1) CHR ''f'' out; json_copy cs (p + 2) out }
        else if c = CHR 0x0A then do { out \<leftarrow> buf_put (p + 1) CHR ''n'' out; json_copy cs (p + 2) out }
        else if c = CHR 0x0D then do { out \<leftarrow> buf_put (p + 1) CHR ''r'' out; json_copy cs (p + 2) out }
        else if c = CHR 0x09 then do { out \<leftarrow> buf_put (p + 1) CHR ''t'' out; json_copy cs (p + 2) out }
        else do {
          out \<leftarrow> buf_write (p + 1) (CHR ''u'' # show_hex4 (of_char c) @ [NUL]) out;
          json_copy cs (p + 6) out
        }
      })"

text \<open>
  \<open>json_print_string input output_buffer off\<close>: the pointers are \<open>None\<close> for NULL, and the
  output pointer is the block and an offset in it.  The result is the C function's and the
  block after the call; \<open>None\<close> overall is a write outside the block.
\<close>

definition json_print_string ::
    "buf option \<Rightarrow> buf option \<Rightarrow> nat \<Rightarrow> (bool \<times> buf option) option" where
  "json_print_string input output_buffer off =
     (case output_buffer of
        None \<Rightarrow> Some (False, None)
      | Some output \<Rightarrow>
          (case input of
             None \<Rightarrow> Some (False, Some output)
           | Some str \<Rightarrow>
               let chars = cstr str;
                   escape_characters = json_escape_count chars;
                   output_length = length chars + escape_characters
               in if escape_characters = 0 then do {
                    output \<leftarrow> buf_put off DQ output;
                    output \<leftarrow> buf_write (off + 1) chars output;
                    output \<leftarrow> buf_put (off + output_length + 1) DQ output;
                    output \<leftarrow> buf_put (off + output_length + 2) NUL output;
                    Some (True, Some output)
                  } else do {
                    output \<leftarrow> buf_put off DQ output;
                    output \<leftarrow> json_copy chars (off + 1) output;
                    output \<leftarrow> buf_put (off + output_length + 1) DQ output;
                    output \<leftarrow> buf_put (off + output_length + 2) NUL output;
                    Some (True, Some output)
                  }))"

section \<open>What it should print\<close>

definition json_escape_char :: "char \<Rightarrow> string" where
  "json_escape_char c =
     (if c = BSLASH then [BSLASH, BSLASH]
      else if c = DQ then [BSLASH, DQ]
      else if c = CHR 0x08 then [BSLASH, CHR ''b'']
      else if c = CHR 0x0C then [BSLASH, CHR ''f'']
      else if c = CHR 0x0A then [BSLASH, CHR ''n'']
      else if c = CHR 0x0D then [BSLASH, CHR ''r'']
      else if c = CHR 0x09 then [BSLASH, CHR ''t'']
      else if of_char c < (32::nat) then BSLASH # CHR ''u'' # show_hex4 (of_char c)
      else [c])"

definition json_escape :: "string \<Rightarrow> string" where
  "json_escape s = concat (map json_escape_char s)"

definition json_string :: "string \<Rightarrow> string" where
  "json_string s = DQ # json_escape s @ [DQ]"

lemma json_escape_simps [simp]:
  "json_escape [] = []"
  "json_escape (c # cs) = json_escape_char c @ json_escape cs"
  by (simp_all add: json_escape_def)

lemma length_json_escape:
  "length (json_escape s) = length s + json_escape_count s"
  by (induction s) (auto simp: json_escape_char_def json_escape_set_def)

lemma json_escape_plain: "json_escape_count s = 0 \<Longrightarrow> json_escape s = s"
  by (induction s) (auto simp: json_escape_char_def json_escape_set_def split: if_splits)

lemma NUL_not_in_json_escape: "NUL \<notin> set s \<Longrightarrow> NUL \<notin> set (json_escape s)"
  by (induction s) (auto simp: json_escape_char_def)

lemma NUL_not_in_json_string [simp]: "NUL \<notin> set s \<Longrightarrow> NUL \<notin> set (json_string s)"
  by (simp add: json_string_def NUL_not_in_json_escape)

lemma length_json_string: "length (json_string s) = length s + json_escape_count s + 2"
  by (simp add: json_string_def length_json_escape)

lemma json_escape_count_le: "json_escape_count s \<le> 5 * length s"
  by (induction s) auto

lemma json_escape_count_le_printable:
  assumes "\<forall>c \<in> set s. 32 \<le> (of_char c :: nat)"
  shows "json_escape_count s \<le> length s"
  using assms by (induction s) auto

section \<open>The copy loop against the specification\<close>

lemma take_Suc_update: "p < length b \<Longrightarrow> take (Suc p) (b[p := c]) = take p b @ [c]"
  by (simp add: take_Suc_conv_app_nth)

text \<open>The three kinds of round: a plain byte, a two-character escape, a code point.\<close>

lemma json_kind_cases [case_names plain short hex]:
  obtains "\<not> (of_char c < (32::nat))" "c \<noteq> DQ" "c \<noteq> BSLASH"
  | "c \<in> set json_escape_set"
  | "of_char c < (32::nat)" "c \<notin> set json_escape_set"
  by (cases "c \<in> set json_escape_set") (auto simp: json_escape_set_def)

lemma json_copy_plain:
  assumes "\<not> (of_char c < (32::nat))" "c \<noteq> DQ" "c \<noteq> BSLASH"
  shows "json_copy (c # cs) p b = do { b \<leftarrow> buf_put p c b; json_copy cs (p + 1) b }"
    and "json_escape_char c = [c]"
  using assms by (auto simp: json_escape_char_def)

lemma json_copy_short:
  assumes "c \<in> set json_escape_set"
  shows "json_copy (c # cs) p b =
      do { b \<leftarrow> buf_put p BSLASH b; b \<leftarrow> buf_put (p + 1) (json_escape_char c ! 1) b; json_copy cs (p + 2) b }"
    and "json_escape_char c = [BSLASH, json_escape_char c ! 1]"
  using assms by (auto simp: json_escape_char_def json_escape_set_def)

lemma json_copy_hex:
  assumes "of_char c < (32::nat)" "c \<notin> set json_escape_set"
  shows "json_copy (c # cs) p b =
      do { b \<leftarrow> buf_put p BSLASH b;
           b \<leftarrow> buf_write (p + 1) (CHR ''u'' # show_hex4 (of_char c) @ [NUL]) b; json_copy cs (p + 6) b }"
    and "json_escape_char c = BSLASH # CHR ''u'' # show_hex4 (of_char c)"
  using assms by (auto simp: json_escape_char_def json_escape_set_def)

declare json_copy.simps(2) [simp del]

lemma json_copy_length: "json_copy s p b = Some b' \<Longrightarrow> length b' = length b"
proof (induction s arbitrary: p b)
  case Nil
  then show ?case by simp
next
  case (Cons c s)
  show ?case
  proof (cases c rule: json_kind_cases)
    case plain
    with Cons show ?thesis by (auto simp: json_copy_plain(1) dest!: buf_put_length)
  next
    case short
    with Cons show ?thesis by (auto simp: json_copy_short(1) dest!: buf_put_length)
  next
    case hex
    with Cons show ?thesis by (auto simp: json_copy_hex(1) dest!: buf_put_length buf_write_length)
  qed
qed

text \<open>One round of the loop, when the escape and one more byte fit.\<close>

lemma json_copy_Cons:
  assumes "p + length (json_escape_char c) < length b"
  shows "\<exists>b'. json_copy (c # cs) p b = json_copy cs (p + length (json_escape_char c)) b'
    \<and> length b' = length b
    \<and> take (p + length (json_escape_char c)) b' = take p b @ json_escape_char c
    \<and> drop (Suc (p + length (json_escape_char c))) b' = drop (Suc (p + length (json_escape_char c))) b"
proof (cases c rule: json_kind_cases)
  case plain
  with assms show ?thesis
    by (intro exI [of _ "b[p := c]"]) (simp add: json_copy_plain buf_put_def take_Suc_update)
next
  case short
  obtain x where e: "json_escape_char c = [BSLASH, x]"
    using json_copy_short(2) [OF short] by blast
  then have "json_copy (c # cs) p b = do { b \<leftarrow> buf_put p BSLASH b; b \<leftarrow> buf_put (p + 1) x b; json_copy cs (p + 2) b }"
    using json_copy_short(1) [OF short] by simp
  with assms show ?thesis
    by (intro exI [of _ "b[p := BSLASH, Suc p := x]"]) (simp add: e buf_put_def take_Suc_update)
next
  case hex
  then have e: "json_escape_char c = BSLASH # CHR ''u'' # show_hex4 (of_char c)"
    by (rule json_copy_hex)
  let ?b = "take (Suc p) (b[p := BSLASH]) @ (CHR ''u'' # show_hex4 (of_char c) @ [NUL])
      @ drop (p + 7) (b[p := BSLASH])"
  from assms have "json_copy (c # cs) p b = json_copy cs (p + 6) ?b"
    by (simp add: json_copy_hex(1) [OF hex] e buf_put_def buf_write_def add.commute [of 7 p])
  with assms show ?thesis
    by (intro exI [of _ ?b]) (simp add: e take_Suc_update add.commute)
qed

lemma json_copy_fits:
  assumes "p + length (json_escape s) < length b"
  shows "\<exists>b'. json_copy s p b = Some b' \<and> length b' = length b
    \<and> take (p + length (json_escape s)) b' = take p b @ json_escape s
    \<and> drop (Suc (p + length (json_escape s))) b' = drop (Suc (p + length (json_escape s))) b"
  using assms
proof (induction s arbitrary: p b)
  case Nil
  then show ?case by simp
next
  case (Cons c s)
  let ?e = "json_escape_char c" and ?q = "p + length (json_escape_char c)"
  from Cons.prems have "p + length ?e < length b" by simp
  from json_copy_Cons [OF this] obtain b1 where
    b1: "json_copy (c # s) p b = json_copy s ?q b1" "length b1 = length b"
      "take ?q b1 = take p b @ ?e" "drop (Suc ?q) b1 = drop (Suc ?q) b" by blast
  have "drop (length (json_escape s)) (drop (Suc ?q) b1) = drop (length (json_escape s)) (drop (Suc ?q) b)"
    by (simp only: b1)
  then have "drop (Suc (?q + length (json_escape s))) b1 = drop (Suc (?q + length (json_escape s))) b"
    by (simp add: add_ac)
  moreover from Cons.prems b1 have "?q + length (json_escape s) < length b1" by simp
  ultimately show ?case
    using Cons.IH [of ?q b1] b1 by (auto simp: add_ac)
qed

section \<open>Memory safety and the printed text\<close>

lemma write_end:
  assumes "length b' = length b" "take n b' = t" "drop (Suc n) b' = drop (Suc n) b" "Suc n < length b"
  shows "b'[n := x, Suc n := y] = t @ x # y # drop (n + 2) b"
proof -
  have "drop 1 (drop (Suc n) b') = drop 1 (drop (Suc n) b)" by (simp only: assms)
  then have d: "drop (n + 2) b' = drop (n + 2) b" by simp
  have "2 \<le> length (drop n b')" using assms by simp
  then obtain u v w where uvw: "drop n b' = u # v # w"
    by (metis Suc_le_length_iff numeral_2_eq_2)
  then have "w = drop 2 (drop n b')" by simp
  with d have w: "w = drop (n + 2) b" by (simp add: add.commute)
  have "b' = t @ u # v # w" using uvw assms(2) by (metis append_take_drop_id)
  moreover have "length t = n" using assms by auto
  ultimately show ?thesis using w by (simp add: list_update_append)
qed

lemma json_print_string_unfold:
  "json_print_string (Some inp) (Some b) off = do {
     b1 \<leftarrow> buf_put off DQ b;
     b2 \<leftarrow> (if json_escape_count (cstr inp) = 0 then buf_write (off + 1) (cstr inp) b1
           else json_copy (cstr inp) (off + 1) b1);
     b3 \<leftarrow> buf_put (off + 1 + length (json_escape (cstr inp))) DQ b2;
     b4 \<leftarrow> buf_put (off + 2 + length (json_escape (cstr inp))) NUL b3;
     Some (True, Some b4) }"
  by (simp add: json_print_string_def Let_def length_json_escape add_ac)

lemma json_print_string_eq:
  "json_print_string (Some inp) (Some b) off =
     (if off + length (json_string (cstr inp)) < length b
      then Some (True, Some (take off b @ json_string (cstr inp) @ NUL #
                             drop (off + length (json_string (cstr inp)) + 1) b))
      else None)"
proof -
  let ?s = "cstr inp" and ?b1 = "b[off := DQ]"
  let ?n = "off + 1 + length (json_escape ?s)"
  have len: "length (json_string ?s) = length (json_escape ?s) + 2" by (simp add: json_string_def)
  show ?thesis
  proof (cases "Suc ?n < length b")
    case fits: True
    have t: "take (Suc off) ?b1 = take off b @ [DQ]" using fits by (simp add: take_Suc_update)
    have "\<exists>b'. (if json_escape_count ?s = 0 then buf_write (off + 1) ?s ?b1 else json_copy ?s (off + 1) ?b1) = Some b'
      \<and> length b' = length b \<and> take ?n b' = take off b @ DQ # json_escape ?s \<and> drop (Suc ?n) b' = drop (Suc ?n) b"
    proof (cases "json_escape_count ?s = 0")
      case True
      with fits t show ?thesis by (auto simp: buf_write_def json_escape_plain)
    next
      case False
      from fits json_copy_fits [of "off + 1" ?s ?b1] t show ?thesis by (auto simp: False)
    qed
    then obtain b' where b': "(if json_escape_count ?s = 0 then buf_write (off + 1) ?s ?b1
          else json_copy ?s (off + 1) ?b1) = Some b'" "length b' = length b"
      "take ?n b' = take off b @ DQ # json_escape ?s" "drop (Suc ?n) b' = drop (Suc ?n) b" by blast
    from fits b'(2) have "json_print_string (Some inp) (Some b) off
        = Some (True, Some (b'[?n := DQ, Suc ?n := NUL]))"
      unfolding json_print_string_unfold using b'(1) by (simp add: buf_put_def)
    also have "b'[?n := DQ, Suc ?n := NUL] = take off b @ json_string ?s @ NUL # drop (?n + 2) b"
      using write_end [OF b'(2-4) fits] by (simp add: json_string_def)
    finally show ?thesis using fits len by simp
  next
    case False
    have "json_print_string (Some inp) (Some b) off = None"
    proof (rule ccontr)
      assume "json_print_string (Some inp) (Some b) off \<noteq> None"
      with False show False
        by (auto simp: json_print_string_unfold buf_put_def
            split: if_splits dest!: buf_write_length json_copy_length)
    qed
    with False len show ?thesis by simp
  qed
qed

text \<open>
  C2: The JSON printer \<^verbatim>\<open>json_print_string\<close> is memory safe exactly when the escaped string, its
  two quotes and the terminator fit behind the output pointer; then it returns true, leaves
  exactly that text there, terminated, and changes no other byte of the block.
\<close>

theorem json_print_string_correct:
  "json_print_string (Some inp) (Some b) off =
     (if off + length (json_string (cstr inp)) < length b
      then Some (True, Some (take off b @ json_string (cstr inp) @ NUL #
                             drop (off + length (json_string (cstr inp)) + 1) b))
      else None)"
  by (rule json_print_string_eq)

section \<open>Reading it back\<close>

text \<open>
  A reader of JSON string literals (RFC 8259, section 7): short escapes, \<^verbatim>\<open>\u\<close> with four
  hexadecimal digits, no raw control character, nothing after the closing quote.
\<close>

definition hex_val :: "char \<Rightarrow> nat option" where
  "hex_val c = (let d = of_char c in
     if 48 \<le> d \<and> d \<le> 57 then Some (d - 48)
     else if 97 \<le> d \<and> d \<le> 102 then Some (d - 87)
     else if 65 \<le> d \<and> d \<le> 70 then Some (d - 55) else None)"

definition short_escape :: "char \<Rightarrow> char option" where
  "short_escape e =
     (if e = DQ then Some DQ else if e = BSLASH then Some BSLASH
      else if e = CHR ''/'' then Some (CHR ''/'') else if e = CHR ''b'' then Some (CHR 0x08)
      else if e = CHR ''f'' then Some (CHR 0x0C) else if e = CHR ''n'' then Some (CHR 0x0A)
      else if e = CHR ''r'' then Some (CHR 0x0D) else if e = CHR ''t'' then Some (CHR 0x09) else None)"

fun json_unescape :: "string \<Rightarrow> string option" where
  "json_unescape [] = None"
| "json_unescape (c # cs) =
     (if c = DQ then (if cs = [] then Some [] else None)
      else if c = BSLASH then
        (case cs of
           [] \<Rightarrow> None
         | e # r \<Rightarrow>
             (case short_escape e of
                Some x \<Rightarrow> map_option (Cons x) (json_unescape r)
              | None \<Rightarrow>
                  (case r of
                     h1 # h2 # h3 # h4 # r' \<Rightarrow>
                       (if e = CHR ''u'' then do {
                          a \<leftarrow> hex_val h1; b \<leftarrow> hex_val h2; c \<leftarrow> hex_val h3; d \<leftarrow> hex_val h4;
                          map_option (Cons (char_of (4096 * a + 256 * b + 16 * c + d))) (json_unescape r')
                        } else None)
                   | _ \<Rightarrow> None)))
      else if of_char c < (32::nat) then None
      else map_option (Cons c) (json_unescape cs))"

definition json_decode :: "string \<Rightarrow> string option" where
  "json_decode s = (case s of [] \<Rightarrow> None | c # cs \<Rightarrow> if c = DQ then json_unescape cs else None)"

lemma hex_val_char [simp]: "n < 16 \<Longrightarrow> hex_val (hex_char n) = Some n"
  by (auto simp: hex_val_def hex_char_def Let_def)

lemma json_unescape_hex:
  assumes "a < 16" "b < 16" "c < 16" "d < 16"
  shows "json_unescape (BSLASH # CHR ''u'' # hex_char a # hex_char b # hex_char c # hex_char d # r)
    = map_option (Cons (char_of (4096 * a + 256 * b + 16 * c + d))) (json_unescape r)"
  using assms by (simp add: short_escape_def)

lemma json_unescape_escape_char:
  "json_unescape (json_escape_char c @ r) = map_option (Cons c) (json_unescape r)"
proof (cases c rule: json_kind_cases)
  case plain
  then show ?thesis by (simp add: json_copy_plain(2))
next
  case short
  then show ?thesis by (auto simp: json_escape_set_def json_escape_char_def short_escape_def)
next
  case hex
  let ?n = "of_char c :: nat"
  have n: "4096 * (n div 4096 mod 16) + 256 * (n div 256 mod 16) + 16 * (n div 16 mod 16) + n mod 16 = n"
    if "n < 32" for n :: nat
    using that by simp
  have "json_unescape (json_escape_char c @ r) = map_option (Cons (char_of (4096 * (?n div 4096 mod 16)
      + 256 * (?n div 256 mod 16) + 16 * (?n div 16 mod 16) + ?n mod 16))) (json_unescape r)"
    by (simp only: json_copy_hex(2) [OF hex] show_hex4_def append_Cons append_Nil)
      (rule json_unescape_hex; simp)
  then show ?thesis by (simp only: n [OF hex(1)] char_of_char)
qed

lemma json_decode_string: "json_decode (json_string s) = Some s"
proof -
  have "json_unescape (json_escape s @ [DQ]) = Some s"
    by (induction s) (simp_all add: json_unescape_escape_char)
  then show ?thesis by (simp add: json_decode_def json_string_def)
qed

interpretation json: text_codec json_string json_decode "\<lambda>_. True"
  by unfold_locales (simp add: json_decode_string)

text \<open>
  C3: Whenever \<^verbatim>\<open>json_print_string\<close> returns true, the C string it left at the output pointer is a
  JSON string literal that reads back as the input string, whatever bytes the input has.
\<close>

theorem json_print_string_roundtrip:
  assumes "json_print_string (Some inp) (Some b) off = Some (True, Some b')"
  shows "json_decode (cstr (drop off b')) = Some (cstr inp)"
proof -
  from assms have "cstr (drop off b') = json_string (cstr inp)"
    by (auto simp: json_print_string_eq split: if_splits)
  then show ?thesis by (simp add: json.dec_enc)
qed

theorem json_print_string_roundtrip_witness:
  "json_decode (cstr (drop 1 (''x'' @ [DQ, CHR ''a'', BSLASH, DQ, DQ, NUL, CHR ''z''])))
     = Some (cstr ([CHR ''a'', DQ, NUL]))"
  by (rule json_print_string_roundtrip [where b = "''xxxxxxxz''"])
    (simp add: json_print_string_eq json_string_def json_escape_char_def cstr_def)

end
