(* ===== verification/Ap_List.thy ===== *)
theory Ap_List
  imports Json
begin

text \<open>
  The access point list of \<^verbatim>\<open>common/wifi_manager/src/wifi_manager.c\<close>: removing duplicates
  from a scan result in place (\<^verbatim>\<open>wifi_manager_filter_unique\<close>) and printing the list as JSON
  into a heap block of fixed size (\<^verbatim>\<open>wifi_manager_generate_acess_points_json\<close>).

  A record keeps the fields of \<^verbatim>\<open>wifi_ap_record_t\<close> the program reads; \<open>ssid\<close> is the
  33-byte array.  Array indices are positions of the list; the loops are folds over the
  index ranges of the C loops.
\<close>

section \<open>Records\<close>

record ap_record =
  ap_ssid :: buf
  ap_primary :: u8
  ap_rssi :: u8     \<comment> \<open>\<^verbatim>\<open>int8_t\<close>: read with \<open>sint\<close>\<close>
  ap_authmode :: nat

definition zero_ap :: ap_record where
  "zero_ap = \<lparr>ap_ssid = replicate 33 NUL, ap_primary = 0, ap_rssi = 0, ap_authmode = 0\<rparr>"

definition MAX_AP_NUM :: nat where "MAX_AP_NUM = 15"
definition JSON_ONE_APP_SIZE :: nat where "JSON_ONE_APP_SIZE = 99"

definition unnamed :: "ap_record \<Rightarrow> bool" where
  "unnamed ap = (ap_ssid ap ! 0 = NUL)"

definition same_network :: "ap_record \<Rightarrow> ap_record \<Rightarrow> bool" where
  "same_network a b = (cstr (ap_ssid a) = cstr (ap_ssid b) \<and> ap_authmode a = ap_authmode b)"

section \<open>Removing duplicates\<close>

text \<open>One round of the inner loop: \<open>ap\<close> is record \<open>i\<close>, \<open>ap1\<close> record \<open>j\<close>.\<close>

definition filter_inner :: "nat \<Rightarrow> nat \<Rightarrow> ap_record list \<Rightarrow> ap_record list" where
  "filter_inner i j aplist =
     (let ap = aplist ! i; ap1 = aplist ! j in
      if same_network ap ap1
      then (let aplist = (if sint (ap_rssi ap) < sint (ap_rssi ap1)
                          then aplist[i := ap\<lparr>ap_rssi := ap_rssi ap1\<rparr>] else aplist)
            in aplist[j := zero_ap])
      else aplist)"

definition filter_outer :: "nat \<Rightarrow> nat \<Rightarrow> ap_record list \<Rightarrow> ap_record list" where
  "filter_outer aps i aplist =
     (if unnamed (aplist ! i) then aplist
      else fold (filter_inner i) [i + 1..<aps] aplist)"

text \<open>The second loop: the list, the first free slot, and the count of records left.\<close>

definition reorder_step ::
    "nat \<Rightarrow> nat \<Rightarrow> ap_record list \<times> nat option \<times> nat \<Rightarrow> ap_record list \<times> nat option \<times> nat" where
  "reorder_step aps i st =
     (case st of (aplist, first_free, total_unique) \<Rightarrow>
        if unnamed (aplist ! i)
        then (aplist, if first_free = None then Some i else first_free, total_unique - 1)
        else (case first_free of
                None \<Rightarrow> (aplist, None, total_unique)
              | Some f \<Rightarrow>
                  (let aplist' = aplist[f := aplist ! i, i := zero_ap]
                   in (aplist',
                       case find (\<lambda>j. unnamed (aplist' ! j)) [0..<aps] of
                         None \<Rightarrow> Some f | Some j \<Rightarrow> Some j,
                       total_unique))))"

definition wifi_manager_filter_unique :: "ap_record list \<Rightarrow> nat \<Rightarrow> ap_record list \<times> nat" where
  "wifi_manager_filter_unique aplist aps =
     (let aplist = fold (filter_outer aps) [0..<aps - 1] aplist;
          (aplist, first_free, total_unique) = fold (reorder_step aps) [0..<aps] (aplist, None, aps)
      in (aplist, total_unique))"

section \<open>What is kept\<close>

text \<open>
  Each network (name and authentication mode) once, at its first place in the list, with
  the strongest signal of all its records; records without a name are dropped.
\<close>

definition stronger :: "ap_record \<Rightarrow> ap_record \<Rightarrow> ap_record" where
  "stronger a b = (if sint (ap_rssi a) < sint (ap_rssi b) then a\<lparr>ap_rssi := ap_rssi b\<rparr> else a)"

definition absorb :: "ap_record \<Rightarrow> ap_record list \<Rightarrow> ap_record" where
  "absorb a bs = foldl stronger a (filter (same_network a) bs)"

function unique_networks :: "ap_record list \<Rightarrow> ap_record list" where
  "unique_networks [] = []"
| "unique_networks (a # as) =
     (if unnamed a then unique_networks as
      else absorb a as # unique_networks (filter (\<lambda>b. \<not> same_network a b) as))"
  by pat_completeness auto
termination
  by (relation "measure length") (auto simp: less_Suc_eq_le)

text \<open>The list after the first loop: later records of the network are cleared, not removed.\<close>

definition clear_same :: "ap_record \<Rightarrow> ap_record list \<Rightarrow> ap_record list" where
  "clear_same a = map (\<lambda>b. if same_network a b then zero_ap else b)"

function cleared :: "ap_record list \<Rightarrow> ap_record list" where
  "cleared [] = []"
| "cleared (a # as) = (if unnamed a then a # cleared as else absorb a as # cleared (clear_same a as))"
  by pat_completeness auto
termination
  by (relation "measure length") (auto simp: clear_same_def)

lemma unnamed_zero_ap [simp]: "unnamed zero_ap"
  by (simp add: unnamed_def zero_ap_def)

lemma stronger_key [simp]:
  "ap_ssid (stronger a b) = ap_ssid a" "ap_authmode (stronger a b) = ap_authmode a"
  "unnamed (stronger a b) = unnamed a" "same_network (stronger a b) = same_network a"
  by (auto simp: stronger_def unnamed_def same_network_def)

lemma same_network_sym: "same_network a b = same_network b a"
  by (auto simp: same_network_def)

lemma same_network_trans: "same_network a b \<Longrightarrow> same_network a c = same_network b c"
  by (auto simp: same_network_def)

lemma same_network_unnamed:
  assumes "same_network a b" "ap_ssid a \<noteq> []" "ap_ssid b \<noteq> []"
  shows "unnamed a = unnamed b"
proof -
  have "unnamed x = (cstr (ap_ssid x) = [])" if "ap_ssid x \<noteq> []" for x
    using that by (simp add: unnamed_def cstr_Nil_iff)
  with assms show ?thesis by (simp add: same_network_def)
qed

lemma absorb_key [simp]:
  "ap_ssid (absorb a bs) = ap_ssid a" "ap_authmode (absorb a bs) = ap_authmode a"
  "unnamed (absorb a bs) = unnamed a" "same_network (absorb a bs) = same_network a"
proof -
  have "ap_ssid (foldl stronger a cs) = ap_ssid a \<and> ap_authmode (foldl stronger a cs) = ap_authmode a
      \<and> unnamed (foldl stronger a cs) = unnamed a \<and> same_network (foldl stronger a cs) = same_network a" for cs
    by (induction cs arbitrary: a) auto
  then show "ap_ssid (absorb a bs) = ap_ssid a" "ap_authmode (absorb a bs) = ap_authmode a"
    "unnamed (absorb a bs) = unnamed a" "same_network (absorb a bs) = same_network a"
    by (auto simp: absorb_def)
qed

section \<open>The first loop\<close>

lemma clear_same_stronger [simp]: "clear_same (stronger a b) = clear_same a"
  by (simp add: clear_same_def fun_eq_iff)

lemma length_clear_same [simp]: "length (clear_same a bs) = length bs"
  by (simp add: clear_same_def)

lemma absorb_Nil [simp]: "absorb a [] = a"
  by (simp add: absorb_def)

lemma absorb_Cons:
  "absorb a (b # bs) = (if same_network a b then absorb (stronger a b) bs else absorb a bs)"
  by (simp add: absorb_def)

lemma filter_inner_at:
  assumes "i = length pre" "j = length (pre @ a # ds)"
  shows "filter_inner i j (pre @ a # ds @ b # rest) =
     (if same_network a b then pre @ stronger a b # ds @ zero_ap # rest else pre @ a # ds @ b # rest)"
proof -
  have "(pre @ a # ds @ b # rest) ! j = b" "(pre @ c # ds @ b # rest)[j := z] = pre @ c # ds @ z # rest" for c z
    using assms nth_append_length [of "pre @ a # ds" b rest]
      list_update_length [of "pre @ c # ds" b rest z] by simp_all
  with assms show ?thesis by (auto simp: filter_inner_def Let_def stronger_def)
qed

lemma filter_inner_loop:
  assumes "i = length pre" "j = length (pre @ a # ds)"
  shows "fold (filter_inner i) [j..<j + length bs] (pre @ a # ds @ bs @ post)
    = pre @ absorb a bs # ds @ clear_same a bs @ post"
  using assms
proof (induction bs arbitrary: a ds j)
  case Nil
  then show ?case by (simp add: clear_same_def)
next
  case (Cons b bs)
  let ?a = "if same_network a b then stronger a b else a"
  let ?b = "if same_network a b then zero_ap else b"
  have "fold (filter_inner i) [j..<j + length (b # bs)] (pre @ a # ds @ (b # bs) @ post)
      = fold (filter_inner i) [Suc j..<Suc j + length bs] (filter_inner i j (pre @ a # ds @ b # bs @ post))"
    by (simp add: upt_conv_Cons del: upt_Suc)
  also have "filter_inner i j (pre @ a # ds @ b # bs @ post) = pre @ ?a # (ds @ [?b]) @ bs @ post"
    using filter_inner_at [OF Cons.prems] by simp
  also have "fold (filter_inner i) [Suc j..<Suc j + length bs] \<dots>
      = pre @ absorb ?a bs # (ds @ [?b]) @ clear_same ?a bs @ post"
    by (rule Cons.IH) (use Cons.prems in simp_all)
  also have "\<dots> = pre @ absorb a (b # bs) # ds @ clear_same a (b # bs) @ post"
    by (auto simp: absorb_Cons clear_same_def)
  finally show ?case .
qed

lemma filter_outer_loop:
  assumes "i = length pre" "aps = length pre + length as"
  shows "fold (filter_outer aps) [i..<aps - 1] (pre @ as @ post) = pre @ cleared as @ post"
  using assms
proof (induction as arbitrary: pre i rule: cleared.induct)
  case 1
  then show ?case by simp
next
  case (2 a as)
  have IH: "fold (filter_outer aps) [Suc i..<aps - 1] (pre @ x # ys @ post) = pre @ x # cleared ys @ post"
    if "ys = (if unnamed a then as else clear_same a as)" for x ys
    using that "2.IH"(1) [of "Suc i" "pre @ [x]"] "2.IH"(2) [of "Suc i" "pre @ [x]"] "2.prems"
    by (cases "unnamed a") simp_all
  show ?case
  proof (cases "as = []")
    case True
    with "2.prems" show ?thesis by (simp add: clear_same_def)
  next
    case False
    with "2.prems" have "[i..<aps - 1] = i # [Suc i..<aps - 1]" by (simp add: upt_conv_Cons)
    moreover have "filter_outer aps i (pre @ (a # as) @ post)
        = (if unnamed a then pre @ a # as @ post else pre @ absorb a as # clear_same a as @ post)"
      using "2.prems" filter_inner_loop [of i pre "Suc i" a "[]" as post]
      by (simp add: filter_outer_def)
    ultimately show ?thesis using IH [OF refl, of a] IH [OF refl, of "absorb a as"]
      by (cases "unnamed a") simp_all
  qed
qed

section \<open>The second loop\<close>

lemma find_first_unnamed:
  assumes "\<forall>a \<in> set named. \<not> unnamed a" "unnamed e" "length named < n"
  shows "find (\<lambda>j. unnamed ((named @ e # rest) ! j)) [0..<n] = Some (length named)"
proof -
  have "(named @ e # rest) ! j = named ! j" "\<not> unnamed (named ! j)" if "j < length named" for j
    using that assms(1) by (simp_all add: nth_append)
  with assms(2,3) show ?thesis
    unfolding find_Some_iff by (intro exI [of _ "length named"]) auto
qed

text \<open>
  The invariant of the second loop after \<open>i\<close> records: the named ones in order, then unnamed
  slots, then the rest of the list; the first free slot is the first unnamed one.
\<close>

definition reordered :: "ap_record list \<Rightarrow> nat \<Rightarrow> nat \<Rightarrow> ap_record list \<times> nat option \<times> nat \<Rightarrow> bool" where
  "reordered xs aps i st =
     (\<exists>es. fst st = filter (\<lambda>a. \<not> unnamed a) (take i xs) @ es @ drop i xs
        \<and> list_all unnamed es
        \<and> length (filter (\<lambda>a. \<not> unnamed a) (take i xs)) + length es = i
        \<and> fst (snd st) = (if es = [] then None else Some (length (filter (\<lambda>a. \<not> unnamed a) (take i xs))))
        \<and> snd (snd st) + length es = aps)"

lemma reordered_step:
  assumes inv: "reordered xs aps i st" and i: "i < aps" "aps \<le> length xs"
  shows "reordered xs aps (Suc i) (reorder_step aps i st)"
proof -
  let ?named = "filter (\<lambda>a. \<not> unnamed a) (take i xs)"
  obtain es where es: "fst st = ?named @ es @ drop i xs" "list_all unnamed es"
      "length ?named + length es = i"
      "fst (snd st) = (if es = [] then None else Some (length ?named))" "snd (snd st) + length es = aps"
    using inv unfolding reordered_def by blast
  obtain y r where d: "drop i xs = y # r" and y: "xs ! i = y" and r: "drop (Suc i) xs = r"
    using i by (metis Cons_nth_drop_Suc less_le_trans)
  have st: "st = (?named @ es @ y # r, if es = [] then None else Some (length ?named), aps - length es)"
    using es d by (cases st rule: prod_cases3) auto
  have at: "(?named @ es @ y # r) ! i = y"
    using es(3) nth_append_length [of "?named @ es" y r] by simp
  have t: "filter (\<lambda>a. \<not> unnamed a) (take (Suc i) xs) = ?named @ (if unnamed y then [] else [y])"
    using i y by (simp add: take_Suc_conv_app_nth)
  show ?thesis
  proof (cases "unnamed y")
    case True
    then have "reorder_step aps i st = (?named @ (es @ [y]) @ r, Some (length ?named), aps - length es - 1)"
      using es(3) by (auto simp: reorder_step_def st at)
    with True es i show ?thesis
      unfolding reordered_def t r by (intro exI [of _ "es @ [y]"]) auto
  next
    case named: False
    show ?thesis
    proof (cases es)
      case Nil
      with named have "reorder_step aps i st = ((?named @ [y]) @ [] @ r, None, aps)"
        using at by (simp add: reorder_step_def st)
      with named Nil es i show ?thesis
        unfolding reordered_def t r by (intro exI [of _ "[]"]) auto
    next
      case (Cons e es')
      let ?l = "(?named @ [y]) @ (es' @ [zero_ap]) @ r"
      have l: "(?named @ es @ y # r)[length ?named := y, i := zero_ap] = ?l"
        using es(3) Cons list_update_length [of "?named @ y # es'" y r zero_ap] by simp
      obtain e' r' where er: "(es' @ [zero_ap]) @ r = e' # r'" "unnamed e'"
        using es(2) Cons by (cases es') auto
      have "find (\<lambda>j. unnamed (?l ! j)) [0..<aps] = Some (Suc (length ?named))"
        using find_first_unnamed [of "?named @ [y]" e' aps r'] er named es(3) Cons i by simp
      then have "reorder_step aps i st = (?l, Some (Suc (length ?named)), aps - length es)"
        using named Cons at l by (simp add: reorder_step_def st Let_def)
      with named es i Cons show ?thesis
        unfolding reordered_def t r by (intro exI [of _ "es' @ [zero_ap]"]) auto
    qed
  qed
qed

lemma reordered_loop:
  assumes "i \<le> aps" "aps \<le> length xs"
  shows "reordered xs aps i (fold (reorder_step aps) [0..<i] (xs, None, aps))"
  using assms
proof (induction i)
  case 0
  then show ?case by (simp add: reordered_def)
next
  case (Suc i)
  then show ?case by (simp add: reordered_step)
qed

section \<open>The list that remains\<close>

lemma named_same_network:
  assumes "\<not> unnamed a" "same_network a b" "ap_ssid a \<noteq> []" "ap_ssid b \<noteq> []"
  shows "\<not> unnamed b"
  using assms same_network_unnamed by blast

lemma ssid_nonempty [simp]: "ap_ssid zero_ap \<noteq> []"
  by (simp add: zero_ap_def)

lemma unique_networks_named:
  assumes "\<forall>a \<in> set xs. ap_ssid a \<noteq> []"
  shows "unique_networks (filter (\<lambda>a. \<not> unnamed a) xs) = unique_networks xs"
  using assms
proof (induction xs rule: unique_networks.induct)
  case 1
  then show ?case by simp
next
  case (2 a xs)
  have comm: "filter P (filter Q ys) = filter Q (filter P ys)" for P Q :: "ap_record \<Rightarrow> bool" and ys
    by (simp add: conj_commute)
  have "filter (same_network a) (filter (\<lambda>b. \<not> unnamed b) xs) = filter (same_network a) xs" if "\<not> unnamed a"
    using that "2.prems" by (auto intro!: filter_cong dest: named_same_network)
  then have "absorb a (filter (\<lambda>b. \<not> unnamed b) xs) = absorb a xs" if "\<not> unnamed a"
    using that by (simp add: absorb_def del: filter_filter)
  with 2 comm show ?case by (auto simp del: filter_filter)
qed

lemma named_cleared:
  assumes "\<forall>a \<in> set xs. ap_ssid a \<noteq> []"
  shows "filter (\<lambda>a. \<not> unnamed a) (cleared xs) = unique_networks xs"
  using assms
proof (induction xs rule: cleared.induct)
  case 1
  then show ?case by simp
next
  case (2 a xs)
  let ?diff = "filter (\<lambda>b. \<not> same_network a b) xs"
  have named: "filter (\<lambda>b. \<not> unnamed b) (clear_same a ys)
      = filter (\<lambda>b. \<not> unnamed b) (filter (\<lambda>b. \<not> same_network a b) ys)" for ys
    by (induction ys) (auto simp: clear_same_def)
  have ok: "\<forall>b \<in> set (clear_same a xs). ap_ssid b \<noteq> []"
    using "2.prems" by (auto simp: clear_same_def)
  have "unique_networks (clear_same a xs) = unique_networks ?diff"
    using unique_networks_named [OF ok] unique_networks_named [of ?diff] "2.prems" named by auto
  with 2 ok show ?case by simp
qed

lemma length_cleared [simp]: "length (cleared xs) = length xs"
  by (induction xs rule: cleared.induct) auto

text \<open>
  C1: \<^verbatim>\<open>wifi_manager_filter_unique\<close> on a scan of \<open>aps\<close> records leaves, at the front of the array,
  each named network of the scan exactly once, in order of first appearance and with the
  strongest signal seen for it; the returned count is the number of those networks, the
  remaining scanned slots are unnamed, and records beyond the scan are untouched.
\<close>

theorem filter_unique_correct:
  assumes "aps \<le> length aplist" "\<forall>a \<in> set aplist. ap_ssid a \<noteq> []"
  shows "\<exists>unused. wifi_manager_filter_unique aplist aps =
      (unique_networks (take aps aplist) @ unused @ drop aps aplist,
       length (unique_networks (take aps aplist)))
    \<and> list_all unnamed unused
    \<and> length (unique_networks (take aps aplist)) + length unused = aps"
proof -
  let ?xs = "cleared (take aps aplist) @ drop aps aplist"
  let ?st = "fold (reorder_step aps) [0..<aps] (?xs, None, aps)"
  have "fold (filter_outer aps) [0..<aps - 1] aplist = ?xs"
    using filter_outer_loop [of 0 "[]" aps "take aps aplist" "drop aps aplist"] assms(1) by simp
  then have st: "wifi_manager_filter_unique aplist aps = (fst ?st, snd (snd ?st))"
    by (simp add: wifi_manager_filter_unique_def Let_def split: prod.splits)
  have "filter (\<lambda>a. \<not> unnamed a) (take aps ?xs) = unique_networks (take aps aplist)"
    using assms named_cleared [of "take aps aplist"] by (auto dest: in_set_takeD)
  with reordered_loop [of aps aps ?xs] assms(1) show ?thesis
    unfolding st reordered_def by auto
qed

theorem filter_unique_correct_witness:
  fixes a b c :: ap_record
  defines "a \<equiv> \<lparr>ap_ssid = ''home'' @ replicate 29 NUL, ap_primary = 1, ap_rssi = 200, ap_authmode = 3\<rparr>"
    and "b \<equiv> \<lparr>ap_ssid = replicate 33 NUL, ap_primary = 6, ap_rssi = 180, ap_authmode = 0\<rparr>"
    and "c \<equiv> \<lparr>ap_ssid = ''home'' @ replicate 29 NUL, ap_primary = 11, ap_rssi = 210, ap_authmode = 3\<rparr>"
  shows "\<exists>unused. wifi_manager_filter_unique [a, b, c] 3 =
      (unique_networks (take 3 [a, b, c]) @ unused @ drop 3 [a, b, c],
       length (unique_networks (take 3 [a, b, c])))
    \<and> list_all unnamed unused
    \<and> length (unique_networks (take 3 [a, b, c])) + length unused = 3"
  by (rule filter_unique_correct) (simp_all add: a_def b_def c_def)

section \<open>The list as JSON\<close>

definition one_ap_text :: "ap_record \<Rightarrow> bool \<Rightarrow> string" where
  "one_ap_text ap last_one =
     '',\"chan\":'' @ show_int (uint (ap_primary ap)) @ '',\"rssi\":'' @ show_int (sint (ap_rssi ap))
     @ '',\"auth\":'' @ show_int (int (ap_authmode ap)) @ ''}''
     @ [if last_one then CHR '']'' else CHR '','', NEWLINE]"

text \<open>
  The loop over the records, \<open>i\<close> the index of the first one.  The suffix of an entry goes
  through a stack buffer of \<open>JSON_ONE_APP_SIZE\<close> bytes, which \<^verbatim>\<open>snprintf\<close> does not overrun.
\<close>

fun access_points_loop :: "nat \<Rightarrow> nat \<Rightarrow> ap_record list \<Rightarrow> buf \<Rightarrow> buf option" where
  "access_points_loop i ap_num [] accessp_json = Some accessp_json"
| "access_points_loop i ap_num (ap # aps) accessp_json = do {
     accessp_json \<leftarrow> c_strcat accessp_json ''{\"ssid\":'';
     off \<leftarrow> c_strlen accessp_json;
     (_, accessp_json) \<leftarrow> json_print_string (Some (ap_ssid ap)) (Some accessp_json) off;
     accessp_json \<leftarrow> accessp_json;
     one_ap \<leftarrow> c_snprintf (replicate JSON_ONE_APP_SIZE NUL) 0 JSON_ONE_APP_SIZE
                (one_ap_text ap (int i = int ap_num - 1));
     accessp_json \<leftarrow> c_strcat accessp_json (cstr one_ap);
     access_points_loop (Suc i) ap_num aps accessp_json
   }"

definition wifi_manager_generate_acess_points_json ::
    "ap_record list \<Rightarrow> nat \<Rightarrow> buf \<Rightarrow> buf option" where
  "wifi_manager_generate_acess_points_json accessp_records ap_num accessp_json = do {
     accessp_json \<leftarrow> c_strcpy accessp_json ''['';
     access_points_loop 0 ap_num (take ap_num accessp_records) accessp_json
   }"

definition wifi_manager_clear_access_points_json :: "buf \<Rightarrow> buf option" where
  "wifi_manager_clear_access_points_json accessp_json = c_strcpy accessp_json (''[]'' @ [NEWLINE])"

definition accessp_json_size :: nat where
  "accessp_json_size = MAX_AP_NUM * JSON_ONE_APP_SIZE + 4"

text \<open>The text of the list: the entries between brackets, separated by commas and newlines.\<close>

definition ap_entry_json :: "ap_record \<Rightarrow> bool \<Rightarrow> string" where
  "ap_entry_json ap last_one = ''{\"ssid\":'' @ json_string (cstr (ap_ssid ap)) @ one_ap_text ap last_one"

fun ap_entries_json :: "ap_record list \<Rightarrow> string" where
  "ap_entries_json [] = []"
| "ap_entries_json (a # as) = ap_entry_json a (as = []) @ ap_entries_json as"

lemma NUL_not_in_one_ap_text [simp]: "NUL \<notin> set (one_ap_text ap l)"
  by (simp add: one_ap_text_def)

lemma NUL_not_in_ap_entry_json [simp]: "NUL \<notin> set (ap_entry_json ap l)"
  by (simp add: ap_entry_json_def)

lemma NUL_not_in_ap_entries_json [simp]: "NUL \<notin> set (ap_entries_json aps)"
  by (induction aps) auto

lemma length_show_u8: "length (show_int (uint (w :: u8))) \<le> 3"
proof -
  have "unat w < 10 ^ 3" using unsigned_less [of w, where ?'a = nat] by simp
  then show ?thesis by (auto simp: show_int_def intro!: length_show_nat)
qed

lemma length_show_i8: "length (show_int (sint (w :: u8))) \<le> 4"
  by (rule length_show_int [of 3, simplified]) (use sint_lt [of w] sint_ge [of w] in simp_all)

lemma length_one_ap_text:
  assumes "ap_authmode ap < 10"
  shows "length (one_ap_text ap l) \<le> 35"
proof -
  have "length (show_int (int (ap_authmode ap))) = 1"
    using assms by (simp add: show_int_def show_nat.simps)
  with length_show_u8 [of "ap_primary ap"] length_show_i8 [of "ap_rssi ap"] show ?thesis
    by (simp add: one_ap_text_def)
qed

lemma one_ap_buffer:
  assumes "ap_authmode ap < 10"
  shows "\<exists>one_ap. c_snprintf (replicate JSON_ONE_APP_SIZE NUL) 0 JSON_ONE_APP_SIZE (one_ap_text ap l)
      = Some one_ap \<and> cstr one_ap = one_ap_text ap l"
  using length_one_ap_text [OF assms, of l]
  by (simp add: c_snprintf_def buf_write_def JSON_ONE_APP_SIZE_def)

lemma json_print_string_terminated:
  assumes "NUL \<notin> set t"
  shows "json_print_string (Some inp) (Some (t @ NUL # r)) (length t) =
     (if length (json_string (cstr inp)) \<le> length r
      then Some (True, Some (t @ json_string (cstr inp) @ NUL # drop (length (json_string (cstr inp))) r))
      else None)"
  by (simp add: json_print_string_eq le_imp_less_Suc less_Suc_eq_le)

lemma access_points_step:
  assumes "NUL \<notin> set t" "ap_authmode ap < 10"
  shows "access_points_loop i n (ap # aps) (t @ NUL # r) =
    (if length (ap_entry_json ap (int i = int n - 1)) \<le> length r
     then access_points_loop (Suc i) n aps
       ((t @ ap_entry_json ap (int i = int n - 1)) @ NUL # drop (length (ap_entry_json ap (int i = int n - 1))) r)
     else None)"
proof -
  let ?l = "int i = int n - 1" and ?h = "''{\"ssid\":''" and ?j = "json_string (cstr (ap_ssid ap))"
  obtain one_ap where one: "c_snprintf (replicate JSON_ONE_APP_SIZE NUL) 0 JSON_ONE_APP_SIZE (one_ap_text ap ?l)
      = Some one_ap" "cstr one_ap = one_ap_text ap ?l"
    using one_ap_buffer assms(2) by blast
  have "c_strlen (t @ ?h @ NUL # r') = Some (length (t @ ?h))" for r'
    using c_strlen_terminated [of "t @ ?h" r'] assms(1) by simp
  moreover have "json_print_string (Some (ap_ssid ap)) (Some (t @ ?h @ NUL # r')) (length (t @ ?h)) =
     (if length ?j \<le> length r' then Some (True, Some (t @ ?h @ ?j @ NUL # drop (length ?j) r')) else None)" for r'
    using json_print_string_terminated [of "t @ ?h" "ap_ssid ap" r'] assms(1) by simp
  moreover have "c_strcat (t @ ?h @ ?j @ NUL # r') s =
     (if length s \<le> length r' then Some (t @ ?h @ ?j @ s @ NUL # drop (length s) r') else None)" for r' s
    using c_strcat_eq [of "t @ ?h @ ?j" r' s] assms(1) by simp
  ultimately show ?thesis
    using assms(1) c_strcat_eq [OF assms(1), of r ?h]
    by (auto simp: one ap_entry_json_def add_ac simp del: append_Cons)
qed

declare access_points_loop.simps(2) [simp del]

lemma access_points_loop_eq:
  assumes "NUL \<notin> set t" "\<forall>ap \<in> set aps. ap_authmode ap < 10" "n = i + length aps"
  shows "access_points_loop i n aps (t @ NUL # r) =
    (if length (ap_entries_json aps) \<le> length r
     then Some (t @ ap_entries_json aps @ NUL # drop (length (ap_entries_json aps)) r) else None)"
  using assms
proof (induction aps arbitrary: i t r)
  case Nil
  then show ?case by simp
next
  case (Cons ap aps)
  have l: "(int i = int n - 1) = (aps = [])" using Cons.prems(3) by auto
  show ?case
    using Cons.prems Cons.IH [of "t @ ap_entry_json ap (aps = [])" "Suc i"
        "drop (length (ap_entry_json ap (aps = []))) r"]
    by (simp add: access_points_step l) (auto simp: add_ac)
qed

lemma access_points_json_eq:
  assumes "\<forall>ap \<in> set (take ap_num accessp_records). ap_authmode ap < 10"
    and "ap_num \<le> length accessp_records"
  shows "wifi_manager_generate_acess_points_json accessp_records ap_num accessp_json =
    (let text = ''['' @ ap_entries_json (take ap_num accessp_records)
     in if length text < length accessp_json
        then Some (text @ NUL # drop (length text + 1) accessp_json) else None)"
  using access_points_loop_eq [of "''[''" "take ap_num accessp_records" ap_num 0 "drop 2 accessp_json"] assms
  by (auto simp: wifi_manager_generate_acess_points_json_def c_strcpy_eq Let_def numeral_2_eq_2 add_ac min_def)

text \<open>
  C18: \<^verbatim>\<open>wifi_manager_generate_acess_points_json\<close> on the first \<open>ap_num\<close> records is memory safe
  exactly when the bracketed list of entries and its terminator fit in the block; then the
  block holds that text, and the bytes behind it are unchanged.
\<close>

theorem access_points_json_correct:
  assumes "\<forall>ap \<in> set (take ap_num accessp_records). ap_authmode ap < 10"
    and "ap_num \<le> length accessp_records"
  shows "wifi_manager_generate_acess_points_json accessp_records ap_num accessp_json =
    (let text = ''['' @ ap_entries_json (take ap_num accessp_records)
     in if length text < length accessp_json
        then Some (text @ NUL # drop (length text + 1) accessp_json) else None)"
  using assms by (rule access_points_json_eq)

theorem access_points_json_correct_witness:
  fixes a :: ap_record
  defines "a \<equiv> \<lparr>ap_ssid = ''caf'' @ DQ # replicate 29 NUL, ap_primary = 11, ap_rssi = 190, ap_authmode = 3\<rparr>"
  shows "wifi_manager_generate_acess_points_json [a, zero_ap] 1 (replicate 60 (CHR ''x'')) =
    (let text = ''['' @ ap_entries_json (take 1 [a, zero_ap])
     in if length text < length (replicate 60 (CHR ''x''))
        then Some (text @ NUL # drop (length text + 1) (replicate 60 (CHR ''x''))) else None)"
  by (rule access_points_json_correct) (simp_all add: a_def)

section \<open>Does the list fit its block?\<close>

lemma length_ap_entry_json:
  assumes "ap_authmode ap < 10" "length (cstr (ap_ssid ap)) \<le> 32"
  shows "length (ap_entry_json ap l) \<le> 77 + json_escape_count (cstr (ap_ssid ap))"
  using assms(2) length_one_ap_text [OF assms(1), of l]
  by (simp add: ap_entry_json_def length_json_string)

lemma length_ap_entries_json:
  assumes "\<forall>ap \<in> set aps. ap_authmode ap < 10 \<and> length (cstr (ap_ssid ap)) \<le> 32"
  shows "length (ap_entries_json aps)
    \<le> 77 * length aps + (\<Sum>ap \<leftarrow> aps. json_escape_count (cstr (ap_ssid ap)))"
  using assms
proof (induction aps)
  case Nil
  then show ?case by simp
next
  case (Cons a aps)
  then show ?case using length_ap_entry_json [of a "aps = []"] by simp
qed

text \<open>
  The block \<^verbatim>\<open>accessp_json\<close> that \<^verbatim>\<open>wifi_manager_start\<close> allocates is large enough for a full
  list of 15 networks with names of up to 32 bytes, as long as escaping the names adds at
  most 332 characters in total; the write of the list then stays inside the block.
\<close>

theorem access_points_json_fits:
  assumes "ap_num \<le> MAX_AP_NUM" "ap_num \<le> length accessp_records"
    and "\<forall>ap \<in> set (take ap_num accessp_records). ap_authmode ap < 10 \<and> length (cstr (ap_ssid ap)) \<le> 32"
    and "(\<Sum>ap \<leftarrow> take ap_num accessp_records. json_escape_count (cstr (ap_ssid ap))) \<le> 332"
    and "length accessp_json = accessp_json_size"
  shows "\<exists>b. wifi_manager_generate_acess_points_json accessp_records ap_num accessp_json = Some b
    \<and> length b = accessp_json_size
    \<and> cstr b = ''['' @ ap_entries_json (take ap_num accessp_records)"
proof -
  let ?aps = "take ap_num accessp_records" and ?text = "''['' @ ap_entries_json (take ap_num accessp_records)"
  have "length ?text < length accessp_json"
    using length_ap_entries_json [OF assms(3)] assms
    by (simp add: accessp_json_size_def MAX_AP_NUM_def JSON_ONE_APP_SIZE_def)
  moreover have "cstr (?text @ NUL # r) = ?text" for r
    by (rule cstr_terminated) simp
  moreover have "wifi_manager_generate_acess_points_json accessp_records ap_num accessp_json =
      (if length ?text < length accessp_json
       then Some (?text @ NUL # drop (length ?text + 1) accessp_json) else None)"
    using access_points_json_eq [of ap_num accessp_records accessp_json] assms(2,3) by (simp add: Let_def)
  ultimately show ?thesis using assms(5) by (auto simp del: append_Cons)
qed

theorem access_points_json_fits_witness:
  fixes a :: ap_record
  defines "a \<equiv> \<lparr>ap_ssid = replicate 10 DQ @ replicate 23 NUL, ap_primary = 11, ap_rssi = 190, ap_authmode = 3\<rparr>"
  shows "\<exists>b. wifi_manager_generate_acess_points_json [a, a, zero_ap] 2 (replicate accessp_json_size NUL) = Some b
    \<and> length b = accessp_json_size
    \<and> cstr b = ''['' @ ap_entries_json (take 2 [a, a, zero_ap])"
proof -
  have c: "cstr (ap_ssid a) = replicate 10 DQ"
    by (simp add: a_def cstr_def eval_nat_numeral)
  then have e: "json_escape_count (cstr (ap_ssid a)) = 10"
    by (simp add: json_escape_set_def eval_nat_numeral)
  show ?thesis
    by (rule access_points_json_fits)
      (simp_all add: MAX_AP_NUM_def c e [unfolded c], simp_all add: a_def)
qed

text \<open>A scan an attacker can arrange: fifteen networks whose names are mostly quotes.\<close>

definition quoted_ap :: "nat \<Rightarrow> ap_record" where
  "quoted_ap i = \<lparr>ap_ssid = replicate (32 - i) DQ @ replicate i (CHR ''a'') @ [NUL],
                  ap_primary = 11, ap_rssi = 156, ap_authmode = 0\<rparr>"

lemma json_escape_count_append:
  "json_escape_count (s @ t) = json_escape_count s + json_escape_count t"
  by (induction s) auto

lemma json_escape_count_replicate:
  "json_escape_count (replicate n c) = n * json_escape_count [c]"
  by (induction n) auto

lemma length_quoted_entry:
  assumes "i \<le> 32"
  shows "75 + (32 - i) \<le> length (ap_entry_json (quoted_ap i) l)"
proof -
  have "cstr (ap_ssid (quoted_ap i)) = replicate (32 - i) DQ @ replicate i (CHR ''a'')"
    using cstr_terminated [of "replicate (32 - i) DQ @ replicate i (CHR ''a'')" "[]"]
    by (simp add: quoted_ap_def)
  then have "length (json_string (cstr (ap_ssid (quoted_ap i)))) = 34 + (32 - i)"
    using assms
    by (simp add: length_json_string json_escape_count_append json_escape_count_replicate json_escape_set_def)
  moreover have "length (show_int (uint (11 :: u8))) = 2" "length (show_int (sint (156 :: u8))) = 4"
      "length (show_int 0) = 1"
    by (simp_all add: show_int_def show_nat.simps)
  ultimately show ?thesis
    by (simp add: ap_entry_json_def one_ap_text_def quoted_ap_def)
qed

lemma length_quoted_entries:
  "list_all (\<lambda>i. i \<le> 32) is \<Longrightarrow>
     (\<Sum>i \<leftarrow> is. 75 + (32 - i)) \<le> length (ap_entries_json (map quoted_ap is))"
proof (induction "is")
  case Nil
  then show ?case by simp
next
  case (Cons i "is")
  then show ?case using length_quoted_entry [of i "map quoted_ap is = []"] by simp
qed

text \<open>
  C30: The block does not hold every scan: fifteen distinct open networks with printable
  32-byte names full of quotes make \<^verbatim>\<open>wifi_manager_generate_acess_points_json\<close> write beyond the
  end of \<^verbatim>\<open>accessp_json\<close>, as allocated by \<^verbatim>\<open>wifi_manager_start\<close>.
\<close>

theorem access_points_json_overflow:
  "distinct (map (\<lambda>i. cstr (ap_ssid (quoted_ap i))) [0..<MAX_AP_NUM])
   \<and> list_all (\<lambda>i. length (cstr (ap_ssid (quoted_ap i))) = 32) [0..<MAX_AP_NUM]
   \<and> wifi_manager_generate_acess_points_json (map quoted_ap [0..<MAX_AP_NUM]) MAX_AP_NUM
       (replicate accessp_json_size NUL) = None"
proof (intro conjI)
  have ssid: "cstr (ap_ssid (quoted_ap i)) = replicate (32 - i) DQ @ replicate i (CHR ''a'')" for i
    using cstr_terminated [of "replicate (32 - i) DQ @ replicate i (CHR ''a'')" "[]"]
    by (simp add: quoted_ap_def)
  show "distinct (map (\<lambda>i. cstr (ap_ssid (quoted_ap i))) [0..<MAX_AP_NUM])"
  proof -
    have "inj_on (\<lambda>i. cstr (ap_ssid (quoted_ap i))) {0..<MAX_AP_NUM}"
    proof (rule inj_onI)
      fix i j
      assume "i \<in> {0..<MAX_AP_NUM}" "j \<in> {0..<MAX_AP_NUM}"
        and "cstr (ap_ssid (quoted_ap i)) = cstr (ap_ssid (quoted_ap j))"
      then have "json_escape_count (replicate (32 - i) DQ @ replicate i (CHR ''a''))
          = json_escape_count (replicate (32 - j) DQ @ replicate j (CHR ''a''))" "i < 15" "j < 15"
        by (simp_all add: ssid MAX_AP_NUM_def)
      then show "i = j"
        by (simp add: json_escape_count_append json_escape_count_replicate json_escape_set_def)
    qed
    then show ?thesis by (simp add: distinct_map)
  qed
  show "list_all (\<lambda>i. length (cstr (ap_ssid (quoted_ap i))) = 32) [0..<MAX_AP_NUM]"
    by (auto simp: ssid list_all_iff MAX_AP_NUM_def)
  have "(\<Sum>i \<leftarrow> [0..<15]. 75 + (32 - i)) \<le> length (ap_entries_json (map quoted_ap [0..<15]))"
    by (rule length_quoted_entries) (auto simp: list_all_iff)
  moreover have "(\<Sum>i \<leftarrow> [0..<15]. 75 + (32 - i)) = (1500 :: nat)"
    by (simp add: upt_rec)
  ultimately have len: "1500 \<le> length (ap_entries_json (map quoted_ap [0..<15]))" by simp
  have "\<forall>ap \<in> set (take 15 (map quoted_ap [0..<15])). ap_authmode ap < 10"
    by (simp add: quoted_ap_def)
  from access_points_json_eq [OF this] len
  show "wifi_manager_generate_acess_points_json (map quoted_ap [0..<MAX_AP_NUM]) MAX_AP_NUM
       (replicate accessp_json_size NUL) = None"
    by (simp add: Let_def accessp_json_size_def MAX_AP_NUM_def JSON_ONE_APP_SIZE_def del: upt_Suc)
qed

text \<open>
  When the scan found nothing, the printed list is a lone opening bracket, not the empty
  JSON list that \<^verbatim>\<open>wifi_manager_clear_access_points_json\<close> stores.
\<close>

theorem access_points_json_empty:
  "wifi_manager_generate_acess_points_json accessp_records 0 (replicate accessp_json_size NUL)
     = Some (''['' @ replicate (accessp_json_size - 1) NUL)
   \<and> wifi_manager_clear_access_points_json (replicate accessp_json_size NUL)
     = Some (''[]'' @ NEWLINE # replicate (accessp_json_size - 3) NUL)"
proof -
  obtain k where k: "accessp_json_size = Suc (Suc (Suc (Suc k)))"
    by (simp add: accessp_json_size_def)
  show ?thesis
    unfolding k wifi_manager_generate_acess_points_json_def wifi_manager_clear_access_points_json_def c_strcpy_eq
    by simp
qed

end
