(* ===== verification/Dns_Server.thy ===== *)
theory Dns_Server
  imports Prelude
begin

text \<open>
  The captive-portal name server of \<^verbatim>\<open>common/wifi_manager/src/dns_server.c\<close>: it answers every
  query with the address of the access point.  Buffers are byte lists of the C arrays' sizes;
  a packed header or answer is a group of byte positions, as on the little-endian target.

  Sockets and tasks belong to lwIP and FreeRTOS: the record \<open>dns_net\<close> holds the calls the
  server makes as functions on an abstract world, and \<open>udp_socket\<close> states what it relies on.
  \<open>None\<close> is an access outside a buffer.
\<close>

section \<open>One request\<close>

definition DNS_QUERY_MAX_SIZE :: nat where "DNS_QUERY_MAX_SIZE = 80"
definition DNS_ANSWER_MAX_SIZE :: nat where "DNS_ANSWER_MAX_SIZE = DNS_QUERY_MAX_SIZE + 16"

definition sizeof_dns_header :: nat where "sizeof_dns_header = 12"
definition sizeof_dns_answer :: nat where "sizeof_dns_answer = 16"

text \<open>Assignment to a bit field of \<open>n\<close> bits at bit \<open>k\<close> of a byte.\<close>

definition put_bits :: "nat \<Rightarrow> nat \<Rightarrow> u8 \<Rightarrow> u8 \<Rightarrow> u8" where
  "put_bits k n v b = (b AND NOT (push_bit k (mask n))) OR push_bit k (take_bit n v)"

text \<open>\<^verbatim>\<open>dns_header_t\<close>: byte 2 holds RD, TC, AA, OPCode, QR and byte 3 RCode, Z, RA, low bit first.\<close>

definition dns_reply_header :: "u8 list \<Rightarrow> u8 list" where
  "dns_reply_header response =
     (let response = response[2 := put_bits 7 1 1 (response ! 2)];
          response = response[2 := put_bits 3 4 0 (response ! 2)];
          response = response[2 := put_bits 2 1 1 (response ! 2)];
          response = response[3 := put_bits 0 4 0 (response ! 3)];
          response = response[2 := put_bits 1 1 0 (response ! 2)];
          response = response[2 := put_bits 0 1 0 (response ! 2)];
          response = response[6 := response ! 4, 7 := response ! 5];
          response = response[8 := 0, 9 := 0];
          response = response[10 := 0, 11 := 0]
      in response)"

text \<open>
  The debugging copy of the name: bytes below a blank or above \<^verbatim>\<open>z\<close> become dots, up to the
  terminator.  \<open>None\<close>: no terminator before the end of the array.
\<close>

fun dns_mask_domain :: "u8 list \<Rightarrow> u8 list option" where
  "dns_mask_domain [] = None"
| "dns_mask_domain (c # cs) =
     (if c = 0 then Some (c # cs)
      else map_option (Cons (if c < 32 \<or> 122 < c then 46 else c)) (dns_mask_domain cs))"

text \<open>The answer record; multi-byte fields are stored in network order.\<close>

definition dns_answer_bytes :: "u8 list \<Rightarrow> u8 list" where
  "dns_answer_bytes ip = [0xC0, 0x0C, 0, 1, 0, 1, 0, 0, 0, 0, 0, 4] @ ip"

definition write_bytes :: "nat \<Rightarrow> u8 list \<Rightarrow> u8 list \<Rightarrow> u8 list option" where
  "write_bytes i xs b =
     (if i + length xs \<le> length b then Some (take i b @ xs @ drop (i + length xs) b) else None)"

text \<open>
  The body of the loop for a datagram \<open>packet\<close> (at most \<open>DNS_QUERY_MAX_SIZE\<close> bytes, as
  \<^verbatim>\<open>recvfrom\<close> delivers it; \<open>None\<close> for an error).  The result is the datagram to send, if any.
  \<^verbatim>\<open>length - sizeof(dns_header_t)\<close> is unsigned: a shorter datagram gives a huge count.
\<close>

definition dns_server_round :: "u8 list \<Rightarrow> u8 list \<Rightarrow> u8 list option \<Rightarrow> u8 list option option" where
  "dns_server_round ip response packet =
     (case packet of
        None \<Rightarrow> Some None
      | Some p \<Rightarrow>
          let data = p @ replicate (DNS_QUERY_MAX_SIZE - length p) 0; n = length p in
          if 0 < n \<and> n + sizeof_dns_answer - 1 < DNS_ANSWER_MAX_SIZE then do {
            data \<leftarrow> (if n < length data then Some (data[n := 0]) else None);
            response \<leftarrow> write_bytes 0 (take sizeof_dns_header data) response;
            let response = dns_reply_header response;
            response \<leftarrow> (if sizeof_dns_header \<le> n
              then write_bytes sizeof_dns_header (take (n - sizeof_dns_header) (drop sizeof_dns_header data)) response
              else None);
            domain \<leftarrow> dns_mask_domain (drop (sizeof_dns_header + 1) data);
            response \<leftarrow> write_bytes n (dns_answer_bytes ip) response;
            Some (Some (take (n + sizeof_dns_answer) response))
          }
          else Some None)"

section \<open>The task\<close>

record 'w dns_net =
  net_socket :: "'w \<Rightarrow> int \<times> 'w"
  net_sta_ip :: "'w \<Rightarrow> u32 option \<times> 'w"
  net_bind :: "int \<Rightarrow> u32 \<Rightarrow> nat \<Rightarrow> 'w \<Rightarrow> int \<times> 'w"
  net_close :: "int \<Rightarrow> 'w \<Rightarrow> 'w"
  net_recvfrom :: "int \<Rightarrow> nat \<Rightarrow> 'w \<Rightarrow> u8 list option \<times> 'w"
  net_sendto :: "int \<Rightarrow> u8 list \<Rightarrow> 'w \<Rightarrow> int \<times> 'w"
  net_task_create :: "'w \<Rightarrow> nat option \<times> 'w"
  net_task_delete :: "nat \<Rightarrow> 'w \<Rightarrow> 'w"

datatype dns_open = Dns_Exit int | Dns_Abort | Dns_Listening int

definition dns_server_open :: "'w dns_net \<Rightarrow> 'w \<Rightarrow> dns_open \<times> 'w" where
  "dns_server_open net w =
     (let (socket_fd, w) = net_socket net w in
      if socket_fd < 0 then (Dns_Exit 0, w)
      else case net_sta_ip net w of
             (None, w) \<Rightarrow> (Dns_Abort, w)
           | (Some ip, w) \<Rightarrow>
               (let (err, w) = net_bind net socket_fd ip 53 w in
                if err = -1 then (Dns_Exit 1, net_close net socket_fd w)
                else (Dns_Listening socket_fd, w)))"

text \<open>
  \<open>k\<close> rounds of the endless loop.  The answer to a send is only logged.  The response array is
  not reset between requests; \<open>response\<close> is what it holds.
\<close>

fun dns_server_rounds ::
    "'w dns_net \<Rightarrow> u8 list \<Rightarrow> int \<Rightarrow> nat \<Rightarrow> u8 list \<Rightarrow> 'w \<Rightarrow> 'w option" where
  "dns_server_rounds net ip socket_fd 0 response w = Some w"
| "dns_server_rounds net ip socket_fd (Suc k) response w = do {
     let (packet, w) = net_recvfrom net socket_fd DNS_QUERY_MAX_SIZE w;
     sent \<leftarrow> dns_server_round ip response packet;
     (case sent of
        None \<Rightarrow> dns_server_rounds net ip socket_fd k response w
      | Some r \<Rightarrow> dns_server_rounds net ip socket_fd k (r @ drop (length r) response)
                   (snd (net_sendto net socket_fd r w)))
   }"

definition dns_server :: "'w dns_net \<Rightarrow> u8 list \<Rightarrow> u8 list \<Rightarrow> nat \<Rightarrow> 'w \<Rightarrow> 'w option" where
  "dns_server net ip response k w =
     (case dns_server_open net w of
        (Dns_Listening socket_fd, w) \<Rightarrow> dns_server_rounds net ip socket_fd k response w
      | (_, w) \<Rightarrow> Some w)"

record dns_state =
  task_dns_server :: "nat option"
  dns_socket_fd :: int

definition dns_server_start :: "'w dns_net \<Rightarrow> dns_state \<times> 'w \<Rightarrow> dns_state \<times> 'w" where
  "dns_server_start net st =
     (case st of (s, w) \<Rightarrow>
        if task_dns_server s = None
        then (let (h, w) = net_task_create net w in (s\<lparr>task_dns_server := h\<rparr>, w))
        else (s, w))"

definition dns_server_stop :: "'w dns_net \<Rightarrow> dns_state \<times> 'w \<Rightarrow> dns_state \<times> 'w" where
  "dns_server_stop net st =
     (case st of (s, w) \<Rightarrow>
        (case task_dns_server s of
           None \<Rightarrow> (s, w)
         | Some t \<Rightarrow> (s\<lparr>task_dns_server := None\<rparr>,
                      net_close net (dns_socket_fd s) (net_task_delete net t w))))"

section \<open>What a reply is\<close>

text \<open>
  A reply to a query, read by the message format of RFC 1035: big-endian counts, the flags by
  their bits, the question section repeated, then one address record.
\<close>

definition be16 :: "u8 list \<Rightarrow> nat \<Rightarrow> nat" where
  "be16 m i = 256 * unat (m ! i) + unat (m ! (i + 1))"

record dns_header =
  hd_ID :: nat
  hd_QR :: bool
  hd_OPCode :: u8
  hd_AA :: bool
  hd_TC :: bool
  hd_RD :: bool
  hd_RA :: bool
  hd_Z :: u8
  hd_RCode :: u8
  hd_QDCount :: nat
  hd_ANCount :: nat
  hd_NSCount :: nat
  hd_ARCount :: nat

definition dns_read_header :: "u8 list \<Rightarrow> dns_header" where
  "dns_read_header m =
     \<lparr>hd_ID = be16 m 0, hd_QR = bit (m ! 2) 7, hd_OPCode = take_bit 4 (drop_bit 3 (m ! 2)),
      hd_AA = bit (m ! 2) 2, hd_TC = bit (m ! 2) 1, hd_RD = bit (m ! 2) 0, hd_RA = bit (m ! 3) 7,
      hd_Z = take_bit 3 (drop_bit 4 (m ! 3)), hd_RCode = take_bit 4 (m ! 3),
      hd_QDCount = be16 m 4, hd_ANCount = be16 m 6, hd_NSCount = be16 m 8, hd_ARCount = be16 m 10\<rparr>"

definition dns_reply_to :: "u8 list \<Rightarrow> u8 list \<Rightarrow> u8 list \<Rightarrow> bool" where
  "dns_reply_to ip q r =
     (dns_read_header r = (dns_read_header q)
        \<lparr>hd_QR := True, hd_OPCode := 0, hd_AA := True, hd_TC := False, hd_RD := False, hd_RCode := 0,
         hd_ANCount := hd_QDCount (dns_read_header q), hd_NSCount := 0, hd_ARCount := 0\<rparr>
      \<and> drop sizeof_dns_header r = drop sizeof_dns_header q @ dns_answer_bytes ip
      \<and> length r \<le> DNS_ANSWER_MAX_SIZE)"

lemma bit_put_bits:
  "bit (put_bits k n v b) i \<longleftrightarrow>
     (if k \<le> i \<and> i < k + n then i < 8 \<and> bit v (i - k) else bit b i)"
  by (auto simp: put_bits_def bit_simps dest: bit_imp_le_length)

text \<open>The flag bytes after the assignments.\<close>

definition dns_flags :: "u8 \<Rightarrow> u8" where
  "dns_flags b = put_bits 0 1 0 (put_bits 1 1 0 (put_bits 2 1 1 (put_bits 3 4 0 (put_bits 7 1 1 b))))"

lemma dns_reply_header_eq:
  "dns_reply_header (h0 # h1 # h2 # h3 # h4 # h5 # h6 # h7 # h8 # h9 # h10 # h11 # r) =
     h0 # h1 # dns_flags h2 # put_bits 0 4 0 h3 # h4 # h5 # h4 # h5 # 0 # 0 # 0 # 0 # r"
  by (simp add: dns_reply_header_def dns_flags_def numeral_eq_Suc)

lemma word8_less_iff: "i < 8 \<longleftrightarrow> i \<in> {0, 1, 2, 3, 4, 5, 6, 7::nat}"
  by auto

lemma dns_flags_bits:
  "bit (dns_flags b) 0 = False" "bit (dns_flags b) (Suc 0) = False" "bit (dns_flags b) 2 = True"
  "bit (dns_flags b) 7 = True" "take_bit 4 (drop_bit 3 (dns_flags b)) = 0"
  by (simp_all add: dns_flags_def bit_put_bits)
    (rule bit_word_eqI, auto simp: bit_simps bit_put_bits)

lemma rcode_bits:
  "bit (put_bits 0 4 0 b) 7 = bit b 7" "take_bit 4 (put_bits 0 4 0 b) = 0"
  "take_bit 3 (drop_bit 4 (put_bits 0 4 0 b)) = take_bit 3 (drop_bit 4 b)"
  by (simp_all add: bit_put_bits) (rule bit_word_eqI, auto simp: bit_simps bit_put_bits)+

lemma dns_mask_domain_terminated: "0 \<in> set d \<Longrightarrow> dns_mask_domain d \<noteq> None"
  by (induction d) auto

text \<open>A round on a datagram that holds a header and leaves room for the terminator.\<close>

definition dns_reply :: "u8 list \<Rightarrow> u8 list \<Rightarrow> u8 list" where
  "dns_reply ip p = dns_reply_header (take 12 p) @ drop 12 p @ dns_answer_bytes ip"

lemma list_12:
  assumes "12 \<le> length p"
  obtains h0 h1 h2 h3 h4 h5 h6 h7 h8 h9 h10 h11 r
  where "p = h0 # h1 # h2 # h3 # h4 # h5 # h6 # h7 # h8 # h9 # h10 # h11 # r"
  using assms by (auto simp: numeral_eq_Suc Suc_le_length_iff)

lemma length_dns_reply_header: "12 \<le> length p \<Longrightarrow> length (dns_reply_header (take 12 p)) = 12"
  by (erule list_12) (simp add: dns_reply_header_eq)

lemma dns_round_reply:
  assumes "12 \<le> length p" "length p < DNS_QUERY_MAX_SIZE" "length ip = 4"
    "length response = DNS_ANSWER_MAX_SIZE"
  shows "dns_server_round ip response (Some p) = Some (Some (dns_reply ip p))"
    and "length (dns_reply ip p) = length p + 16"
proof -
  let ?n = "length p" and ?data = "p @ replicate (80 - length p) 0"
  from assms have n: "12 \<le> ?n" "?n < 80" "length response = 96"
    by (simp_all add: DNS_QUERY_MAX_SIZE_def DNS_ANSWER_MAX_SIZE_def)
  have upd: "?data[?n := 0] = ?data"
    using n by (cases "80 - ?n") (auto simp: list_update_append)
  have 1: "write_bytes 0 (take 12 p) response = Some (take 12 p @ drop 12 response)"
    using n by (simp add: write_bytes_def)
  have hdr: "dns_reply_header (take 12 p @ r) = dns_reply_header (take 12 p) @ r" for r
    using n(1) by (elim list_12) (simp add: dns_reply_header_eq)
  have 2: "write_bytes 12 (drop 12 p) (dns_reply_header (take 12 p) @ drop 12 response)
      = Some (dns_reply_header (take 12 p) @ drop 12 p @ drop ?n response)"
    using n by (simp add: write_bytes_def length_dns_reply_header)
  have 3: "write_bytes ?n (dns_answer_bytes ip) (dns_reply_header (take 12 p) @ drop 12 p @ drop ?n response)
      = Some (dns_reply ip p @ drop (?n + 16) response)"
    using n assms(3) by (simp add: write_bytes_def length_dns_reply_header dns_answer_bytes_def dns_reply_def add.commute [of 16])
  have "0 \<in> set (drop (sizeof_dns_header + 1) ?data)"
  proof -
    have "drop 13 ?data ! 66 = ?data ! 79" using n by (intro nth_drop [THEN trans]) simp_all
    moreover have "?data ! 79 = 0" using n by (simp add: nth_append)
    moreover have "66 < length (drop 13 ?data)" using n by simp
    ultimately have "0 \<in> set (drop 13 ?data)" by (metis nth_mem)
    then show ?thesis by (simp add: sizeof_dns_header_def)
  qed
  then obtain d where d: "dns_mask_domain (drop (sizeof_dns_header + 1) ?data) = Some d"
    using dns_mask_domain_terminated by (metis not_None_eq)
  show len: "length (dns_reply ip p) = ?n + 16"
    using n assms(3) by (simp add: dns_reply_def length_dns_reply_header dns_answer_bytes_def)
  have "0 < ?n" using n(1) by (cases p) auto
  with n d show "dns_server_round ip response (Some p) = Some (Some (dns_reply ip p))"
    by (simp add: dns_server_round_def DNS_QUERY_MAX_SIZE_def DNS_ANSWER_MAX_SIZE_def
        sizeof_dns_answer_def sizeof_dns_header_def Let_def upd 1 2 3 hdr len)
qed

lemma dns_reply_to_reply:
  assumes "12 \<le> length p" "length p < DNS_QUERY_MAX_SIZE" "length ip = 4"
  shows "dns_reply_to ip p (dns_reply ip p)"
proof -
  have "length (dns_reply ip p) \<le> DNS_ANSWER_MAX_SIZE"
    using assms
    by (simp add: dns_reply_def length_dns_reply_header dns_answer_bytes_def DNS_ANSWER_MAX_SIZE_def)
  moreover have "drop sizeof_dns_header (dns_reply ip p) = drop sizeof_dns_header p @ dns_answer_bytes ip"
    using assms(1) by (simp add: dns_reply_def length_dns_reply_header sizeof_dns_header_def)
  moreover from assms(1) have "dns_read_header (dns_reply ip p) = (dns_read_header p)
        \<lparr>hd_QR := True, hd_OPCode := 0, hd_AA := True, hd_TC := False, hd_RD := False, hd_RCode := 0,
         hd_ANCount := hd_QDCount (dns_read_header p), hd_NSCount := 0, hd_ARCount := 0\<rparr>"
    by (elim list_12)
      (simp add: dns_reply_def dns_reply_header_eq dns_read_header_def be16_def dns_flags_bits rcode_bits)
  ultimately show ?thesis by (simp add: dns_reply_to_def)
qed

text \<open>
  A message of RFC 1035 is well formed when its counts match what follows the header: as many questions, then as
  many records as the three other counts say, and nothing behind them.  A name is a sequence of labels up to
  an empty one or to a pointer of two bytes.
\<close>

fun skip_name :: "u8 list \<Rightarrow> u8 list option" where
  "skip_name [] = None"
| "skip_name (c # cs) =
     (if c = 0 then Some cs
      else if 192 \<le> c then (if cs = [] then None else Some (tl cs))
      else if c < 64 \<and> unat c \<le> length cs then skip_name (drop (unat c) cs) else None)"

definition skip_question :: "u8 list \<Rightarrow> u8 list option" where
  "skip_question b = do { b \<leftarrow> skip_name b; if 4 \<le> length b then Some (drop 4 b) else None }"

definition skip_record :: "u8 list \<Rightarrow> u8 list option" where
  "skip_record b = do {
     b \<leftarrow> skip_name b;
     if 10 \<le> length b \<and> 10 + be16 b 8 \<le> length b then Some (drop (10 + be16 b 8) b) else None }"

fun skip_all :: "(u8 list \<Rightarrow> u8 list option) \<Rightarrow> nat \<Rightarrow> u8 list \<Rightarrow> u8 list option" where
  "skip_all f 0 b = Some b"
| "skip_all f (Suc n) b = do { b \<leftarrow> f b; skip_all f n b }"

definition hd_records :: "dns_header \<Rightarrow> nat" where
  "hd_records h = hd_ANCount h + hd_NSCount h + hd_ARCount h"

definition dns_message :: "u8 list \<Rightarrow> bool" where
  "dns_message m \<longleftrightarrow> sizeof_dns_header \<le> length m \<and>
     do { b \<leftarrow> skip_all skip_question (hd_QDCount (dns_read_header m)) (drop sizeof_dns_header m);
          skip_all skip_record (hd_records (dns_read_header m)) b } = Some []"

lemma skip_name_append: "skip_name b = Some r \<Longrightarrow> skip_name (b @ x) = Some (r @ x)"
  by (induction b rule: skip_name.induct) (auto split: if_splits)

lemma skip_question_append: "skip_question b = Some r \<Longrightarrow> skip_question (b @ x) = Some (r @ x)"
  by (cases "skip_name b") (auto simp: skip_question_def skip_name_append split: if_splits)

lemma skip_record_append: "skip_record b = Some r \<Longrightarrow> skip_record (b @ x) = Some (r @ x)"
  by (cases "skip_name b") (auto simp: skip_record_def skip_name_append be16_def nth_append split: if_splits)

lemma skip_all_append:
  "(\<And>b r. f b = Some r \<Longrightarrow> f (b @ x) = Some (r @ x)) \<Longrightarrow> skip_all f n b = Some r \<Longrightarrow> skip_all f n (b @ x) = Some (r @ x)"
  by (induction n arbitrary: b) (auto split: Option.bind_splits)

lemma skip_all_add: "skip_all f (m + n) b = do { b \<leftarrow> skip_all f m b; skip_all f n b }"
proof (induction m arbitrary: b)
  case (Suc m)
  then show ?case by (cases "f b") simp_all
qed simp

text \<open>Only one number of items fills a body.\<close>

lemma skip_all_unique:
  assumes "f [] = None" "skip_all f m b = Some []"
  shows "skip_all f n b = Some [] \<longleftrightarrow> n = m"
proof -
  have more: "skip_all f (k + Suc d) c \<noteq> Some []" if "skip_all f k c = Some []" for k d c
    unfolding skip_all_add using that assms(1) by simp
  have "n = m" if n: "skip_all f n b = Some []"
  proof (rule ccontr)
    assume "n \<noteq> m"
    then consider d where "n = m + Suc d" | d where "m = n + Suc d" by (metis less_imp_Suc_add add_Suc_right nat_neq_iff)
    then show False using more [OF assms(2)] more [OF n] n assms(2) by cases auto
  qed
  with assms(2) show ?thesis by blast
qed

lemma skip_answer: "length ip = 4 \<Longrightarrow> skip_record (dns_answer_bytes ip) = Some []"
proof -
  assume "length ip = 4"
  then obtain a b c d where "ip = [a, b, c, d]" by (auto simp: numeral_eq_Suc length_Suc_conv)
  then show ?thesis by (simp add: skip_record_def dns_answer_bytes_def be16_def)
qed

text \<open>
  C16: The name server answers every query of 12 to 79 bytes: the message it sends repeats the identification and
  the body, has the flags of an authoritative answer without error, and ends with the record of the access
  point's address; it fits the buffer.  For a well-formed query the reply is well formed, its answer count being
  what is there, exactly when the query has one question more than it has records: a query with one question and
  nothing else gets a well-formed reply with one answer, one without a question, with two, or with an additional record
  (as resolvers with EDNS send) does not.
\<close>

theorem dns_round_answers:
  assumes "12 \<le> length p" "length p < DNS_QUERY_MAX_SIZE" "length ip = 4"
    "length response = DNS_ANSWER_MAX_SIZE" "dns_message p"
  shows "\<exists>r. dns_server_round ip response (Some p) = Some (Some r) \<and> dns_reply_to ip p r
    \<and> (dns_message r \<longleftrightarrow> hd_QDCount (dns_read_header p) = hd_records (dns_read_header p) + 1)"
proof -
  let ?r = "dns_reply ip p" and ?h = "dns_read_header p"
  have reply: "dns_reply_to ip p ?r" by (rule dns_reply_to_reply [OF assms(1-3)])
  obtain b where q: "skip_all skip_question (hd_QDCount ?h) (drop sizeof_dns_header p) = Some b"
    and b: "skip_all skip_record (hd_records ?h) b = Some []"
    using assms(5) unfolding dns_message_def by (auto split: Option.bind_splits)
  have body: "drop sizeof_dns_header ?r = drop sizeof_dns_header p @ dns_answer_bytes ip"
    and counts: "hd_QDCount (dns_read_header ?r) = hd_QDCount ?h" "hd_records (dns_read_header ?r) = hd_QDCount ?h"
    using reply by (simp_all add: dns_reply_to_def hd_records_def)
  have all: "skip_all skip_record (hd_records ?h + 1) (b @ dns_answer_bytes ip) = Some []"
    using skip_all_append [OF skip_record_append b, of "dns_answer_bytes ip"]
    unfolding skip_all_add by (simp add: skip_answer [OF assms(3)])
  have "sizeof_dns_header \<le> length ?r"
    using dns_round_reply(2) [OF assms(1-4)] assms(1) by (simp add: sizeof_dns_header_def)
  then have "dns_message ?r \<longleftrightarrow> skip_all skip_record (hd_QDCount ?h) (b @ dns_answer_bytes ip) = Some []"
    using skip_all_append [OF skip_question_append q, of "dns_answer_bytes ip"]
    unfolding dns_message_def counts body by simp
  also have "\<dots> \<longleftrightarrow> hd_QDCount ?h = hd_records ?h + 1"
    by (rule skip_all_unique [OF _ all]) (simp add: skip_record_def)
  finally show ?thesis using dns_round_reply(1) [OF assms(1-4)] reply by blast
qed

text \<open>A query for one name, and the same one with an additional record.\<close>

definition plain_query :: "u8 list" where
  "plain_query = [0xAB, 0xCD, 1, 0, 0, 1, 0, 0, 0, 0, 0, 0, 1, 97, 0, 0, 1, 0, 1]"

definition edns_query :: "u8 list" where
  "edns_query = [0xAB, 0xCD, 1, 0, 0, 1, 0, 0, 0, 0, 0, 1, 1, 97, 0, 0, 1, 0, 1, 0, 0, 41, 16, 0, 0, 0, 0, 0, 0, 0]"

lemma query_sizes:
  "12 \<le> length plain_query" "length plain_query < DNS_QUERY_MAX_SIZE" "12 \<le> length edns_query" "length edns_query < DNS_QUERY_MAX_SIZE"
  by (simp_all add: plain_query_def edns_query_def DNS_QUERY_MAX_SIZE_def)

lemma query_counts:
  "hd_QDCount (dns_read_header plain_query) = 1" "hd_records (dns_read_header plain_query) = 0"
  "hd_QDCount (dns_read_header edns_query) = 1" "hd_records (dns_read_header edns_query) = 1"
  by (simp_all add: dns_read_header_def be16_def hd_records_def plain_query_def edns_query_def)

lemma query_messages: "dns_message plain_query" "dns_message edns_query"
  unfolding dns_message_def query_counts
  by (simp_all add: plain_query_def edns_query_def sizeof_dns_header_def skip_question_def skip_record_def be16_def word_le_nat_alt)

theorem dns_round_answers_witness:
  "(\<exists>r. dns_server_round [10, 10, 0, 1] (replicate 96 7) (Some plain_query) = Some (Some r)
     \<and> dns_reply_to [10, 10, 0, 1] plain_query r \<and> dns_message r)
   \<and> (\<exists>r. dns_server_round [10, 10, 0, 1] (replicate 96 7) (Some edns_query) = Some (Some r) \<and> \<not> dns_message r)"
proof -
  have ip: "length [10, 10, 0, 1 :: u8] = 4" "length (replicate 96 (7 :: u8)) = DNS_ANSWER_MAX_SIZE"
    by (simp_all add: DNS_ANSWER_MAX_SIZE_def DNS_QUERY_MAX_SIZE_def)
  show ?thesis
    using dns_round_answers [OF query_sizes(1,2) ip query_messages(1)] dns_round_answers [OF query_sizes(3,4) ip query_messages(2)]
    unfolding query_counts by auto
qed

lemma dns_round_short:
  assumes "0 < length p" "length p < 12"
  shows "dns_server_round ip response (Some p) = None"
  using assms
  by (cases p) (simp_all add: dns_server_round_def Let_def sizeof_dns_header_def sizeof_dns_answer_def
      DNS_QUERY_MAX_SIZE_def DNS_ANSWER_MAX_SIZE_def)

lemma dns_round_full:
  assumes "length p = DNS_QUERY_MAX_SIZE"
  shows "dns_server_round ip response (Some p) = None"
proof -
  from assms have "length p = 80" by (simp add: DNS_QUERY_MAX_SIZE_def)
  moreover from this have "p \<noteq> []" by auto
  ultimately show ?thesis
    by (simp add: dns_server_round_def Let_def sizeof_dns_answer_def
        DNS_QUERY_MAX_SIZE_def DNS_ANSWER_MAX_SIZE_def)
qed

lemma dns_round_none [simp]:
  "dns_server_round ip response None = Some None" "dns_server_round ip response (Some []) = Some None"
  by (simp_all add: dns_server_round_def)

text \<open>
  C17: Which datagrams take the name server out of its buffers: exactly those shorter than a
  header, whose unsigned length difference wraps around, and those that fill the query buffer,
  for which the terminator is stored one byte behind it.
\<close>

theorem dns_round_memory_safe:
  assumes "length p \<le> DNS_QUERY_MAX_SIZE" "length ip = 4" "length response = DNS_ANSWER_MAX_SIZE"
  shows "dns_server_round ip response (Some p) = None
    \<longleftrightarrow> 0 < length p \<and> length p < sizeof_dns_header \<or> length p = DNS_QUERY_MAX_SIZE"
proof -
  consider "p = []" | "0 < length p" "length p < 12" | "12 \<le> length p" "length p < DNS_QUERY_MAX_SIZE"
    | "length p = DNS_QUERY_MAX_SIZE"
    using assms(1) by fastforce
  then show ?thesis
    using assms by cases
      (auto simp: dns_round_short dns_round_full dns_round_reply sizeof_dns_header_def DNS_QUERY_MAX_SIZE_def)
qed

theorem dns_round_memory_safe_witness:
  "dns_server_round [10, 10, 0, 1] (replicate 96 0) (Some (replicate 80 1)) = None
    \<longleftrightarrow> 0 < length (replicate 80 (1::u8)) \<and> length (replicate 80 (1::u8)) < sizeof_dns_header
        \<or> length (replicate 80 (1::u8)) = DNS_QUERY_MAX_SIZE"
  by (rule dns_round_memory_safe) (simp_all add: DNS_QUERY_MAX_SIZE_def DNS_ANSWER_MAX_SIZE_def)

section \<open>Serving\<close>

text \<open>
  What the server relies on: the socket delivers the pending datagrams in order, each cut to
  the size asked for, and sends what it is given.  \<open>inbox\<close> and \<open>sent\<close> read the world.
\<close>

definition udp_socket ::
    "'w dns_net \<Rightarrow> ('w \<Rightarrow> u8 list option list) \<Rightarrow> ('w \<Rightarrow> u8 list list) \<Rightarrow> bool" where
  "udp_socket net inbox sent \<longleftrightarrow>
     (\<forall>fd n w. fst (net_recvfrom net fd n w)
           = (case inbox w of [] \<Rightarrow> None | q # qs \<Rightarrow> map_option (take n) q)
         \<and> inbox (snd (net_recvfrom net fd n w)) = tl (inbox w)
         \<and> sent (snd (net_recvfrom net fd n w)) = sent w)
     \<and> (\<forall>fd r w. inbox (snd (net_sendto net fd r w)) = inbox w
         \<and> sent (snd (net_sendto net fd r w)) = sent w @ [r])"

definition serviceable :: "u8 list option \<Rightarrow> bool" where
  "serviceable q = (case q of None \<Rightarrow> True | Some p \<Rightarrow> p = [] \<or> 12 \<le> length p \<and> length p < DNS_QUERY_MAX_SIZE)"

definition answers_to :: "u8 list \<Rightarrow> u8 list option \<Rightarrow> u8 list list" where
  "answers_to ip q = (case q of None \<Rightarrow> [] | Some p \<Rightarrow> if p = [] then [] else [dns_reply ip p])"

lemma dns_round_serviceable:
  assumes "serviceable q" "length ip = 4" "length response = DNS_ANSWER_MAX_SIZE"
  obtains (ignored) "dns_server_round ip response q = Some None" "answers_to ip q = []"
  | (answered) r where "dns_server_round ip response q = Some (Some r)" "answers_to ip q = [r]"
      "length r \<le> DNS_ANSWER_MAX_SIZE"
proof (cases "q = None \<or> q = Some []")
  case True
  then show ?thesis using ignored by (auto simp: answers_to_def)
next
  case False
  then obtain p where p: "q = Some p" "p \<noteq> []" by auto
  with assms have "12 \<le> length p" "length p < DNS_QUERY_MAX_SIZE" by (auto simp: serviceable_def)
  with p dns_round_reply [OF this assms(2,3)] dns_reply_to_reply [OF this assms(2)]
  show ?thesis using answered [of "dns_reply ip p"] by (simp add: answers_to_def dns_reply_to_def)
qed

lemma dns_rounds_log:
  assumes "udp_socket net inbox sent" "list_all serviceable (inbox w)" "length ip = 4"
    "length response = DNS_ANSWER_MAX_SIZE" "k = length (inbox w)"
  shows "\<exists>w'. dns_server_rounds net ip fd k response w = Some w' \<and> inbox w' = []
    \<and> sent w' = sent w @ concat (map (answers_to ip) (inbox w))"
  using assms(2,4,5)
proof (induction k arbitrary: w response)
  case 0
  then show ?case by simp
next
  case (Suc k)
  then obtain q qs where q: "inbox w = q # qs" by (cases "inbox w") auto
  obtain packet w1 where recv: "net_recvfrom net fd DNS_QUERY_MAX_SIZE w = (packet, w1)"
    by (cases "net_recvfrom net fd DNS_QUERY_MAX_SIZE w") auto
  have w1: "packet = map_option (take DNS_QUERY_MAX_SIZE) q" "inbox w1 = qs" "sent w1 = sent w"
    using assms(1) recv q unfolding udp_socket_def by (metis (no_types, lifting) fst_conv snd_conv list.sel(3) list.simps(5))+
  have "packet = q" using w1(1) Suc.prems(1) q
    by (cases q) (auto simp: serviceable_def DNS_QUERY_MAX_SIZE_def)
  have ok: "serviceable packet" using Suc.prems(1) q \<open>packet = q\<close> by simp
  show ?case
  proof (cases rule: dns_round_serviceable [OF ok assms(3) Suc.prems(2)])
    case 1
    with Suc.IH [of w1 response] Suc.prems q w1 \<open>packet = q\<close> show ?thesis by (simp add: recv)
  next
    case (2 r)
    let ?w2 = "snd (net_sendto net fd r w1)"
    have "inbox ?w2 = qs" "sent ?w2 = sent w @ [r]"
      using assms(1) w1 by (auto simp: udp_socket_def)
    with Suc.IH [of ?w2 "r @ drop (length r) response"] Suc.prems q 2 \<open>packet = q\<close> show ?thesis
      by (simp add: recv)
  qed
qed

text \<open>
  C29: Serving a queue of datagrams, none of them one that breaks the buffers, the server gets
  through all of them and has sent, in order, one reply for each non-empty one.
\<close>

theorem dns_server_serves:
  assumes "udp_socket net inbox sent" "list_all serviceable (inbox w)" "length ip = 4"
    "length response = DNS_ANSWER_MAX_SIZE"
  shows "\<exists>w'. dns_server_rounds net ip fd (length (inbox w)) response w = Some w' \<and> inbox w' = []
    \<and> sent w' = sent w @ concat (map (answers_to ip) (inbox w))"
  using assms by (intro dns_rounds_log refl)

definition toy_net :: "(u8 list option list \<times> u8 list list) dns_net" where
  "toy_net = \<lparr>net_socket = \<lambda>w. (3, w), net_sta_ip = \<lambda>w. (Some 0, w), net_bind = \<lambda>_ _ _ w. (0, w),
     net_close = \<lambda>_ w. w,
     net_recvfrom = \<lambda>_ n w. (case fst w of [] \<Rightarrow> None | q # qs \<Rightarrow> map_option (take n) q, (tl (fst w), snd w)),
     net_sendto = \<lambda>_ r w. (int (length r), (fst w, snd w @ [r])),
     net_task_create = \<lambda>w. (Some 1, w), net_task_delete = \<lambda>_ w. w\<rparr>"

theorem dns_server_serves_witness:
  fixes q :: "u8 list" and w :: "u8 list option list \<times> u8 list list"
  defines "q \<equiv> [0xAB, 0xCD, 1, 0, 0, 1, 0, 0, 0, 0, 0, 0, 1, 97, 0, 0, 1, 0, 1]"
    and "w \<equiv> ([Some q, None], [])"
  shows "\<exists>w'. dns_server_rounds toy_net [10, 10, 0, 1] 3 (length (fst w)) (replicate 96 0) w = Some w'
    \<and> fst w' = [] \<and> snd w' = snd w @ concat (map (answers_to [10, 10, 0, 1]) (fst w))"
  by (rule dns_server_serves)
    (auto simp: udp_socket_def toy_net_def serviceable_def q_def w_def
      DNS_QUERY_MAX_SIZE_def DNS_ANSWER_MAX_SIZE_def)

section \<open>Starting and stopping\<close>

text \<open>
  The server task exists at most once: starting it again while it runs does nothing, and
  stopping a started server deletes its task, closes the socket and leaves it stopped.
\<close>

theorem dns_server_start_once:
  "task_dns_server s = None \<Longrightarrow> net_task_create net w = (Some t, w') \<Longrightarrow>
     dns_server_start net (s, w) = (s\<lparr>task_dns_server := Some t\<rparr>, w')
   \<and> dns_server_start net (dns_server_start net (s, w)) = dns_server_start net (s, w)
   \<and> dns_server_stop net (dns_server_start net (s, w))
       = (s, net_close net (dns_socket_fd s) (net_task_delete net t w'))"
  by (simp add: dns_server_start_def dns_server_stop_def)

theorem dns_server_start_once_witness:
  fixes s :: dns_state
  defines "s \<equiv> \<lparr>task_dns_server = None, dns_socket_fd = 3\<rparr>"
  shows "dns_server_start toy_net (s, ([], [])) = (s\<lparr>task_dns_server := Some 1\<rparr>, ([], []))
   \<and> dns_server_start toy_net (dns_server_start toy_net (s, ([], []))) = dns_server_start toy_net (s, ([], []))
   \<and> dns_server_stop toy_net (dns_server_start toy_net (s, ([], [])))
       = (s, net_close toy_net (dns_socket_fd s) (net_task_delete toy_net 1 ([], [])))"
  by (rule dns_server_start_once) (simp_all add: s_def toy_net_def)

end
