(* ===== verification/Register_File.thy ===== *)
theory Register_File
  imports Prelude
begin

text \<open>
  The contract the drivers share: a device whose registers are read and written one at a time.
  \<open>val\<close> reads the registers off the world, \<open>ready\<close> says that the device can take a request,
  \<open>writable\<close> that it accepts a write to a register.  The clock and RAM registers of the DS1302
  provide it; reading back, overwriting and read-modify-write follow once for all.
\<close>

locale register_file =
  fixes wr :: "'r \<Rightarrow> 'v \<Rightarrow> 's \<Rightarrow> 's"
    and rd :: "'r \<Rightarrow> 's \<Rightarrow> 'v \<times> 's"
    and val :: "'s \<Rightarrow> 'r \<Rightarrow> 'v"
    and ready :: "'s \<Rightarrow> bool"
    and writable :: "'s \<Rightarrow> 'r \<Rightarrow> 'v \<Rightarrow> bool"
    and valid :: "'r \<Rightarrow> bool"
  assumes rd_val: "ready s \<Longrightarrow> valid r \<Longrightarrow> fst (rd r s) = val s r"
    and rd_keeps: "ready s \<Longrightarrow> valid r \<Longrightarrow> ready (snd (rd r s)) \<and> val (snd (rd r s)) = val s"
    and wr_ready: "ready s \<Longrightarrow> valid r \<Longrightarrow> ready (wr r v s)"
    and wr_val: "ready s \<Longrightarrow> valid r \<Longrightarrow> writable s r v \<Longrightarrow> val (wr r v s) = (val s)(r := v)"
begin

lemma rd_eq: "ready s \<Longrightarrow> valid r \<Longrightarrow> rd r s = (val s r, snd (rd r s))"
  by (metis rd_val prod.collapse)

lemma read_back:
  assumes "ready s" "valid r" "writable s r v"
  shows "fst (rd r (wr r v s)) = v"
  using assms by (simp add: rd_val wr_ready wr_val)

lemma read_other:
  assumes "ready s" "valid r" "valid r'" "writable s r v" "r' \<noteq> r"
  shows "fst (rd r' (wr r v s)) = val s r'"
  using assms by (simp add: rd_val wr_ready wr_val)

text \<open>Read, change, and write back only if something changed.\<close>

lemma modify:
  assumes "ready s" "valid r" "rd r s = (old, s1)" "writable s1 r (f old)"
  shows "ready (if old \<noteq> f old then wr r (f old) s1 else s1)"
    and "val (if old \<noteq> f old then wr r (f old) s1 else s1) = (val s)(r := f (val s r))"
proof -
  from assms have old: "old = val s r" and s1: "ready s1" "val s1 = val s"
    using rd_val [of s r] rd_keeps [of s r] by auto
  then show "ready (if old \<noteq> f old then wr r (f old) s1 else s1)"
    using assms(2) by (simp add: wr_ready)
  show "val (if old \<noteq> f old then wr r (f old) s1 else s1) = (val s)(r := f (val s r))"
    using old s1 wr_val [OF s1(1) assms(2,4)] by (auto simp: fun_eq_iff)
qed

end

end
