(* ===== verification/Ds1302.thy ===== *)
theory Ds1302
  imports Register_File
begin

text \<open>
  The driver of the DS1302 clock chip, \<^verbatim>\<open>common/ds1302/ds1302.c\<close>: a three-wire protocol driven
  pin by pin, and on top of it the clock registers, the 31 bytes of RAM and the date.

  The GPIO calls are parameters (\<open>gpio\<close>) on an abstract world.  What the driver relies on is
  \<open>ds1302_wired\<close>: the pins lead to a chip that behaves as its data sheet says, described by the
  automaton \<open>ds1302_chip\<close>.  A delay leaves the registers alone, so the theorems speak of
  calls between two ticks of the seconds register.
\<close>

section \<open>The driver\<close>

datatype gpio_mode = GPIO_MODE_INPUT | GPIO_MODE_OUTPUT

record 'w gpio =
  gpio_reset_pin :: "u8 \<Rightarrow> 'w \<Rightarrow> 'w"
  gpio_set_level :: "u8 \<Rightarrow> bool \<Rightarrow> 'w \<Rightarrow> 'w"
  gpio_set_direction :: "u8 \<Rightarrow> gpio_mode \<Rightarrow> 'w \<Rightarrow> 'w"
  gpio_get_level :: "u8 \<Rightarrow> 'w \<Rightarrow> bool"
  gpio_task_delay :: "nat \<Rightarrow> 'w \<Rightarrow> 'w"

record DS1302_Dev =
  clkPin :: u8
  ioPin :: u8
  cePin :: u8

record DS1302_DateTime =
  dt_second :: u8
  dt_minute :: u8
  dt_hour :: u8
  dt_dayWeek :: u8
  dt_dayMonth :: u8
  dt_month :: u8
  dt_year :: u16

definition zero_DateTime :: DS1302_DateTime where
  "zero_DateTime = \<lparr>dt_second = 0, dt_minute = 0, dt_hour = 0, dt_dayWeek = 0, dt_dayMonth = 0,
                    dt_month = 0, dt_year = 0\<rparr>"

definition DS1302_CMD_READ_CLOCK_REG :: "u8 \<Rightarrow> u8" where
  "DS1302_CMD_READ_CLOCK_REG reg = 0x80 OR 0x00 OR push_bit 1 (reg AND 0x1F) OR 0x01"
definition DS1302_CMD_WRITE_CLOCK_REG :: "u8 \<Rightarrow> u8" where
  "DS1302_CMD_WRITE_CLOCK_REG reg = 0x80 OR 0x00 OR push_bit 1 (reg AND 0x1F) OR 0x00"
definition DS1302_CMD_READ_CLOCK_BURST :: u8 where
  "DS1302_CMD_READ_CLOCK_BURST = 0x80 OR 0x00 OR 0x3E OR 0x01"
definition DS1302_CMD_WRITE_CLOCK_BURST :: u8 where
  "DS1302_CMD_WRITE_CLOCK_BURST = 0x80 OR 0x00 OR 0x3E OR 0x00"
definition DS1302_CMD_READ_RAM :: "u8 \<Rightarrow> u8" where
  "DS1302_CMD_READ_RAM addr = 0x80 OR 0x40 OR push_bit 1 (addr AND 0x1F) OR 0x01"
definition DS1302_CMD_WRITE_RAM :: "u8 \<Rightarrow> u8" where
  "DS1302_CMD_WRITE_RAM addr = 0x80 OR 0x40 OR push_bit 1 (addr AND 0x1F) OR 0x00"
definition DS1302_CMD_READ_RAM_BURST :: u8 where
  "DS1302_CMD_READ_RAM_BURST = 0x80 OR 0x40 OR 0x3E OR 0x01"
definition DS1302_CMD_WRITE_RAM_BURST :: u8 where
  "DS1302_CMD_WRITE_RAM_BURST = 0x80 OR 0x40 OR 0x3E OR 0x00"

definition NUM_DS1302_RAM_REGS :: nat where "NUM_DS1302_RAM_REGS = 31"

subsection \<open>Transfers\<close>

definition DS1302_transferBegin :: "'w gpio \<Rightarrow> DS1302_Dev \<Rightarrow> 'w \<Rightarrow> 'w" where
  "DS1302_transferBegin g dev w =
     (let w = gpio_set_level g (clkPin dev) False w;
          w = gpio_set_level g (ioPin dev) False w;
          w = gpio_set_direction g (ioPin dev) GPIO_MODE_OUTPUT w
      in gpio_set_level g (cePin dev) True w)"

definition DS1302_transferEnd :: "'w gpio \<Rightarrow> DS1302_Dev \<Rightarrow> 'w \<Rightarrow> 'w" where
  "DS1302_transferEnd g dev w = gpio_set_level g (cePin dev) False w"

definition addr_cmd_bit :: "'w gpio \<Rightarrow> DS1302_Dev \<Rightarrow> u8 \<Rightarrow> nat \<Rightarrow> 'w \<Rightarrow> 'w" where
  "addr_cmd_bit g dev value i w =
     (let w = gpio_set_level g (ioPin dev) (bit value i) w;
          w = gpio_task_delay g 1 w;
          w = gpio_set_level g (clkPin dev) True w;
          w = gpio_task_delay g 1 w
      in if bit value 0 \<and> i = 7
         then gpio_set_direction g (ioPin dev) GPIO_MODE_INPUT w
         else gpio_set_level g (clkPin dev) False w)"

definition DS1302_writeAddrCmd :: "'w gpio \<Rightarrow> DS1302_Dev \<Rightarrow> u8 \<Rightarrow> 'w \<Rightarrow> 'w" where
  "DS1302_writeAddrCmd g dev value w = fold (addr_cmd_bit g dev value) [0..<8] w"

definition write_bit :: "'w gpio \<Rightarrow> DS1302_Dev \<Rightarrow> nat \<Rightarrow> u8 \<times> 'w \<Rightarrow> u8 \<times> 'w" where
  "write_bit g dev i st =
     (case st of (value, w) \<Rightarrow>
        let w = gpio_set_level g (ioPin dev) (bit value 0) w;
            value = drop_bit 1 value;
            w = gpio_set_level g (clkPin dev) True w;
            w = gpio_task_delay g 1 w;
            w = gpio_set_level g (clkPin dev) False w
        in (value, w))"

definition DS1302_writeByte :: "'w gpio \<Rightarrow> DS1302_Dev \<Rightarrow> u8 \<Rightarrow> 'w \<Rightarrow> 'w" where
  "DS1302_writeByte g dev value w = snd (fold (write_bit g dev) [0..<8] (value, w))"

definition read_bit :: "'w gpio \<Rightarrow> DS1302_Dev \<Rightarrow> nat \<Rightarrow> u8 \<times> 'w \<Rightarrow> u8 \<times> 'w" where
  "read_bit g dev i st =
     (case st of (value, w) \<Rightarrow>
        let w = gpio_set_level g (clkPin dev) True w;
            w = gpio_set_level g (clkPin dev) False w;
            w = gpio_task_delay g 1 w;
            value = drop_bit 1 value;
            value = (if gpio_get_level g (ioPin dev) w then value OR 0x80 else value AND NOT 0x80)
        in (value, w))"

definition DS1302_readByte :: "'w gpio \<Rightarrow> DS1302_Dev \<Rightarrow> 'w \<Rightarrow> u8 \<times> 'w" where
  "DS1302_readByte g dev w = fold (read_bit g dev) [0..<8] (0, w)"

fun DS1302_readBuffer :: "'w gpio \<Rightarrow> DS1302_Dev \<Rightarrow> nat \<Rightarrow> 'w \<Rightarrow> u8 list \<times> 'w" where
  "DS1302_readBuffer g dev 0 w = ([], w)"
| "DS1302_readBuffer g dev (Suc len) w =
     (let (v, w) = DS1302_readByte g dev w;
          (vs, w) = DS1302_readBuffer g dev len w
      in (v # vs, w))"

subsection \<open>Registers and RAM\<close>

definition DS1302_writeClockRegister :: "'w gpio \<Rightarrow> DS1302_Dev \<Rightarrow> u8 \<Rightarrow> u8 \<Rightarrow> 'w \<Rightarrow> 'w" where
  "DS1302_writeClockRegister g dev reg value w =
     (let w = DS1302_transferBegin g dev w;
          w = DS1302_writeAddrCmd g dev (DS1302_CMD_WRITE_CLOCK_REG reg) w;
          w = DS1302_writeByte g dev value w
      in DS1302_transferEnd g dev w)"

definition DS1302_readClockRegister :: "'w gpio \<Rightarrow> DS1302_Dev \<Rightarrow> u8 \<Rightarrow> 'w \<Rightarrow> u8 \<times> 'w" where
  "DS1302_readClockRegister g dev reg w =
     (let w = DS1302_transferBegin g dev w;
          w = DS1302_writeAddrCmd g dev (DS1302_CMD_READ_CLOCK_REG reg) w;
          (retval, w) = DS1302_readByte g dev w
      in (retval, DS1302_transferEnd g dev w))"

definition DS1302_writeByteRAM :: "'w gpio \<Rightarrow> DS1302_Dev \<Rightarrow> u8 \<Rightarrow> u8 \<Rightarrow> 'w \<Rightarrow> 'w" where
  "DS1302_writeByteRAM g dev addr value w =
     (let w = DS1302_transferBegin g dev w;
          w = DS1302_writeAddrCmd g dev (DS1302_CMD_WRITE_RAM addr) w;
          w = DS1302_writeByte g dev value w
      in DS1302_transferEnd g dev w)"

definition DS1302_readByteRAM :: "'w gpio \<Rightarrow> DS1302_Dev \<Rightarrow> u8 \<Rightarrow> 'w \<Rightarrow> u8 \<times> 'w" where
  "DS1302_readByteRAM g dev addr w =
     (let w = DS1302_transferBegin g dev w;
          w = DS1302_writeAddrCmd g dev (DS1302_CMD_READ_RAM addr) w;
          (value, w) = DS1302_readByte g dev w
      in (value, DS1302_transferEnd g dev w))"

definition DS1302_writeBufferRAM :: "'w gpio \<Rightarrow> DS1302_Dev \<Rightarrow> u8 list \<Rightarrow> nat \<Rightarrow> 'w \<Rightarrow> 'w" where
  "DS1302_writeBufferRAM g dev buf len w =
     (let w = DS1302_transferBegin g dev w;
          w = DS1302_writeAddrCmd g dev DS1302_CMD_WRITE_RAM_BURST w;
          w = fold (DS1302_writeByte g dev) (take (min len NUM_DS1302_RAM_REGS) buf) w
      in DS1302_transferEnd g dev w)"

text \<open>The bytes stored at the front of the caller's buffer.\<close>

definition DS1302_readBufferRAM :: "'w gpio \<Rightarrow> DS1302_Dev \<Rightarrow> nat \<Rightarrow> 'w \<Rightarrow> u8 list \<times> 'w" where
  "DS1302_readBufferRAM g dev len w =
     (let w = DS1302_transferBegin g dev w;
          w = DS1302_writeAddrCmd g dev DS1302_CMD_READ_RAM_BURST w;
          (buf, w) = DS1302_readBuffer g dev (min len NUM_DS1302_RAM_REGS) w
      in (buf, DS1302_transferEnd g dev w))"

subsection \<open>Flags\<close>

definition DS1302_writeProtect :: "'w gpio \<Rightarrow> DS1302_Dev \<Rightarrow> bool \<Rightarrow> 'w \<Rightarrow> 'w" where
  "DS1302_writeProtect g dev enable w =
     DS1302_writeClockRegister g dev 7 (push_bit 7 (of_bool enable)) w"

definition DS1302_isWriteProtected :: "'w gpio \<Rightarrow> DS1302_Dev \<Rightarrow> 'w \<Rightarrow> bool \<times> 'w" where
  "DS1302_isWriteProtected g dev w =
     (let (v, w) = DS1302_readClockRegister g dev 7 w in (v AND push_bit 7 1 \<noteq> 0, w))"

definition halt_bits :: "bool \<Rightarrow> u8 \<Rightarrow> u8" where
  "halt_bits halt regOld = (if halt then regOld OR push_bit 7 1 else regOld AND NOT (push_bit 7 1))"

definition DS1302_halt :: "'w gpio \<Rightarrow> DS1302_Dev \<Rightarrow> bool \<Rightarrow> 'w \<Rightarrow> 'w" where
  "DS1302_halt g dev halt w =
     (let (regOld, w) = DS1302_readClockRegister g dev 0 w;
          regNew = halt_bits halt regOld
      in if regOld \<noteq> regNew then DS1302_writeClockRegister g dev 0 regNew w else w)"

definition DS1302_isHalted :: "'w gpio \<Rightarrow> DS1302_Dev \<Rightarrow> 'w \<Rightarrow> bool \<times> 'w" where
  "DS1302_isHalted g dev w =
     (let (val, w) = DS1302_readClockRegister g dev 0 w;
          (val, w) = DS1302_readClockRegister g dev 0 w
      in (val AND push_bit 7 1 \<noteq> 0, w))"

definition DS1302_begin :: "'w gpio \<Rightarrow> u8 \<Rightarrow> u8 \<Rightarrow> u8 \<Rightarrow> 'w \<Rightarrow> bool \<times> DS1302_Dev \<times> 'w" where
  "DS1302_begin g clk io ce w =
     (let w = gpio_reset_pin g clk w;
          w = gpio_reset_pin g io w;
          w = gpio_reset_pin g ce w;
          dev = \<lparr>clkPin = clk, ioPin = io, cePin = ce\<rparr>;
          w = gpio_set_level g (clkPin dev) False w;
          w = gpio_set_level g (ioPin dev) False w;
          w = gpio_set_level g (cePin dev) False w;
          w = gpio_set_direction g (clkPin dev) GPIO_MODE_OUTPUT w;
          w = gpio_set_direction g (ioPin dev) GPIO_MODE_OUTPUT w;
          w = gpio_set_direction g (cePin dev) GPIO_MODE_OUTPUT w;
          w = DS1302_halt g dev False w;
          (halted, w) = DS1302_isHalted g dev w
      in (\<not> halted, dev, w))"

subsection \<open>Date and time\<close>

definition bcdToDec :: "u8 \<Rightarrow> u8" where
  "bcdToDec bcd = drop_bit 4 bcd * 10 + (bcd AND 0x0F)"

definition decToBcd :: "u8 \<Rightarrow> u8" where
  "decToBcd dec = push_bit 4 (dec div 10) + dec mod 10"

definition DS1302_setDateTime :: "'w gpio \<Rightarrow> DS1302_Dev \<Rightarrow> DS1302_DateTime \<Rightarrow> 'w \<Rightarrow> 'w" where
  "DS1302_setDateTime g dev dateTime w =
     (let (r0, w) = DS1302_readClockRegister g dev 0 w;
          ch = r0 AND push_bit 7 1;
          w = DS1302_transferBegin g dev w;
          w = DS1302_writeAddrCmd g dev DS1302_CMD_WRITE_CLOCK_BURST w;
          w = DS1302_writeByte g dev (ch OR decToBcd (dt_second dateTime AND 0x7F)) w;
          w = DS1302_writeByte g dev (decToBcd (dt_minute dateTime)) w;
          w = DS1302_writeByte g dev (decToBcd (dt_hour dateTime AND 0x3F)) w;
          w = DS1302_writeByte g dev (decToBcd (dt_dayMonth dateTime AND 0x3F)) w;
          w = DS1302_writeByte g dev (decToBcd (dt_month dateTime AND 0x1F)) w;
          w = DS1302_writeByte g dev (decToBcd (dt_dayWeek dateTime AND 0x07)) w;
          w = DS1302_writeByte g dev (decToBcd (word_of_int (uint (dt_year dateTime) - 2000) AND 0xFF)) w;
          w = DS1302_writeByte g dev 0 w
      in DS1302_transferEnd g dev w)"

definition DateTime_of_buf :: "u8 list \<Rightarrow> DS1302_DateTime" where
  "DateTime_of_buf buf =
     \<lparr>dt_second = bcdToDec (buf ! 0 AND 0x7F), dt_minute = bcdToDec (buf ! 1),
      dt_hour = bcdToDec (buf ! 2), dt_dayWeek = bcdToDec (buf ! 5),
      dt_dayMonth = bcdToDec (buf ! 3), dt_month = bcdToDec (buf ! 4),
      dt_year = 2000 + ucast (bcdToDec (buf ! 6))\<rparr>"

definition DateTime_invalid :: "DS1302_DateTime \<Rightarrow> bool" where
  "DateTime_invalid d \<longleftrightarrow>
     59 < dt_second d \<or> 59 < dt_minute d \<or> 23 < dt_hour d \<or> dt_dayMonth d < 1 \<or> 31 < dt_dayMonth d
     \<or> dt_month d < 1 \<or> 12 < dt_month d \<or> dt_dayWeek d < 1 \<or> 7 < dt_dayWeek d \<or> 2099 < dt_year d"

definition DS1302_getDateTime :: "'w gpio \<Rightarrow> DS1302_Dev \<Rightarrow> 'w \<Rightarrow> (bool \<times> DS1302_DateTime) \<times> 'w" where
  "DS1302_getDateTime g dev w =
     (let w = DS1302_transferBegin g dev w;
          w = DS1302_writeAddrCmd g dev DS1302_CMD_READ_CLOCK_BURST w;
          (buf, w) = DS1302_readBuffer g dev 7 w;
          w = DS1302_transferEnd g dev w;
          dateTime = DateTime_of_buf buf
      in (if DateTime_invalid dateTime then (False, zero_DateTime) else (True, dateTime), w))"

definition DS1302_setTime :: "'w gpio \<Rightarrow> DS1302_Dev \<Rightarrow> u8 \<Rightarrow> u8 \<Rightarrow> u8 \<Rightarrow> 'w \<Rightarrow> 'w" where
  "DS1302_setTime g dev hour minute second w =
     (let ((_, dt), w) = DS1302_getDateTime g dev w;
          dt = dt\<lparr>dt_hour := hour, dt_minute := minute, dt_second := second\<rparr>
      in DS1302_setDateTime g dev dt w)"

text \<open>The result is the flag and the hour, minute and second stored for the caller.\<close>

definition DS1302_getTime :: "'w gpio \<Rightarrow> DS1302_Dev \<Rightarrow> 'w \<Rightarrow> (bool \<times> u8 \<times> u8 \<times> u8) \<times> 'w" where
  "DS1302_getTime g dev w =
     (let w = DS1302_transferBegin g dev w;
          w = DS1302_writeAddrCmd g dev DS1302_CMD_READ_CLOCK_BURST w;
          (buf, w) = DS1302_readBuffer g dev 3 w;
          w = DS1302_transferEnd g dev w;
          second = bcdToDec (buf ! 0 AND 0x7F);
          minute = bcdToDec (buf ! 1);
          hour = bcdToDec (buf ! 2)
      in (if 59 < second \<or> 59 < minute \<or> 23 < hour then (False, 0, 0, 0) else (True, hour, minute, second), w))"

section \<open>The chip\<close>

text \<open>
  The data sheet's chip: while CE is high it shifts in a command byte on rising clock edges, low
  bit first, then either shifts in data bytes or puts out register bits on falling edges.
  Address 31 is a burst; a clock burst takes effect with its eighth byte.  Write protection
  blocks every register but its own, and register bits the chip does not have read 0.
\<close>

datatype ds1302_phase = Idle | Command "bool list" | Writing u8 "u8 list" "bool list" | Reading u8 nat

record ds1302_chip =
  ch_ce :: bool
  ch_clk :: bool
  ch_host :: bool
  ch_host_out :: bool
  ch_out :: bool
  ch_phase :: ds1302_phase
  ch_clock :: "u8 list"
  ch_ram :: "u8 list"

definition byte_of_bits :: "bool list \<Rightarrow> u8" where
  "byte_of_bits bs = horner_sum of_bool 2 bs"

definition clock_mask :: "nat \<Rightarrow> u8" where
  "clock_mask i = [0xFF, 0x7F, 0xBF, 0x3F, 0x1F, 0x07, 0xFF, 0x80, 0xFF] ! i"

definition cmd_addr :: "u8 \<Rightarrow> nat" where
  "cmd_addr cmd = unat (take_bit 5 (drop_bit 1 cmd))"

definition write_protected :: "ds1302_chip \<Rightarrow> bool" where
  "write_protected c = bit (ch_clock c ! 7) 7"

definition ds1302_store :: "u8 \<Rightarrow> u8 list \<Rightarrow> ds1302_chip \<Rightarrow> ds1302_chip" where
  "ds1302_store cmd bytes c =
     (let a = cmd_addr cmd; n = length bytes; v = last bytes in
      if \<not> bit cmd 7 then c
      else if bit cmd 6 then
        (if write_protected c then c
         else if a = 31 then c\<lparr>ch_ram := (ch_ram c)[n - 1 := v]\<rparr>
         else if n = 1 then c\<lparr>ch_ram := (ch_ram c)[a := v]\<rparr> else c)
      else if a = 31 then
        (if n \<noteq> 8 then c
         else if write_protected c then c\<lparr>ch_clock := (ch_clock c)[7 := v AND clock_mask 7]\<rparr>
         else c\<lparr>ch_clock := map2 (\<lambda>i b. b AND clock_mask i) [0..<8] bytes @ drop 8 (ch_clock c)\<rparr>)
      else if n = 1 \<and> a < 9 \<and> (a = 7 \<or> \<not> write_protected c)
      then c\<lparr>ch_clock := (ch_clock c)[a := v AND clock_mask a]\<rparr> else c)"

definition ds1302_fetch :: "u8 \<Rightarrow> nat \<Rightarrow> ds1302_chip \<Rightarrow> u8" where
  "ds1302_fetch cmd j c =
     (let a = cmd_addr cmd; i = (if a = 31 then j else a);
          r = (if bit cmd 6 then ch_ram c else ch_clock c)
      in if bit cmd 7 \<and> i < length r then r ! i else 0)"

definition ds1302_rise :: "ds1302_chip \<Rightarrow> ds1302_chip" where
  "ds1302_rise c =
     (case ch_phase c of
        Command bs \<Rightarrow>
          (let bs = bs @ [ch_host c]; cmd = byte_of_bits bs in
           c\<lparr>ch_phase := if length bs < 8 then Command bs
                         else if bit cmd 0 then Reading cmd 0 else Writing cmd [] []\<rparr>)
      | Writing cmd bytes bs \<Rightarrow>
          (let bs = bs @ [ch_host c] in
           if length bs < 8 then c\<lparr>ch_phase := Writing cmd bytes bs\<rparr>
           else (let bytes = bytes @ [byte_of_bits bs]
                 in (ds1302_store cmd bytes c)\<lparr>ch_phase := Writing cmd bytes []\<rparr>))
      | _ \<Rightarrow> c)"

definition ds1302_fall :: "ds1302_chip \<Rightarrow> ds1302_chip" where
  "ds1302_fall c =
     (case ch_phase c of
        Reading cmd k \<Rightarrow>
          c\<lparr>ch_out := bit (ds1302_fetch cmd (k div 8) c) (k mod 8), ch_phase := Reading cmd (Suc k)\<rparr>
      | _ \<Rightarrow> c)"

definition ds1302_level :: "DS1302_Dev \<Rightarrow> u8 \<Rightarrow> bool \<Rightarrow> ds1302_chip \<Rightarrow> ds1302_chip" where
  "ds1302_level dev pin b c =
     (if pin = cePin dev then
        c\<lparr>ch_ce := b, ch_phase := if \<not> b then Idle else if ch_ce c then ch_phase c else Command []\<rparr>
      else if pin = clkPin dev then
        (if b = ch_clk c then c
         else (if b then ds1302_rise c else ds1302_fall c)\<lparr>ch_clk := b\<rparr>)
      else if pin = ioPin dev then c\<lparr>ch_host := b\<rparr>
      else c)"

definition ds1302_direction :: "DS1302_Dev \<Rightarrow> u8 \<Rightarrow> gpio_mode \<Rightarrow> ds1302_chip \<Rightarrow> ds1302_chip" where
  "ds1302_direction dev pin m c = (if pin = ioPin dev then c\<lparr>ch_host_out := (m = GPIO_MODE_OUTPUT)\<rparr> else c)"

definition ds1302_wired :: "'w gpio \<Rightarrow> DS1302_Dev \<Rightarrow> ('w \<Rightarrow> ds1302_chip) \<Rightarrow> bool" where
  "ds1302_wired g dev chip \<longleftrightarrow>
     distinct [clkPin dev, ioPin dev, cePin dev]
     \<and> (\<forall>pin b w. chip (gpio_set_level g pin b w) = ds1302_level dev pin b (chip w))
     \<and> (\<forall>pin m w. chip (gpio_set_direction g pin m w) = ds1302_direction dev pin m (chip w))
     \<and> (\<forall>w. gpio_get_level g (ioPin dev) w
             = (if ch_host_out (chip w) then ch_host (chip w) else ch_out (chip w)))
     \<and> (\<forall>n w. chip (gpio_task_delay g n w) = chip w)"

definition chip_wf :: "ds1302_chip \<Rightarrow> bool" where
  "chip_wf c \<longleftrightarrow> length (ch_clock c) = 9 \<and> length (ch_ram c) = 31"

definition chip_idle :: "ds1302_chip \<Rightarrow> bool" where
  "chip_idle c \<longleftrightarrow> \<not> ch_ce c \<and> ch_phase c = Idle \<and> chip_wf c"

section \<open>Bytes over the wires\<close>

text \<open>What a transfer leaves: only the registers, CE and the phase matter to the next one.\<close>

lemma wired_simps [call_simps]:
  assumes "ds1302_wired g dev chip"
  shows "chip (gpio_set_level g pin b w) = ds1302_level dev pin b (chip w)"
    and "chip (gpio_set_direction g pin m w) = ds1302_direction dev pin m (chip w)"
    and "gpio_get_level g (ioPin dev) w = (if ch_host_out (chip w) then ch_host (chip w) else ch_out (chip w))"
    and "chip (gpio_task_delay g n w) = chip w"
    and "clkPin dev \<noteq> ioPin dev" "clkPin dev \<noteq> cePin dev" "ioPin dev \<noteq> cePin dev"
    and "ioPin dev \<noteq> clkPin dev" "cePin dev \<noteq> clkPin dev" "cePin dev \<noteq> ioPin dev"
  using assms by (auto simp: ds1302_wired_def)

lemma level_simps [call_simps]:
  "ds1302_level dev (cePin dev) True c = c\<lparr>ch_ce := True, ch_phase := if ch_ce c then ch_phase c else Command []\<rparr>"
  "ds1302_level dev (cePin dev) False c = c\<lparr>ch_ce := False, ch_phase := Idle\<rparr>"
  "clkPin dev \<noteq> cePin dev \<Longrightarrow> ds1302_level dev (clkPin dev) b c =
     (if b = ch_clk c then c else (if b then ds1302_rise c else ds1302_fall c)\<lparr>ch_clk := b\<rparr>)"
  "ioPin dev \<noteq> cePin dev \<Longrightarrow> ioPin dev \<noteq> clkPin dev \<Longrightarrow> ds1302_level dev (ioPin dev) b c = c\<lparr>ch_host := b\<rparr>"
  "ds1302_direction dev (ioPin dev) m c = c\<lparr>ch_host_out := (m = GPIO_MODE_OUTPUT)\<rparr>"
  by (simp_all add: ds1302_level_def ds1302_direction_def)

lemma byte_of_bits_word [simp]: "byte_of_bits (map (bit v) [0..<8]) = v"
  by (simp add: byte_of_bits_def horner_sum_bit_eq_take_bit take_bit_length_eq [where 'a = 8, simplified])

lemma upt_8: "[0..<8] = [0, 1, 2, 3, 4, 5, 6, 7::nat]"
  by (simp add: upt_rec)

lemma byte_of_bits_8 [simp]:
  "byte_of_bits [bit v 0, bit v (Suc 0), bit v 2, bit v 3, bit v 4, bit v 5, bit v 6, bit v 7] = v"
  using byte_of_bits_word [of v] by (simp add: upt_8)

lemma transferBegin_chip:
  assumes "ds1302_wired g dev chip" "chip_idle (chip w)"
  shows "chip (DS1302_transferBegin g dev w)
    = (chip w)\<lparr>ch_clk := False, ch_host := False, ch_host_out := True, ch_ce := True, ch_phase := Command []\<rparr>"
  using assms(2)
  by (simp add: DS1302_transferBegin_def Let_def wired_simps [OF assms(1)] level_simps chip_idle_def ds1302_fall_def)

lemma transferEnd_chip:
  assumes "ds1302_wired g dev chip"
  shows "chip (DS1302_transferEnd g dev w) = (chip w)\<lparr>ch_ce := False, ch_phase := Idle\<rparr>"
  by (simp add: DS1302_transferEnd_def wired_simps [OF assms(1)] level_simps)

lemma byte_of_bits_cmd:
  "bit v 0 \<Longrightarrow> byte_of_bits [True, bit v (Suc 0), bit v 2, bit v 3, bit v 4, bit v 5, bit v 6, bit v 7] = v"
  "\<not> bit v 0 \<Longrightarrow> byte_of_bits [False, bit v (Suc 0), bit v 2, bit v 3, bit v 4, bit v 5, bit v 6, bit v 7] = v"
  using byte_of_bits_8 [of v] by simp_all

lemma byte_of_bits_Suc:
  "byte_of_bits [bit v 0, bit v (Suc 0), bit v (Suc (Suc 0)), bit v (Suc (Suc (Suc 0))),
     bit v (Suc (Suc (Suc (Suc 0)))), bit v (Suc (Suc (Suc (Suc (Suc 0))))),
     bit v (Suc (Suc (Suc (Suc (Suc (Suc 0)))))), bit v (Suc (Suc (Suc (Suc (Suc (Suc (Suc 0))))))) ] = v"
  using byte_of_bits_8 [of v] by (simp add: numeral_eq_Suc)

lemma store_update:
  "ds1302_store cmd bs (c\<lparr>ch_phase := p\<rparr>) = (ds1302_store cmd bs c)\<lparr>ch_phase := p\<rparr>"
  "ds1302_store cmd bs (c\<lparr>ch_clk := k\<rparr>) = (ds1302_store cmd bs c)\<lparr>ch_clk := k\<rparr>"
  "ds1302_store cmd bs (c\<lparr>ch_host := h\<rparr>) = (ds1302_store cmd bs c)\<lparr>ch_host := h\<rparr>"
  "ds1302_store cmd bs (c\<lparr>ch_ce := k\<rparr>) = (ds1302_store cmd bs c)\<lparr>ch_ce := k\<rparr>"
  "ds1302_store cmd bs (c\<lparr>ch_host_out := h\<rparr>) = (ds1302_store cmd bs c)\<lparr>ch_host_out := h\<rparr>"
  "ds1302_store cmd bs (c\<lparr>ch_out := h\<rparr>) = (ds1302_store cmd bs c)\<lparr>ch_out := h\<rparr>"
  by (simp_all add: ds1302_store_def Let_def write_protected_def)

lemma store_frame [simp]:
  "ch_ce (ds1302_store cmd bs c) = ch_ce c" "ch_clk (ds1302_store cmd bs c) = ch_clk c"
  "ch_host_out (ds1302_store cmd bs c) = ch_host_out c" "ch_phase (ds1302_store cmd bs c) = ch_phase c"
  by (simp_all add: ds1302_store_def Let_def)

lemma fetch_update [simp]:
  "ds1302_fetch cmd j (c\<lparr>ch_phase := p\<rparr>) = ds1302_fetch cmd j c"
  "ds1302_fetch cmd j (c\<lparr>ch_clk := k\<rparr>) = ds1302_fetch cmd j c"
  "ds1302_fetch cmd j (c\<lparr>ch_out := h\<rparr>) = ds1302_fetch cmd j c"
  by (auto simp: ds1302_fetch_def Let_def)

lemma writeAddrCmd_chip:
  assumes "ds1302_wired g dev chip" "ch_phase (chip w) = Command []" "\<not> ch_clk (chip w)" "ch_host_out (chip w)"
  shows "chip (DS1302_writeAddrCmd g dev v w) = (chip w)\<lparr>ch_host := bit v 7,
     ch_clk := bit v 0, ch_host_out := \<not> bit v 0,
     ch_phase := if bit v 0 then Reading v 0 else Writing v [] []\<rparr>"
  using assms(2-)
  by (cases "bit v 0")
    (simp_all add: DS1302_writeAddrCmd_def addr_cmd_bit_def upt_8 Let_def wired_simps [OF assms(1)] level_simps
      ds1302_rise_def ds1302_fall_def byte_of_bits_cmd)

lemma writeByte_chip:
  assumes "ds1302_wired g dev chip" "ch_phase (chip w) = Writing cmd bytes []" "\<not> ch_clk (chip w)"
  shows "chip (DS1302_writeByte g dev v w) = (ds1302_store cmd (bytes @ [v]) (chip w))
    \<lparr>ch_host := bit v 7, ch_clk := False, ch_phase := Writing cmd (bytes @ [v]) []\<rparr>"
  using assms(2-)
  by (simp add: DS1302_writeByte_def write_bit_def upt_8 Let_def wired_simps [OF assms(1)] level_simps
      ds1302_rise_def ds1302_fall_def bit_simps byte_of_bits_Suc store_update)
    (simp add: numeral_eq_Suc)

text \<open>Shifting the eight bits in from the top rebuilds the byte.\<close>

definition shift_in :: "bool \<Rightarrow> u8 \<Rightarrow> u8" where
  "shift_in b value = (if b then drop_bit 1 value OR 0x80 else drop_bit 1 value AND NOT 0x80)"

lemma bit_0x80: "bit (0x80 :: u8) i \<longleftrightarrow> i = 7"
proof -
  have "bit (push_bit 7 1 :: u8) i \<longleftrightarrow> i = 7" by (simp only: bit_simps) auto
  then show ?thesis by (simp add: push_bit_eq_mult)
qed

lemma bit_shift_in: "bit (shift_in b v) i \<longleftrightarrow> (if i = 7 then b else bit v (Suc i))"
  using bit_imp_le_length [of v "Suc i"]
  by (cases b; simp only: shift_in_def if_True if_False bit_or_iff bit_and_iff bit_not_iff bit_drop_bit_eq bit_0x80)
    (auto simp: possible_bit_word)

lemma shift_in_8:
  "shift_in (bit v 7) (shift_in (bit v 6) (shift_in (bit v 5) (shift_in (bit v 4)
     (shift_in (bit v 3) (shift_in (bit v 2) (shift_in (bit v (Suc 0)) (shift_in (bit v 0) 0))))))) = v"
proof (rule bit_word_eqI)
  fix i :: nat
  assume "i < LENGTH(8)"
  then have "i \<in> {0, 1, 2, 3, 4, 5, 6, 7}" by auto
  then show "bit (shift_in (bit v 7) (shift_in (bit v 6) (shift_in (bit v 5) (shift_in (bit v 4)
     (shift_in (bit v 3) (shift_in (bit v 2) (shift_in (bit v (Suc 0)) (shift_in (bit v 0) 0)))))))) i = bit v i"
    by (elim insertE emptyE) (simp_all add: bit_shift_in numeral_eq_Suc)
qed

lemma read_bit_chip:
  assumes "ds1302_wired g dev chip" "ch_phase (chip w) = Reading cmd k" "\<not> ch_host_out (chip w)"
  obtains w' where "read_bit g dev i (v, w) = (shift_in (bit (ds1302_fetch cmd (k div 8) (chip w)) (k mod 8)) v, w')"
    and "chip w' = (chip w)\<lparr>ch_out := bit (ds1302_fetch cmd (k div 8) (chip w)) (k mod 8), ch_clk := False,
      ch_phase := Reading cmd (Suc k)\<rparr>"
proof -
  let ?w = "gpio_task_delay g 1 (gpio_set_level g (clkPin dev) False (gpio_set_level g (clkPin dev) True w))"
  have c: "chip ?w = (chip w)\<lparr>ch_out := bit (ds1302_fetch cmd (k div 8) (chip w)) (k mod 8), ch_clk := False,
      ch_phase := Reading cmd (Suc k)\<rparr>"
    using assms(2-) by (simp add: wired_simps [OF assms(1)] level_simps ds1302_rise_def ds1302_fall_def)
  then have "read_bit g dev i (v, w) = (shift_in (bit (ds1302_fetch cmd (k div 8) (chip w)) (k mod 8)) v, ?w)"
    using assms(3) by (simp add: read_bit_def Let_def wired_simps(3) [OF assms(1)] shift_in_def)
  with c show ?thesis using that by blast
qed

lemma read_bits_chip:
  assumes "ds1302_wired g dev chip" "ch_phase (chip w) = Reading cmd (8 * j)" "\<not> ch_host_out (chip w)" "n \<le> 8"
  shows "\<exists>w' h k. fold (read_bit g dev) [0..<n] (v, w)
       = (fold (\<lambda>i. shift_in (bit (ds1302_fetch cmd j (chip w)) i)) [0..<n] v, w')
    \<and> chip w' = (chip w)\<lparr>ch_out := h, ch_clk := k, ch_phase := Reading cmd (8 * j + n)\<rparr>
    \<and> (k \<longrightarrow> n = 0)"
  using assms(4)
proof (induction n)
  case 0
  have "chip w = (chip w)\<lparr>ch_out := ch_out (chip w), ch_clk := ch_clk (chip w), ch_phase := Reading cmd (8 * j + 0)\<rparr>"
    using assms(2) by (cases "chip w") simp
  then show ?case
    by (metis fold_Nil id_apply upt_0)
next
  case (Suc n)
  then obtain w' h k where w': "fold (read_bit g dev) [0..<n] (v, w)
       = (fold (\<lambda>i. shift_in (bit (ds1302_fetch cmd j (chip w)) i)) [0..<n] v, w')"
      "chip w' = (chip w)\<lparr>ch_out := h, ch_clk := k, ch_phase := Reading cmd (8 * j + n)\<rparr>"
    by auto
  have "(8 * j + n) div 8 = j" "(8 * j + n) mod 8 = n" using Suc.prems by auto
  then obtain w'' where "read_bit g dev n (fold (\<lambda>i. shift_in (bit (ds1302_fetch cmd j (chip w)) i)) [0..<n] v, w')
      = (shift_in (bit (ds1302_fetch cmd j (chip w)) n)
           (fold (\<lambda>i. shift_in (bit (ds1302_fetch cmd j (chip w)) i)) [0..<n] v), w'')"
      "\<exists>h. chip w'' = (chip w)\<lparr>ch_out := h, ch_clk := False, ch_phase := Reading cmd (8 * j + Suc n)\<rparr>"
    using assms(3) w'(2)
    by - (rule read_bit_chip [OF assms(1), of w' cmd "8 * j + n" n], auto)
  then show ?case by (auto simp: w'(1))
qed

lemma readByte_chip:
  assumes "ds1302_wired g dev chip" "ch_phase (chip w) = Reading cmd (8 * j)" "\<not> ch_host_out (chip w)"
  obtains w' h where "DS1302_readByte g dev w = (ds1302_fetch cmd j (chip w), w')"
    and "chip w' = (chip w)\<lparr>ch_out := h, ch_clk := False, ch_phase := Reading cmd (8 * Suc j)\<rparr>"
proof -
  let ?r = "ds1302_fetch cmd j (chip w)"
  have "fold (\<lambda>i. shift_in (bit ?r i)) [0..<8] 0 = ?r"
    using shift_in_8 [of ?r] by (simp add: upt_8)
  with read_bits_chip [OF assms, of 8 0] that show ?thesis
    by (fastforce simp: DS1302_readByte_def add.commute)
qed

lemma readBuffer_chip:
  assumes "ds1302_wired g dev chip" "ch_phase (chip w) = Reading cmd (8 * j)" "\<not> ch_host_out (chip w)"
  shows "\<exists>w' h k p. DS1302_readBuffer g dev n w = (map (\<lambda>i. ds1302_fetch cmd i (chip w)) [j..<j + n], w')
    \<and> chip w' = (chip w)\<lparr>ch_out := h, ch_clk := k, ch_phase := p\<rparr>"
  using assms(2,3)
proof (induction n arbitrary: j w)
  case 0
  have "chip w = (chip w)\<lparr>ch_out := ch_out (chip w), ch_clk := ch_clk (chip w), ch_phase := ch_phase (chip w)\<rparr>"
    by simp
  then show ?case by (metis DS1302_readBuffer.simps(1) add_0_right list.map(1) upt_conv_Nil order_refl)
next
  case (Suc n)
  obtain w1 h where w1: "DS1302_readByte g dev w = (ds1302_fetch cmd j (chip w), w1)"
    "chip w1 = (chip w)\<lparr>ch_out := h, ch_clk := False, ch_phase := Reading cmd (8 * Suc j)\<rparr>"
    by (rule readByte_chip [OF assms(1) Suc.prems])
  then have "\<exists>w' h k p. DS1302_readBuffer g dev n w1 = (map (\<lambda>i. ds1302_fetch cmd i (chip w1)) [Suc j..<Suc j + n], w')
    \<and> chip w' = (chip w1)\<lparr>ch_out := h, ch_clk := k, ch_phase := p\<rparr>"
    using Suc.prems by (intro Suc.IH) simp_all
  then obtain w' h' k p where w': "DS1302_readBuffer g dev n w1
        = (map (\<lambda>i. ds1302_fetch cmd i (chip w)) [Suc j..<Suc j + n], w')"
      "chip w' = (chip w)\<lparr>ch_out := h', ch_clk := k, ch_phase := p\<rparr>"
    by (auto simp: w1(2))
  then have "DS1302_readBuffer g dev (Suc n) w = (map (\<lambda>i. ds1302_fetch cmd i (chip w)) [j..<j + Suc n], w')"
    by (simp add: w1 upt_conv_Cons del: upt_Suc)
  with w'(2) show ?case by blast
qed

fun store_all :: "u8 \<Rightarrow> u8 list \<Rightarrow> u8 list \<Rightarrow> ds1302_chip \<Rightarrow> ds1302_chip" where
  "store_all cmd pre [] c = c"
| "store_all cmd pre (b # bs) c = store_all cmd (pre @ [b]) bs (ds1302_store cmd (pre @ [b]) c)"

lemma store_all_update:
  "store_all cmd pre bs (c\<lparr>ch_host := h, ch_clk := k, ch_phase := p\<rparr>)
     = (store_all cmd pre bs c)\<lparr>ch_host := h, ch_clk := k, ch_phase := p\<rparr>"
  by (induction bs arbitrary: pre c) (simp_all add: store_update)

lemma writeBytes_chip:
  assumes "ds1302_wired g dev chip" "ch_phase (chip w) = Writing cmd pre []" "\<not> ch_clk (chip w)"
  shows "\<exists>h k. chip (fold (DS1302_writeByte g dev) bytes w)
    = (store_all cmd pre bytes (chip w))\<lparr>ch_host := h, ch_clk := k, ch_phase := Writing cmd (pre @ bytes) []\<rparr>"
  using assms(2,3)
proof (induction bytes arbitrary: pre w)
  case Nil
  then have "chip w = (chip w)\<lparr>ch_host := ch_host (chip w), ch_clk := ch_clk (chip w), ch_phase := Writing cmd (pre @ []) []\<rparr>"
    by (cases "chip w") simp
  then show ?case by (metis fold_Nil id_apply store_all.simps(1))
next
  case (Cons b bs)
  note c = writeByte_chip [OF assms(1) Cons.prems, of b]
  have "\<exists>h k. chip (fold (DS1302_writeByte g dev) bs (DS1302_writeByte g dev b w))
    = (store_all cmd (pre @ [b]) bs (chip (DS1302_writeByte g dev b w)))
      \<lparr>ch_host := h, ch_clk := k, ch_phase := Writing cmd ((pre @ [b]) @ bs) []\<rparr>"
    by (rule Cons.IH) (simp_all add: c)
  then show ?case by (auto simp: c store_all_update)
qed

text \<open>Registers and RAM, the part of the chip a finished transfer leaves.\<close>

definition chip_regs :: "ds1302_chip \<Rightarrow> u8 list \<times> u8 list" where
  "chip_regs c = (ch_clock c, ch_ram c)"

lemma fetch_regs: "chip_regs c = chip_regs c' \<Longrightarrow> ds1302_fetch cmd j c = ds1302_fetch cmd j c'"
  by (simp add: ds1302_fetch_def chip_regs_def)

lemma chip_regs_update [simp]:
  "chip_regs (c\<lparr>ch_phase := p\<rparr>) = chip_regs c" "chip_regs (c\<lparr>ch_clk := k\<rparr>) = chip_regs c"
  "chip_regs (c\<lparr>ch_host := h\<rparr>) = chip_regs c" "chip_regs (c\<lparr>ch_ce := k\<rparr>) = chip_regs c"
  "chip_regs (c\<lparr>ch_host_out := h\<rparr>) = chip_regs c" "chip_regs (c\<lparr>ch_out := h\<rparr>) = chip_regs c"
  by (simp_all add: chip_regs_def)

lemma store_regs:
  assumes "chip_regs c = chip_regs c'"
  shows "chip_regs (ds1302_store cmd bs c) = chip_regs (ds1302_store cmd bs c')"
proof -
  have "c' = c\<lparr>ch_ce := ch_ce c', ch_clk := ch_clk c', ch_host := ch_host c', ch_host_out := ch_host_out c',
      ch_out := ch_out c', ch_phase := ch_phase c'\<rparr>"
    using assms by (cases c; cases c') (simp add: chip_regs_def)
  moreover have "chip_regs (ds1302_store cmd bs (c\<lparr>ch_ce := k1, ch_clk := k2, ch_host := k3, ch_host_out := k4,
      ch_out := k5, ch_phase := p\<rparr>)) = chip_regs (ds1302_store cmd bs c)" for k1 k2 k3 k4 k5 p
    by (simp add: store_update)
  ultimately show ?thesis by metis
qed

lemma store_all_regs:
  "chip_regs c = chip_regs c' \<Longrightarrow> chip_regs (store_all cmd pre bs c) = chip_regs (store_all cmd pre bs c')"
proof (induction bs arbitrary: pre c c')
  case (Cons b bs)
  show ?case
    unfolding store_all.simps by (rule Cons.IH) (rule store_regs [OF Cons.prems])
qed (simp only: store_all.simps)

lemma store_wf [simp]: "chip_wf c \<Longrightarrow> chip_wf (ds1302_store cmd bs c)"
  by (auto simp: ds1302_store_def chip_wf_def Let_def)

lemma store_all_wf [simp]: "chip_wf c \<Longrightarrow> chip_wf (store_all cmd pre bs c)"
  by (induction bs arbitrary: pre c) auto

lemma chip_wf_regs: "chip_regs c = chip_regs c' \<Longrightarrow> chip_wf c = chip_wf c'"
  by (simp add: chip_regs_def chip_wf_def)

text \<open>A whole transfer.\<close>

lemma write_transfer:
  assumes "ds1302_wired g dev chip" "chip_idle (chip w)" "\<not> bit cmd 0"
    and "w' = DS1302_transferEnd g dev (fold (DS1302_writeByte g dev) bytes
                (DS1302_writeAddrCmd g dev cmd (DS1302_transferBegin g dev w)))"
  shows "chip_idle (chip w')" "chip_regs (chip w') = chip_regs (store_all cmd [] bytes (chip w))"
proof -
  let ?w1 = "DS1302_transferBegin g dev w"
  let ?w2 = "DS1302_writeAddrCmd g dev cmd ?w1"
  note c1 = transferBegin_chip [OF assms(1,2)]
  have c2: "chip ?w2 = (chip ?w1)\<lparr>ch_host := bit cmd 7, ch_clk := False, ch_host_out := True, ch_phase := Writing cmd [] []\<rparr>"
    using assms(3) writeAddrCmd_chip [OF assms(1), of ?w1 cmd] by (simp add: c1)
  have r2: "chip_regs (chip ?w2) = chip_regs (chip w)" by (simp add: c1 c2 chip_regs_def)
  obtain h k where c3: "chip (fold (DS1302_writeByte g dev) bytes ?w2)
      = (store_all cmd [] bytes (chip ?w2))\<lparr>ch_host := h, ch_clk := k, ch_phase := Writing cmd bytes []\<rparr>"
    using writeBytes_chip [OF assms(1), of ?w2 cmd "[]" bytes] by (auto simp: c2)
  then have "chip_regs (chip w') = chip_regs (store_all cmd [] bytes (chip ?w2))"
    by (simp add: assms(4) transferEnd_chip [OF assms(1)] chip_regs_def)
  with store_all_regs [OF r2] show r: "chip_regs (chip w') = chip_regs (store_all cmd [] bytes (chip w))" by simp
  have "\<not> ch_ce (chip w') \<and> ch_phase (chip w') = Idle"
    by (simp add: assms(4) transferEnd_chip [OF assms(1)])
  with chip_wf_regs [OF r] assms(2) show "chip_idle (chip w')" by (simp add: chip_idle_def)
qed

lemma read_transfer:
  assumes "ds1302_wired g dev chip" "chip_idle (chip w)" "bit cmd 0"
  shows "\<exists>w'. DS1302_readBuffer g dev n (DS1302_writeAddrCmd g dev cmd (DS1302_transferBegin g dev w))
      = (map (\<lambda>i. ds1302_fetch cmd i (chip w)) [0..<n], w')
    \<and> chip_idle (chip (DS1302_transferEnd g dev w'))
    \<and> chip_regs (chip (DS1302_transferEnd g dev w')) = chip_regs (chip w)"
proof -
  let ?w1 = "DS1302_transferBegin g dev w"
  let ?w2 = "DS1302_writeAddrCmd g dev cmd ?w1"
  note c1 = transferBegin_chip [OF assms(1,2)]
  have c2: "chip ?w2 = (chip ?w1)\<lparr>ch_host := bit cmd 7, ch_clk := True, ch_host_out := False, ch_phase := Reading cmd 0\<rparr>"
    using assms(3) writeAddrCmd_chip [OF assms(1), of ?w1 cmd] by (simp add: c1)
  have r2: "chip_regs (chip ?w2) = chip_regs (chip w)" by (simp add: c1 c2 chip_regs_def)
  obtain w' h k p where w': "DS1302_readBuffer g dev n ?w2 = (map (\<lambda>i. ds1302_fetch cmd i (chip ?w2)) [0..<0 + n], w')"
      "chip w' = (chip ?w2)\<lparr>ch_out := h, ch_clk := k, ch_phase := p\<rparr>"
    using readBuffer_chip [OF assms(1), of ?w2 cmd 0 n] by (auto simp: c2)
  have r: "chip_regs (chip (DS1302_transferEnd g dev w')) = chip_regs (chip w)"
    using r2 by (simp add: transferEnd_chip [OF assms(1)] w'(2) chip_regs_def)
  have "\<not> ch_ce (chip (DS1302_transferEnd g dev w')) \<and> ch_phase (chip (DS1302_transferEnd g dev w')) = Idle"
    by (simp add: transferEnd_chip [OF assms(1)])
  with r assms(2) chip_wf_regs [OF r] w'(1) show ?thesis
    by (auto simp: chip_idle_def fetch_regs [OF r2])
qed

section \<open>The registers\<close>

lemma take_bit_5: "drop_bit 1 (push_bit 1 (r AND 0x1F)) = (take_bit 5 r :: u8)"
proof -
  have "(0x1F :: u8) = mask 5" by (simp add: mask_eq_exp_minus_1)
  then have "r AND 0x1F = take_bit 5 r" by (simp only: take_bit_eq_mask)
  then have "drop_bit 1 (push_bit 1 (r AND 0x1F)) = drop_bit 1 (push_bit 1 (take_bit 5 r))" by simp
  also have "\<dots> = take_bit 5 r"
    by (rule bit_word_eqI; simp only: bit_drop_bit_eq bit_push_bit_iff bit_take_bit_iff o_def)
      (auto simp: possible_bit_word dest: bit_imp_le_length)
  finally show ?thesis .
qed

lemma cmd_addr_or:
  assumes "take_bit 5 (drop_bit 1 b) = (0 :: u8)" "take_bit 5 (drop_bit 1 d) = (0 :: u8)"
  shows "cmd_addr (b OR push_bit 1 (r AND 0x1F) OR d) = unat (take_bit 5 r)"
proof -
  have "drop_bit 1 (b OR push_bit 1 (r AND 0x1F) OR d) = drop_bit 1 b OR drop_bit 1 (push_bit 1 (r AND 0x1F)) OR drop_bit 1 d"
    by (simp only: drop_bit_or)
  then show ?thesis
    by (simp only: cmd_addr_def take_bit_or assms take_bit_5) simp
qed

lemma command_bits [simp]:
  "bit (DS1302_CMD_READ_CLOCK_REG r) 0" "\<not> bit (DS1302_CMD_WRITE_CLOCK_REG r) 0"
  "bit (DS1302_CMD_READ_CLOCK_REG r) 7" "bit (DS1302_CMD_WRITE_CLOCK_REG r) 7"
  "\<not> bit (DS1302_CMD_READ_CLOCK_REG r) 6" "\<not> bit (DS1302_CMD_WRITE_CLOCK_REG r) 6"
  "bit (DS1302_CMD_READ_RAM r) 0" "\<not> bit (DS1302_CMD_WRITE_RAM r) 0"
  "bit (DS1302_CMD_READ_RAM r) 7" "bit (DS1302_CMD_WRITE_RAM r) 7"
  "bit (DS1302_CMD_READ_RAM r) 6" "bit (DS1302_CMD_WRITE_RAM r) 6"
  by (simp_all add: DS1302_CMD_READ_CLOCK_REG_def DS1302_CMD_WRITE_CLOCK_REG_def
      DS1302_CMD_READ_RAM_def DS1302_CMD_WRITE_RAM_def bit_or_iff bit_push_bit_iff bit_and_iff)

lemma command_addr [simp]:
  "cmd_addr (DS1302_CMD_READ_CLOCK_REG r) = unat (take_bit 5 r)"
  "cmd_addr (DS1302_CMD_WRITE_CLOCK_REG r) = unat (take_bit 5 r)"
  "cmd_addr (DS1302_CMD_READ_RAM r) = unat (take_bit 5 r)"
  "cmd_addr (DS1302_CMD_WRITE_RAM r) = unat (take_bit 5 r)"
proof -
  have "128 OR (64 OR x) = (192 OR x :: u8)" for x
    by (simp flip: or.assoc)
  then show "cmd_addr (DS1302_CMD_READ_CLOCK_REG r) = unat (take_bit 5 r)"
    "cmd_addr (DS1302_CMD_WRITE_CLOCK_REG r) = unat (take_bit 5 r)"
    "cmd_addr (DS1302_CMD_READ_RAM r) = unat (take_bit 5 r)"
    "cmd_addr (DS1302_CMD_WRITE_RAM r) = unat (take_bit 5 r)"
    using cmd_addr_or [where b = "0x80" and d = 1] cmd_addr_or [where b = "0x80" and d = 0]
      cmd_addr_or [where b = "0xC0" and d = 1] cmd_addr_or [where b = "0xC0" and d = 0]
    by (simp_all add: DS1302_CMD_READ_CLOCK_REG_def DS1302_CMD_WRITE_CLOCK_REG_def
        DS1302_CMD_READ_RAM_def DS1302_CMD_WRITE_RAM_def)
qed

lemma burst_commands [simp]:
  "bit DS1302_CMD_READ_CLOCK_BURST 0" "bit DS1302_CMD_READ_CLOCK_BURST 7" "\<not> bit DS1302_CMD_READ_CLOCK_BURST 6"
  "\<not> bit DS1302_CMD_WRITE_CLOCK_BURST 0" "bit DS1302_CMD_WRITE_CLOCK_BURST 7" "\<not> bit DS1302_CMD_WRITE_CLOCK_BURST 6"
  "bit DS1302_CMD_READ_RAM_BURST 0" "bit DS1302_CMD_READ_RAM_BURST 7" "bit DS1302_CMD_READ_RAM_BURST 6"
  "\<not> bit DS1302_CMD_WRITE_RAM_BURST 0" "bit DS1302_CMD_WRITE_RAM_BURST 7" "bit DS1302_CMD_WRITE_RAM_BURST 6"
  "cmd_addr DS1302_CMD_READ_CLOCK_BURST = 31" "cmd_addr DS1302_CMD_WRITE_CLOCK_BURST = 31"
  "cmd_addr DS1302_CMD_READ_RAM_BURST = 31" "cmd_addr DS1302_CMD_WRITE_RAM_BURST = 31"
  by (simp_all add: DS1302_CMD_READ_CLOCK_BURST_def DS1302_CMD_WRITE_CLOCK_BURST_def
      DS1302_CMD_READ_RAM_BURST_def DS1302_CMD_WRITE_RAM_BURST_def cmd_addr_def)

lemma unat_take_bit_5: "unat r < 31 \<Longrightarrow> unat (take_bit 5 (r :: u8)) = unat r"
  by (simp add: unsigned_take_bit_eq take_bit_nat_eq_self)

definition clock_reg :: "('w \<Rightarrow> ds1302_chip) \<Rightarrow> 'w \<Rightarrow> u8 \<Rightarrow> u8" where
  "clock_reg chip w r = ch_clock (chip w) ! unat r"

definition ram_reg :: "('w \<Rightarrow> ds1302_chip) \<Rightarrow> 'w \<Rightarrow> u8 \<Rightarrow> u8" where
  "ram_reg chip w r = ch_ram (chip w) ! unat r"

definition ds1302_ready :: "'w gpio \<Rightarrow> DS1302_Dev \<Rightarrow> ('w \<Rightarrow> ds1302_chip) \<Rightarrow> 'w \<Rightarrow> bool" where
  "ds1302_ready g dev chip w \<longleftrightarrow> ds1302_wired g dev chip \<and> chip_idle (chip w)"

lemma read_one:
  assumes "ds1302_ready g dev chip w" "bit cmd 0"
  shows "\<exists>w'. DS1302_readByte g dev (DS1302_writeAddrCmd g dev cmd (DS1302_transferBegin g dev w))
      = (ds1302_fetch cmd 0 (chip w), w')
    \<and> ds1302_ready g dev chip (DS1302_transferEnd g dev w')
    \<and> chip_regs (chip (DS1302_transferEnd g dev w')) = chip_regs (chip w)"
  using read_transfer [of g dev chip w cmd "Suc 0"] assms
  by (auto simp: ds1302_ready_def split: prod.splits)

lemma readClockRegister_ready:
  assumes "ds1302_ready g dev chip w" "unat r < 9"
  shows "\<exists>w'. DS1302_readClockRegister g dev r w = (clock_reg chip w r, w')
    \<and> ds1302_ready g dev chip w' \<and> chip_regs (chip w') = chip_regs (chip w)"
proof -
  have "ds1302_fetch (DS1302_CMD_READ_CLOCK_REG r) 0 (chip w) = clock_reg chip w r"
    using assms by (simp add: ds1302_fetch_def unat_take_bit_5 clock_reg_def ds1302_ready_def chip_idle_def chip_wf_def)
  with read_one [OF assms(1) command_bits(1), of r] show ?thesis
    by (auto simp: DS1302_readClockRegister_def Let_def)
qed

lemma readByteRAM_ready:
  assumes "ds1302_ready g dev chip w" "unat r < 31"
  shows "\<exists>w'. DS1302_readByteRAM g dev r w = (ram_reg chip w r, w')
    \<and> ds1302_ready g dev chip w' \<and> chip_regs (chip w') = chip_regs (chip w)"
proof -
  have "ds1302_fetch (DS1302_CMD_READ_RAM r) 0 (chip w) = ram_reg chip w r"
    using assms by (simp add: ds1302_fetch_def unat_take_bit_5 ram_reg_def ds1302_ready_def chip_idle_def chip_wf_def)
  with read_one [OF assms(1) command_bits(7), of r] show ?thesis
    by (auto simp: DS1302_readByteRAM_def Let_def)
qed

lemma writeClockRegister_ready:
  assumes "ds1302_ready g dev chip w" "unat r < 9"
  shows "ds1302_ready g dev chip (DS1302_writeClockRegister g dev r v w)"
    and "chip_regs (chip (DS1302_writeClockRegister g dev r v w)) =
      (if unat r = 7 \<or> \<not> write_protected (chip w)
       then ((ch_clock (chip w))[unat r := v AND clock_mask (unat r)], ch_ram (chip w)) else chip_regs (chip w))"
proof -
  let ?w = "DS1302_writeClockRegister g dev r v w"
  have w: "?w = DS1302_transferEnd g dev (fold (DS1302_writeByte g dev) [v]
      (DS1302_writeAddrCmd g dev (DS1302_CMD_WRITE_CLOCK_REG r) (DS1302_transferBegin g dev w)))"
    by (simp add: DS1302_writeClockRegister_def Let_def)
  note t = write_transfer [OF _ _ command_bits(2) w, of chip]
  show "ds1302_ready g dev chip ?w" using t(1) assms(1) by (simp add: ds1302_ready_def)
  show "chip_regs (chip ?w) = (if unat r = 7 \<or> \<not> write_protected (chip w)
       then ((ch_clock (chip w))[unat r := v AND clock_mask (unat r)], ch_ram (chip w)) else chip_regs (chip w))"
    using t(2) assms by (simp add: ds1302_ready_def ds1302_store_def unat_take_bit_5 chip_regs_def Let_def)
qed

lemma writeByteRAM_ready:
  assumes "ds1302_ready g dev chip w" "unat r < 31"
  shows "ds1302_ready g dev chip (DS1302_writeByteRAM g dev r v w)"
    and "chip_regs (chip (DS1302_writeByteRAM g dev r v w)) =
      (if write_protected (chip w) then chip_regs (chip w) else (ch_clock (chip w), (ch_ram (chip w))[unat r := v]))"
proof -
  let ?w = "DS1302_writeByteRAM g dev r v w"
  have w: "?w = DS1302_transferEnd g dev (fold (DS1302_writeByte g dev) [v]
      (DS1302_writeAddrCmd g dev (DS1302_CMD_WRITE_RAM r) (DS1302_transferBegin g dev w)))"
    by (simp add: DS1302_writeByteRAM_def Let_def)
  note t = write_transfer [OF _ _ command_bits(8) w, of chip]
  show "ds1302_ready g dev chip ?w" using t(1) assms(1) by (simp add: ds1302_ready_def)
  show "chip_regs (chip ?w) = (if write_protected (chip w) then chip_regs (chip w)
      else (ch_clock (chip w), (ch_ram (chip w))[unat r := v]))"
    using t(2) assms by (simp add: ds1302_ready_def ds1302_store_def unat_take_bit_5 chip_regs_def Let_def)
qed

lemma ready_length: "ds1302_ready g dev chip w \<Longrightarrow> length (ch_clock (chip w)) = 9 \<and> length (ch_ram (chip w)) = 31"
  by (simp add: ds1302_ready_def chip_idle_def chip_wf_def)

interpretation clock_regs: register_file "DS1302_writeClockRegister g dev" "DS1302_readClockRegister g dev"
    "clock_reg chip" "ds1302_ready g dev chip"
    "\<lambda>w r v. (unat r = 7 \<or> \<not> write_protected (chip w)) \<and> v AND clock_mask (unat r) = v" "\<lambda>r. unat r < 9"
  for g :: "'w gpio" and dev :: DS1302_Dev and chip :: "'w \<Rightarrow> ds1302_chip"
proof
  fix w :: 'w and r v :: u8
  assume w: "ds1302_ready g dev chip w" and r: "unat r < 9"
  from readClockRegister_ready [OF w r]
  show "fst (DS1302_readClockRegister g dev r w) = clock_reg chip w r"
    and "ds1302_ready g dev chip (snd (DS1302_readClockRegister g dev r w))
      \<and> clock_reg chip (snd (DS1302_readClockRegister g dev r w)) = clock_reg chip w"
    by (auto simp: chip_regs_def clock_reg_def fun_eq_iff)
  from writeClockRegister_ready [OF w r] show "ds1302_ready g dev chip (DS1302_writeClockRegister g dev r v w)" by blast
  assume "(unat r = 7 \<or> \<not> write_protected (chip w)) \<and> v AND clock_mask (unat r) = v"
  with writeClockRegister_ready(2) [OF w r, of v] ready_length [OF w] r
  show "clock_reg chip (DS1302_writeClockRegister g dev r v w) = (clock_reg chip w)(r := v)"
    by (auto simp: clock_reg_def chip_regs_def fun_eq_iff nth_list_update dest: unsigned_word_eqI)
qed

interpretation ram_regs: register_file "DS1302_writeByteRAM g dev" "DS1302_readByteRAM g dev"
    "ram_reg chip" "ds1302_ready g dev chip" "\<lambda>w r v. \<not> write_protected (chip w)" "\<lambda>r. unat r < 31"
  for g :: "'w gpio" and dev :: DS1302_Dev and chip :: "'w \<Rightarrow> ds1302_chip"
proof
  fix w :: 'w and r v :: u8
  assume w: "ds1302_ready g dev chip w" and r: "unat r < 31"
  from readByteRAM_ready [OF w r]
  show "fst (DS1302_readByteRAM g dev r w) = ram_reg chip w r"
    and "ds1302_ready g dev chip (snd (DS1302_readByteRAM g dev r w))
      \<and> ram_reg chip (snd (DS1302_readByteRAM g dev r w)) = ram_reg chip w"
    by (auto simp: chip_regs_def ram_reg_def fun_eq_iff)
  from writeByteRAM_ready [OF w r] show "ds1302_ready g dev chip (DS1302_writeByteRAM g dev r v w)" by blast
  assume "\<not> write_protected (chip w)"
  with writeByteRAM_ready(2) [OF w r, of v] ready_length [OF w] r
  show "ram_reg chip (DS1302_writeByteRAM g dev r v w) = (ram_reg chip w)(r := v)"
    by (auto simp: ram_reg_def chip_regs_def fun_eq_iff nth_list_update dest: unsigned_word_eqI)
qed

section \<open>Binary coded decimals\<close>

lemma unat_decToBcd:
  assumes "unat d < 100"
  shows "unat (decToBcd d) = 16 * (unat d div 10) + unat d mod 10"
proof -
  have "unat (d div 10) = unat d div 10" "unat (d mod 10) = unat d mod 10"
    by (simp_all add: unat_div unat_mod)
  moreover have "unat (push_bit 4 (d div 10)) = 16 * (unat d div 10)"
    using assms by (simp add: push_bit_eq_mult unat_word_ariths unat_div)
  ultimately show ?thesis
    using assms by (simp add: decToBcd_def unat_word_ariths unat_div unat_mod)
qed

lemma unat_bcdToDec: "unat (bcdToDec b) = unat b div 16 * 10 + unat b mod 16"
proof -
  have "(0x0F :: u8) = mask 4" by (simp add: mask_eq_exp_minus_1)
  then have "b AND 0x0F = take_bit 4 b" by (simp only: take_bit_eq_mask)
  then have "unat (b AND 0x0F) = unat b mod 16" by (simp add: unsigned_take_bit_eq take_bit_eq_mod unat_mod)
  moreover have "unat (drop_bit 4 b) = unat b div 16" by (simp add: unsigned_drop_bit_eq drop_bit_eq_div unat_div)
  moreover have "unat b < 256" using unsigned_less [of b, where ?'a = nat] by simp
  ultimately show ?thesis by (simp add: bcdToDec_def unat_word_ariths)
qed

lemma bcd_round_trip: "unat d < 100 \<Longrightarrow> bcdToDec (decToBcd d) = d"
  by (rule word_unat_eq_iff [THEN iffD2]) (simp add: unat_bcdToDec unat_decToBcd)

lemma and_mask_id:
  assumes "unat (v :: u8) < 2 ^ k" "k \<le> 8" "mask k AND m = (mask k :: u8)"
  shows "v AND m = v"
proof -
  have "take_bit k v = v"
    using assms(1) by (intro word_unat_eq_iff [THEN iffD2]) (simp add: unsigned_take_bit_eq take_bit_nat_eq_self)
  then have "v = v AND mask k" by (simp add: take_bit_eq_mask)
  with assms(3) show ?thesis by (metis and.assoc)
qed

lemma decToBcd_and:
  assumes "unat d < 100" "16 * (unat d div 10) + unat d mod 10 < 2 ^ k" "k \<le> 8" "mask k AND m = (mask k :: u8)"
  shows "decToBcd d AND m = decToBcd d"
  by (rule and_mask_id [OF _ assms(3,4)]) (use assms(1,2) in \<open>simp only: unat_decToBcd\<close>)

section \<open>Setting and getting the date\<close>

definition DateTime_bytes :: "u8 \<Rightarrow> DS1302_DateTime \<Rightarrow> u8 list" where
  "DateTime_bytes ch d =
     [ch OR decToBcd (dt_second d AND 0x7F), decToBcd (dt_minute d), decToBcd (dt_hour d AND 0x3F),
      decToBcd (dt_dayMonth d AND 0x3F), decToBcd (dt_month d AND 0x1F), decToBcd (dt_dayWeek d AND 0x07),
      decToBcd (word_of_int (uint (dt_year d) - 2000) AND 0xFF), 0]"

lemma getDateTime_ready:
  assumes "ds1302_ready g dev chip w"
  shows "\<exists>w'. DS1302_getDateTime g dev w =
      (let d = DateTime_of_buf (take 7 (ch_clock (chip w)))
       in if DateTime_invalid d then (False, zero_DateTime) else (True, d), w')
    \<and> ds1302_ready g dev chip w' \<and> chip_regs (chip w') = chip_regs (chip w)"
proof -
  have "map (\<lambda>i. ds1302_fetch DS1302_CMD_READ_CLOCK_BURST i (chip w)) [0..<7] = take 7 (ch_clock (chip w))"
    using ready_length [OF assms] by (intro nth_equalityI) (simp_all add: ds1302_fetch_def)
  then show ?thesis
    using read_transfer [of g dev chip w DS1302_CMD_READ_CLOCK_BURST 7] assms
    by (auto simp: DS1302_getDateTime_def Let_def ds1302_ready_def)
qed

lemma store_all_clock_burst:
  assumes "length bs = 8"
  shows "store_all DS1302_CMD_WRITE_CLOCK_BURST [] bs c = ds1302_store DS1302_CMD_WRITE_CLOCK_BURST bs c"
proof -
  obtain b0 b1 b2 b3 b4 b5 b6 b7 where "bs = [b0, b1, b2, b3, b4, b5, b6, b7]"
    using assms by (auto simp: numeral_eq_Suc length_Suc_conv)
  moreover have "ds1302_store DS1302_CMD_WRITE_CLOCK_BURST bs c = c" if "length bs \<noteq> 8" for bs c
    using that by (simp add: ds1302_store_def Let_def)
  ultimately show ?thesis by simp
qed

lemma setDateTime_ready:
  assumes "ds1302_ready g dev chip w"
  shows "ds1302_ready g dev chip (DS1302_setDateTime g dev d w)"
    and "chip_regs (chip (DS1302_setDateTime g dev d w)) =
      (if write_protected (chip w) then ((ch_clock (chip w))[7 := 0], ch_ram (chip w))
       else (map2 (\<lambda>i b. b AND clock_mask i) [0..<8]
               (DateTime_bytes (ch_clock (chip w) ! 0 AND 0x80) d) @ drop 8 (ch_clock (chip w)),
             ch_ram (chip w)))"
proof -
  define bs where "bs = DateTime_bytes (ch_clock (chip w) ! 0 AND 0x80) d"
  let ?w = "DS1302_setDateTime g dev d w"
  obtain w1 where w1: "DS1302_readClockRegister g dev 0 w = (clock_reg chip w 0, w1)"
      "ds1302_ready g dev chip w1" "chip_regs (chip w1) = chip_regs (chip w)"
    using readClockRegister_ready [OF assms, of 0] by auto
  have w: "?w = DS1302_transferEnd g dev (fold (DS1302_writeByte g dev) bs
      (DS1302_writeAddrCmd g dev DS1302_CMD_WRITE_CLOCK_BURST (DS1302_transferBegin g dev w1)))"
    by (simp add: DS1302_setDateTime_def Let_def w1(1) DateTime_bytes_def clock_reg_def bs_def)
  have bs: "length bs = 8" "last bs = 0" by (simp_all add: DateTime_bytes_def bs_def)
  note t = write_transfer [OF _ _ burst_commands(4) w, of chip]
  show "ds1302_ready g dev chip ?w" using t(1) w1(2) by (simp add: ds1302_ready_def)
  have "ch_clock (chip w1) = ch_clock (chip w)" "ch_ram (chip w1) = ch_ram (chip w)"
    using w1(3) by (simp_all add: chip_regs_def)
  then have "chip_regs (chip ?w) =
      (if write_protected (chip w) then ((ch_clock (chip w))[7 := 0], ch_ram (chip w))
       else (map2 (\<lambda>i b. b AND clock_mask i) [0..<8] bs @ drop 8 (ch_clock (chip w)), ch_ram (chip w)))"
    using t(2) w1(2) bs
    by (simp add: store_all_clock_burst ds1302_ready_def ds1302_store_def chip_regs_def write_protected_def Let_def)
  then show "chip_regs (chip ?w) =
      (if write_protected (chip w) then ((ch_clock (chip w))[7 := 0], ch_ram (chip w))
       else (map2 (\<lambda>i b. b AND clock_mask i) [0..<8]
               (DateTime_bytes (ch_clock (chip w) ! 0 AND 0x80) d) @ drop 8 (ch_clock (chip w)),
             ch_ram (chip w)))" by (simp only: bs_def)
qed

definition DateTime_valid :: "DS1302_DateTime \<Rightarrow> bool" where
  "DateTime_valid d \<longleftrightarrow> \<not> DateTime_invalid d \<and> 2000 \<le> dt_year d"

lemma clock_mask_simps [simp]:
  "clock_mask 0 = 0xFF" "clock_mask (Suc 0) = 0x7F" "clock_mask 2 = 0xBF" "clock_mask 3 = 0x3F" "clock_mask 4 = 0x1F"
  "clock_mask 5 = 0x07" "clock_mask 6 = 0xFF" "clock_mask 7 = 0x80"
  by (simp_all add: clock_mask_def)

lemma and_0xFF [simp]: "v AND 0xFF = (v :: u8)"
  using and_mask_id [of v 8 "0xFF"] unsigned_less [of v, where ?'a = nat] by (simp add: mask_eq_exp_minus_1)

lemma mask_consts:
  "mask 7 = (0x7F :: u8)" "mask 6 = (0x3F :: u8)" "mask 5 = (0x1F :: u8)" "mask 3 = (0x07 :: u8)"
  by (simp_all add: mask_eq_exp_minus_1)

lemma DateTime_valid_bounds:
  assumes "DateTime_valid d"
  shows "unat (dt_second d) \<le> 59" "unat (dt_minute d) \<le> 59" "unat (dt_hour d) \<le> 23"
    "unat (dt_dayMonth d) \<le> 31" "unat (dt_month d) \<le> 12" "unat (dt_dayWeek d) \<le> 7"
    "2000 \<le> unat (dt_year d)" "unat (dt_year d) \<le> 2099"
  using assms by (simp_all add: DateTime_valid_def DateTime_invalid_def word_less_nat_alt word_le_nat_alt not_less)

lemma year_round_trip:
  assumes "2000 \<le> unat (y :: u16)" "unat y \<le> 2099"
  shows "2000 + ucast (bcdToDec (decToBcd (word_of_int (uint y - 2000)))) = y"
proof -
  let ?b = "word_of_int (uint y - 2000) :: u8"
  have "uint y - 2000 = int (unat y - 2000)" using assms(1) uint_nat [of y] by linarith
  then have "?b = word_of_nat (unat y - 2000)" by (simp only: of_int_of_nat_eq)
  then have "unat ?b = (unat y - 2000) mod 256" by (simp only: unat_of_nat) simp
  with assms(2) have b: "unat ?b = unat y - 2000" by simp
  then have "unat ?b < 100" using assms(2) by (simp only: b)
  then have "bcdToDec (decToBcd ?b) = ?b" by (rule bcd_round_trip)
  moreover have "2000 + ucast ?b = y"
  proof (rule word_unat_eq_iff [THEN iffD2])
    have "unat (ucast ?b :: u16) = unat ?b"
      using unsigned_less [of ?b, where ?'a = nat] by (simp only: unsigned_ucast_eq) (simp add: take_bit_nat_eq_self)
    then have c: "unat (ucast ?b :: u16) = unat y - 2000" by (simp only: b)
    have "unat (2000 + ucast ?b :: u16) = (2000 + unat (ucast ?b :: u16)) mod 65536"
      by (simp only: unat_word_ariths) simp
    also have "\<dots> = unat y" using assms by (simp only: c) simp
    finally show "unat (2000 + ucast ?b :: u16) = unat y" .
  qed
  ultimately show ?thesis by (simp only:)
qed

lemma second_field:
  assumes "unat s \<le> 59"
  shows "bcdToDec ((x AND 0x80 OR decToBcd (s AND 0x7F)) AND 0x7F) = s"
proof -
  have "s AND 0x7F = s" using assms by - (rule and_mask_id [of _ 7], simp_all add: mask_consts)
  moreover have "decToBcd s AND 0x7F = decToBcd s"
    using assms by (intro decToBcd_and [of _ 7]) (simp_all add: mask_consts)
  moreover have "(x AND 0x80 OR v) AND 0x7F = v AND 0x7F" for v :: u8
    by (simp add: bit.conj_disj_distrib2 and.assoc)
  ultimately show ?thesis using assms by (simp add: bcd_round_trip)
qed

lemma bcd_field:
  assumes "unat v \<le> n" "n < 100" "mask k AND m = (mask k :: u8)" "k \<le> 8" "16 * (n div 10) + 9 < 2 ^ k"
  shows "decToBcd v AND m = decToBcd v" "bcdToDec (decToBcd v AND m) = v"
proof -
  have "unat v div 10 \<le> n div 10" using assms(1) by (rule div_le_mono)
  then have "16 * (unat v div 10) + unat v mod 10 < 2 ^ k" using assms(5) by linarith
  then show "decToBcd v AND m = decToBcd v" using assms by (intro decToBcd_and [of _ k]) simp_all
  then show "bcdToDec (decToBcd v AND m) = v" using assms by (simp add: bcd_round_trip)
qed

lemma DateTime_of_bytes:
  assumes "DateTime_valid d"
  shows "DateTime_of_buf (take 7 (map2 (\<lambda>i b. b AND clock_mask i) [0..<8] (DateTime_bytes (x AND 0x80) d) @ r)) = d"
proof -
  note b = DateTime_valid_bounds [OF assms]
  have "dt_hour d AND 0x3F = dt_hour d" "dt_dayMonth d AND 0x3F = dt_dayMonth d"
    "dt_month d AND 0x1F = dt_month d" "dt_dayWeek d AND 0x07 = dt_dayWeek d"
    using b and_mask_id [of "dt_hour d" 6 "0x3F"] and_mask_id [of "dt_dayMonth d" 6 "0x3F"]
      and_mask_id [of "dt_month d" 5 "0x1F"] and_mask_id [of "dt_dayWeek d" 3 "0x07"] by (simp_all add: mask_consts)
  moreover have "bcdToDec (decToBcd (dt_minute d) AND 0x7F) = dt_minute d"
    using b by (intro bcd_field(2) [where n = 59 and k = 7]) (simp_all add: mask_consts)
  moreover have "bcdToDec (decToBcd (dt_hour d) AND 0xBF) = dt_hour d"
    using b by (intro bcd_field(2) [where n = 23 and k = 6]) (simp_all add: mask_consts)
  moreover have "bcdToDec (decToBcd (dt_dayMonth d) AND 0x3F) = dt_dayMonth d"
    using b by (intro bcd_field(2) [where n = 31 and k = 6]) (simp_all add: mask_consts)
  moreover have "bcdToDec (decToBcd (dt_month d) AND 0x1F) = dt_month d"
    using b by (intro bcd_field(2) [where n = 12 and k = 5]) (simp_all add: mask_consts)
  moreover have "bcdToDec (decToBcd (dt_dayWeek d) AND 0x07) = dt_dayWeek d"
  proof -
    have "16 * (unat (dt_dayWeek d) div 10) + unat (dt_dayWeek d) mod 10 < 2 ^ 3" using b by simp
    then have "decToBcd (dt_dayWeek d) AND 0x07 = decToBcd (dt_dayWeek d)"
      using b by (intro decToBcd_and [of _ 3]) (simp_all add: mask_consts)
    then show ?thesis using b by (simp add: bcd_round_trip)
  qed
  moreover note second_field [OF b(1), of x] year_round_trip [OF b(7,8)]
  ultimately show ?thesis
    by (simp add: DateTime_bytes_def upt_8 DateTime_of_buf_def)
qed

lemma set_get_regs:
  assumes "ds1302_ready g dev chip w" "\<not> write_protected (chip w)"
  shows "ch_clock (chip (DS1302_setDateTime g dev d w)) =
      map2 (\<lambda>i b. b AND clock_mask i) [0..<8] (DateTime_bytes (ch_clock (chip w) ! 0 AND 0x80) d) @ drop 8 (ch_clock (chip w))"
    and "ch_ram (chip (DS1302_setDateTime g dev d w)) = ch_ram (chip w)"
  using setDateTime_ready(2) [OF assms(1), of d] assms(2) by (simp_all add: chip_regs_def)

lemma fst_getDateTime:
  "ds1302_ready g dev chip w \<Longrightarrow> fst (DS1302_getDateTime g dev w) =
     (let d = DateTime_of_buf (take 7 (ch_clock (chip w)))
      in if DateTime_invalid d then (False, zero_DateTime) else (True, d))"
  using getDateTime_ready [of g dev chip w] by auto

text \<open>A chip on a bench: the world is the chip, and the pins lead straight to it.\<close>

definition bench_dev :: DS1302_Dev where
  "bench_dev = \<lparr>clkPin = 18, ioPin = 19, cePin = 21\<rparr>"

definition bench_gpio :: "ds1302_chip gpio" where
  "bench_gpio = \<lparr>gpio_reset_pin = \<lambda>pin c. c\<lparr>ch_ce := False, ch_phase := Idle\<rparr>, gpio_set_level = ds1302_level bench_dev,
     gpio_set_direction = ds1302_direction bench_dev,
     gpio_get_level = \<lambda>pin c. if ch_host_out c then ch_host c else ch_out c,
     gpio_task_delay = \<lambda>n c. c\<rparr>"

definition bench_chip :: "u8 list \<Rightarrow> ds1302_chip" where
  "bench_chip clock = \<lparr>ch_ce = False, ch_clk = False, ch_host = False, ch_host_out = True, ch_out = False,
     ch_phase = Idle, ch_clock = clock, ch_ram = replicate 31 0\<rparr>"

lemma bench_ready: "length clock = 9 \<Longrightarrow> ds1302_ready bench_gpio bench_dev id (bench_chip clock)"
  by (simp add: ds1302_ready_def ds1302_wired_def bench_gpio_def bench_chip_def bench_dev_def chip_idle_def chip_wf_def)

lemma bcd_seconds:
  assumes "unat d \<le> 59"
  shows "d AND 0x7F = d" "\<not> bit (decToBcd d) 7"
proof -
  show "d AND 0x7F = d" using assms by - (rule and_mask_id [of _ 7], simp_all add: mask_consts)
  have "decToBcd d AND 0x7F = decToBcd d"
    using assms by (intro bcd_field(1) [where n = 59 and k = 7]) (simp_all add: mask_consts)
  then show "\<not> bit (decToBcd d) 7" by (metis bit_and_iff bit_mask_iff mask_consts(1) less_irrefl)
qed

lemma set_get_valid:
  assumes "ds1302_ready g dev chip w" "\<not> write_protected (chip w)" "DateTime_valid d"
  shows "fst (DS1302_getDateTime g dev (DS1302_setDateTime g dev d w)) = (True, d)
    \<and> ch_ram (chip (DS1302_setDateTime g dev d w)) = ch_ram (chip w)
    \<and> (bit (ch_clock (chip (DS1302_setDateTime g dev d w)) ! 0) 7 \<longleftrightarrow> bit (ch_clock (chip w) ! 0) 7)"
proof -
  let ?w = "DS1302_setDateTime g dev d w"
  note r = set_get_regs [OF assms(1,2)]
  have "DateTime_of_buf (take 7 (ch_clock (chip ?w))) = d"
    unfolding r by (rule DateTime_of_bytes [OF assms(3)])
  moreover have "\<not> DateTime_invalid d" using assms(3) by (simp add: DateTime_valid_def)
  moreover have "bit (ch_clock (chip ?w) ! 0) 7 \<longleftrightarrow> bit (ch_clock (chip w) ! 0) 7"
  proof -
    have s: "unat (dt_second d) \<le> 59" using DateTime_valid_bounds [OF assms(3)] by blast
    show ?thesis using bcd_seconds [OF s] by (simp add: r(1) DateTime_bytes_def upt_8 bit_or_iff bit_and_iff bit_0x80)
  qed
  ultimately show ?thesis
    using fst_getDateTime [OF setDateTime_ready(1) [OF assms(1)]] r(2) by (simp add: Let_def)
qed

lemma set_get_sunday:
  assumes "ds1302_ready g dev chip w" "\<not> write_protected (chip w)" "dt_dayWeek d = 0"
  shows "fst (DS1302_getDateTime g dev (DS1302_setDateTime g dev d w)) = (False, zero_DateTime)"
proof -
  have "DateTime_invalid (DateTime_of_buf (take 7 (ch_clock (chip (DS1302_setDateTime g dev d w)))))"
    using assms(3) by (simp add: set_get_regs(1) [OF assms(1,2)] DateTime_bytes_def upt_8 DateTime_of_buf_def DateTime_invalid_def
        decToBcd_def bcdToDec_def)
  then show ?thesis
    using fst_getDateTime [OF setDateTime_ready(1) [OF assms(1)]] by (simp add: Let_def)
qed

lemma get_after_set:
  assumes "ds1302_ready g dev chip w" "\<not> write_protected (chip w)"
  shows "dt_dayWeek d = 0 \<Longrightarrow> fst (DS1302_getDateTime g dev (DS1302_setDateTime g dev d w)) = (False, zero_DateTime)"
    and "DateTime_valid d \<Longrightarrow> fst (DS1302_getDateTime g dev (DS1302_setDateTime g dev d w)) = (True, d)"
  using set_get_sunday [OF assms] set_get_valid [OF assms] by blast+

text \<open>
  C9: A date and time set through the three-wire protocol is read back unchanged, for every
  valid date of 2000 to 2099, as long as write protection is off; the RAM and the halt flag
  keep their values.
\<close>

theorem DS1302_set_get:
  assumes "ds1302_ready g dev chip w" "\<not> write_protected (chip w)" "DateTime_valid d"
  shows "fst (DS1302_getDateTime g dev (DS1302_setDateTime g dev d w)) = (True, d)
    \<and> ch_ram (chip (DS1302_setDateTime g dev d w)) = ch_ram (chip w)
    \<and> (bit (ch_clock (chip (DS1302_setDateTime g dev d w)) ! 0) 7 \<longleftrightarrow> bit (ch_clock (chip w) ! 0) 7)"
  using assms by (rule set_get_valid)

theorem DS1302_set_get_witness:
  fixes d :: DS1302_DateTime and c :: ds1302_chip
  defines "d \<equiv> \<lparr>dt_second = 58, dt_minute = 59, dt_hour = 23, dt_dayWeek = 5, dt_dayMonth = 31, dt_month = 12, dt_year = 2021\<rparr>"
    and "c \<equiv> bench_chip [0x80, 0, 0, 1, 1, 1, 0, 0, 0]"
  shows "fst (DS1302_getDateTime bench_gpio bench_dev (DS1302_setDateTime bench_gpio bench_dev d c)) = (True, d)
    \<and> ch_ram (id (DS1302_setDateTime bench_gpio bench_dev d c)) = ch_ram (id c)
    \<and> (bit (ch_clock (id (DS1302_setDateTime bench_gpio bench_dev d c)) ! 0) 7 \<longleftrightarrow> bit (ch_clock (id c) ! 0) 7)"
  by (rule DS1302_set_get [where chip = id])
    (simp_all add: c_def bench_ready, simp_all add: bench_chip_def write_protected_def d_def DateTime_valid_def DateTime_invalid_def)

text \<open>
  A date with day of the week 0, which the structure documents as Sunday, is lost: it is
  written to the chip, but reading it back fails and yields an all-zero structure.
\<close>

theorem DS1302_sunday_lost:
  assumes "ds1302_ready g dev chip w" "\<not> write_protected (chip w)" "dt_dayWeek d = 0"
  shows "fst (DS1302_getDateTime g dev (DS1302_setDateTime g dev d w)) = (False, zero_DateTime)"
  using assms by (rule set_get_sunday)

theorem DS1302_sunday_lost_witness:
  fixes d :: DS1302_DateTime and c :: ds1302_chip
  defines "d \<equiv> \<lparr>dt_second = 0, dt_minute = 30, dt_hour = 8, dt_dayWeek = 0, dt_dayMonth = 5, dt_month = 12, dt_year = 2021\<rparr>"
    and "c \<equiv> bench_chip [0, 0, 0, 1, 1, 1, 0, 0, 0]"
  shows "fst (DS1302_getDateTime bench_gpio bench_dev (DS1302_setDateTime bench_gpio bench_dev d c)) = (False, zero_DateTime)"
  by (rule DS1302_sunday_lost [where chip = id])
    (simp_all add: c_def bench_ready, simp_all add: bench_chip_def write_protected_def d_def)

lemma getDateTime_checked:
  assumes "ds1302_ready g dev chip w"
  shows "case DS1302_getDateTime g dev w of ((ok, d), w') \<Rightarrow>
      (if ok then DateTime_valid d else d = zero_DateTime)
      \<and> ch_clock (chip w') = ch_clock (chip w) \<and> ch_ram (chip w') = ch_ram (chip w)"
proof -
  have "2000 \<le> dt_year (DateTime_of_buf b)" for b
  proof -
    let ?y = "bcdToDec (b ! 6)"
    have y: "unat (ucast ?y :: u16) = unat ?y"
      using unsigned_less [of ?y, where ?'a = nat] by (simp only: unsigned_ucast_eq) (simp add: take_bit_nat_eq_self)
    have "unat ?y < 256" using unsigned_less [of ?y, where ?'a = nat] by simp
    then have "unat (2000 + ucast ?y :: u16) = 2000 + unat ?y"
      by (simp only: unat_word_ariths y) simp
    then show ?thesis by (simp add: DateTime_of_buf_def word_le_nat_alt)
  qed
  then show ?thesis
    using getDateTime_ready [OF assms] by (auto simp: Let_def DateTime_valid_def chip_regs_def split: if_splits)
qed

text \<open>
  Reading the date either succeeds with a date within the calendar's ranges or fails with
  an all-zero structure, and it never changes the chip's registers or RAM.
\<close>

theorem DS1302_get_checked:
  assumes "ds1302_ready g dev chip w"
  shows "case DS1302_getDateTime g dev w of ((ok, d), w') \<Rightarrow>
      (if ok then DateTime_valid d else d = zero_DateTime)
      \<and> ch_clock (chip w') = ch_clock (chip w) \<and> ch_ram (chip w') = ch_ram (chip w)"
  using assms by (rule getDateTime_checked)

theorem DS1302_get_checked_witness:
  fixes c :: ds1302_chip
  defines "c \<equiv> bench_chip [0x99, 0, 0, 0, 1, 1, 0, 0, 0]"
  shows "case DS1302_getDateTime bench_gpio bench_dev c of ((ok, d), w') \<Rightarrow>
      (if ok then DateTime_valid d else d = zero_DateTime)
      \<and> ch_clock (id w') = ch_clock (id c) \<and> ch_ram (id w') = ch_ram (id c)"
  by (rule DS1302_get_checked [where chip = id]) (simp add: c_def bench_ready)

section \<open>Flags and protection\<close>

lemma bit_halt_bits: "bit (halt_bits h v) i \<longleftrightarrow> (if i = 7 then h else bit v i)"
proof -
  have p: "push_bit 7 1 = (0x80 :: u8)" by (simp add: push_bit_eq_mult)
  show ?thesis
    using bit_imp_le_length [of v i]
    by (cases h; simp only: halt_bits_def p if_True if_False bit_or_iff bit_and_iff bit_not_iff bit_0x80)
      (auto simp: possible_bit_word)
qed

lemma and_0x80: "v AND 0x80 \<noteq> (0 :: u8) \<longleftrightarrow> bit v 7" "v AND 0x80 = (0 :: u8) \<longleftrightarrow> \<not> bit v 7"
proof -
  have "bit (v AND 0x80) i \<longleftrightarrow> i = 7 \<and> bit v 7" for i
    by (auto simp only: bit_and_iff bit_0x80)
  then show "v AND 0x80 \<noteq> (0 :: u8) \<longleftrightarrow> bit v 7" by (metis bit_0_eq bot_apply bot_bool_def bit_eq_iff)
  then show "v AND 0x80 = (0 :: u8) \<longleftrightarrow> \<not> bit v 7" by blast
qed

lemma halt_regs:
  assumes "ds1302_ready g dev chip w" "\<not> write_protected (chip w)"
  shows "ds1302_ready g dev chip (DS1302_halt g dev h w)"
    and "clock_reg chip (DS1302_halt g dev h w) = (clock_reg chip w)(0 := halt_bits h (clock_reg chip w 0))"
proof -
  obtain w1 where w1: "DS1302_readClockRegister g dev 0 w = (clock_reg chip w 0, w1)"
      "ds1302_ready g dev chip w1" "chip_regs (chip w1) = chip_regs (chip w)"
    using readClockRegister_ready [OF assms(1), of 0] by auto
  have wp: "(unat (0 :: u8) = 7 \<or> \<not> write_protected (chip w1))
      \<and> halt_bits h (clock_reg chip w 0) AND clock_mask (unat (0 :: u8)) = halt_bits h (clock_reg chip w 0)"
    using w1(3) assms(2) by (simp add: chip_regs_def write_protected_def)
  note m = clock_regs.modify [OF assms(1) _ w1(1), where f = "halt_bits h", OF _ wp]
  have "DS1302_halt g dev h w = (if clock_reg chip w 0 \<noteq> halt_bits h (clock_reg chip w 0)
      then DS1302_writeClockRegister g dev 0 (halt_bits h (clock_reg chip w 0)) w1 else w1)"
    by (simp add: DS1302_halt_def w1(1) Let_def)
  with m show "ds1302_ready g dev chip (DS1302_halt g dev h w)"
    "clock_reg chip (DS1302_halt g dev h w) = (clock_reg chip w)(0 := halt_bits h (clock_reg chip w 0))"
    by simp_all
qed

lemma isHalted_ready:
  assumes "ds1302_ready g dev chip w"
  shows "fst (DS1302_isHalted g dev w) = bit (clock_reg chip w 0) 7"
proof -
  obtain w1 where w1: "DS1302_readClockRegister g dev 0 w = (clock_reg chip w 0, w1)"
      "ds1302_ready g dev chip w1" "clock_reg chip w1 = clock_reg chip w"
    using readClockRegister_ready [OF assms, of 0] by (auto simp: clock_reg_def chip_regs_def fun_eq_iff)
  then show ?thesis
    using clock_regs.rd_val [OF w1(2), of 0] by (auto simp: DS1302_isHalted_def Let_def and_0x80 split: prod.splits)
qed

text \<open>
  Halting or starting the clock on an unprotected chip is what \<^verbatim>\<open>DS1302_isHalted\<close> then
  reports; it touches the halt bit of the seconds register and no other bit of the clock.
\<close>

theorem DS1302_halt_correct:
  assumes "ds1302_ready g dev chip w" "\<not> write_protected (chip w)"
  shows "fst (DS1302_isHalted g dev (DS1302_halt g dev h w)) = h
    \<and> (\<forall>r i. bit (clock_reg chip (DS1302_halt g dev h w) r) i
          = (if r = 0 \<and> i = 7 then h else bit (clock_reg chip w r) i))"
  using isHalted_ready [OF halt_regs(1) [OF assms]] halt_regs(2) [OF assms, of h]
  by (simp add: bit_halt_bits)

theorem DS1302_halt_correct_witness:
  fixes c :: ds1302_chip
  defines "c \<equiv> bench_chip [0x25, 0x30, 0x08, 1, 1, 1, 0x21, 0, 0]"
  shows "fst (DS1302_isHalted bench_gpio bench_dev (DS1302_halt bench_gpio bench_dev True c)) = True
    \<and> (\<forall>r i. bit (clock_reg id (DS1302_halt bench_gpio bench_dev True c) r) i
          = (if r = 0 \<and> i = 7 then True else bit (clock_reg id c r) i))"
  by (rule DS1302_halt_correct) (simp_all add: c_def bench_ready, simp add: bench_chip_def write_protected_def)

lemma protect_regs:
  assumes "ds1302_ready g dev chip w"
  shows "ds1302_ready g dev chip (DS1302_writeProtect g dev e w)"
    and "chip_regs (chip (DS1302_writeProtect g dev e w)) = ((ch_clock (chip w))[7 := of_bool e * 0x80], ch_ram (chip w))"
    and "write_protected (chip (DS1302_writeProtect g dev e w)) = e"
proof -
  note r = writeClockRegister_ready [OF assms, of 7, simplified]
  show "ds1302_ready g dev chip (DS1302_writeProtect g dev e w)"
    using r(1) by (simp only: DS1302_writeProtect_def)
  show c: "chip_regs (chip (DS1302_writeProtect g dev e w)) = ((ch_clock (chip w))[7 := of_bool e * 0x80], ch_ram (chip w))"
    using r(2) by (simp add: DS1302_writeProtect_def push_bit_eq_mult)
  show "write_protected (chip (DS1302_writeProtect g dev e w)) = e"
    using c ready_length [OF assms] by (simp add: chip_regs_def write_protected_def bit_0x80)
qed

lemma isWriteProtected_ready:
  assumes "ds1302_ready g dev chip w"
  shows "fst (DS1302_isWriteProtected g dev w) = write_protected (chip w)"
  using clock_regs.rd_val [OF assms, of 7]
  by (auto simp: DS1302_isWriteProtected_def Let_def clock_reg_def write_protected_def and_0x80 split: prod.splits)

text \<open>
  While write protection is on, it is reported, and writing any other clock register or
  RAM byte changes nothing; but setting the date, which has no effect on the time, silently
  takes the protection away.
\<close>

theorem DS1302_protection:
  assumes "ds1302_ready g dev chip w" "w1 = DS1302_writeProtect g dev True w"
  shows "fst (DS1302_isWriteProtected g dev w1) = True
    \<and> (\<forall>r v. unat r < 7 \<longrightarrow> chip_regs (chip (DS1302_writeClockRegister g dev r v w1)) = chip_regs (chip w1))
    \<and> (\<forall>a v. unat a < 31 \<longrightarrow> chip_regs (chip (DS1302_writeByteRAM g dev a v w1)) = chip_regs (chip w1))
    \<and> fst (DS1302_getDateTime g dev (DS1302_setDateTime g dev d w1)) = fst (DS1302_getDateTime g dev w1)
    \<and> fst (DS1302_isWriteProtected g dev (DS1302_setDateTime g dev d w1)) = False"
proof -
  have w1: "ds1302_ready g dev chip w1" "write_protected (chip w1)"
    using protect_regs [OF assms(1), of True] assms(2) by simp_all
  note s = setDateTime_ready [OF w1(1), of d]
  have c: "ch_clock (chip (DS1302_setDateTime g dev d w1)) = (ch_clock (chip w1))[7 := 0]"
    using s(2) w1(2) by (simp add: chip_regs_def)
  then have "fst (DS1302_getDateTime g dev (DS1302_setDateTime g dev d w1)) = fst (DS1302_getDateTime g dev w1)"
    by (simp add: fst_getDateTime [OF s(1)] fst_getDateTime [OF w1(1)])
  moreover have "\<not> write_protected (chip (DS1302_setDateTime g dev d w1))"
    using ready_length [OF w1(1)] by (simp add: c write_protected_def)
  ultimately show ?thesis
    using w1 writeClockRegister_ready(2) [OF w1(1)] writeByteRAM_ready(2) [OF w1(1)]
    by (simp add: isWriteProtected_ready [OF w1(1)] isWriteProtected_ready [OF s(1)])
qed

theorem DS1302_protection_witness:
  fixes c1 :: ds1302_chip
  defines "c1 \<equiv> DS1302_writeProtect bench_gpio bench_dev True (bench_chip [0x25, 0x30, 0x08, 1, 1, 1, 0x21, 0, 0])"
  shows "fst (DS1302_isWriteProtected bench_gpio bench_dev c1) = True
    \<and> chip_regs (DS1302_writeClockRegister bench_gpio bench_dev 3 0x12 c1) = chip_regs c1
    \<and> chip_regs (DS1302_writeByteRAM bench_gpio bench_dev 30 0xAA c1) = chip_regs c1
    \<and> fst (DS1302_getDateTime bench_gpio bench_dev (DS1302_setDateTime bench_gpio bench_dev zero_DateTime c1))
        = fst (DS1302_getDateTime bench_gpio bench_dev c1)
    \<and> fst (DS1302_isWriteProtected bench_gpio bench_dev (DS1302_setDateTime bench_gpio bench_dev zero_DateTime c1)) = False"
proof -
  let ?c = "bench_chip [0x25, 0x30, 0x08, 1, 1, 1, 0x21, 0, 0]"
  have "ds1302_ready bench_gpio bench_dev id ?c" by (simp add: bench_ready)
  note p = DS1302_protection [OF this meta_eq_to_obj_eq [OF c1_def], of zero_DateTime]
  have "unat (3 :: u8) < 7" "unat (30 :: u8) < 31" by simp_all
  with p show ?thesis unfolding id_apply by blast
qed

section \<open>RAM\<close>

lemma store_ram_burst:
  assumes "\<not> write_protected c" "length pre < length (ch_ram c)"
  shows "ds1302_store DS1302_CMD_WRITE_RAM_BURST (pre @ [b]) c = c\<lparr>ch_ram := (ch_ram c)[length pre := b]\<rparr>"
  using assms by (simp add: ds1302_store_def Let_def)

lemma store_all_ram_burst:
  assumes "\<not> write_protected c" "length pre + length bs \<le> length (ch_ram c)"
  shows "store_all DS1302_CMD_WRITE_RAM_BURST pre bs c
    = c\<lparr>ch_ram := take (length pre) (ch_ram c) @ bs @ drop (length pre + length bs) (ch_ram c)\<rparr>"
  using assms
proof (induction bs arbitrary: pre c)
  case Nil
  then show ?case by simp
next
  case (Cons b bs)
  let ?c = "c\<lparr>ch_ram := (ch_ram c)[length pre := b]\<rparr>"
  have "store_all DS1302_CMD_WRITE_RAM_BURST pre (b # bs) c = store_all DS1302_CMD_WRITE_RAM_BURST (pre @ [b]) bs ?c"
    using Cons.prems by (simp add: store_ram_burst)
  also have "\<dots> = ?c\<lparr>ch_ram := take (length (pre @ [b])) (ch_ram ?c) @ bs @ drop (length (pre @ [b]) + length bs) (ch_ram ?c)\<rparr>"
    using Cons.prems by (intro Cons.IH) (simp_all add: write_protected_def)
  also have "take (length (pre @ [b])) (ch_ram ?c) = take (length pre) (ch_ram c) @ [b]"
    using Cons.prems by (simp add: take_Suc_conv_app_nth)
  finally show ?case using Cons.prems by simp
qed

lemma writeBufferRAM_ready:
  assumes "ds1302_ready g dev chip w" "\<not> write_protected (chip w)" "len \<le> length buf"
  shows "ds1302_ready g dev chip (DS1302_writeBufferRAM g dev buf len w)"
    and "chip_regs (chip (DS1302_writeBufferRAM g dev buf len w)) =
      (ch_clock (chip w), take (min len 31) buf @ drop (min len 31) (ch_ram (chip w)))"
proof -
  let ?w = "DS1302_writeBufferRAM g dev buf len w" and ?bs = "take (min len 31) buf"
  have w: "?w = DS1302_transferEnd g dev (fold (DS1302_writeByte g dev) ?bs
      (DS1302_writeAddrCmd g dev DS1302_CMD_WRITE_RAM_BURST (DS1302_transferBegin g dev w)))"
    by (simp add: DS1302_writeBufferRAM_def Let_def NUM_DS1302_RAM_REGS_def)
  note t = write_transfer [OF _ _ burst_commands(10) w, of chip]
  show "ds1302_ready g dev chip ?w" using t(1) assms(1) by (simp add: ds1302_ready_def)
  have "length ?bs = min len 31" using assms(3) by simp
  then show "chip_regs (chip ?w) = (ch_clock (chip w), ?bs @ drop (min len 31) (ch_ram (chip w)))"
    using t(2) assms(1,2) ready_length [OF assms(1)] store_all_ram_burst [OF assms(2), of "[]" ?bs]
    by (simp add: ds1302_ready_def chip_regs_def)
qed

lemma readBufferRAM_ready:
  assumes "ds1302_ready g dev chip w"
  shows "fst (DS1302_readBufferRAM g dev len w) = take (min len 31) (ch_ram (chip w))"
proof -
  have "map (\<lambda>i. ds1302_fetch DS1302_CMD_READ_RAM_BURST i (chip w)) [0..<min len 31] = take (min len 31) (ch_ram (chip w))"
    using ready_length [OF assms] by (intro nth_equalityI) (simp_all add: ds1302_fetch_def)
  then show ?thesis
    using read_transfer [of g dev chip w DS1302_CMD_READ_RAM_BURST "min len 31"] assms
    by (auto simp: DS1302_readBufferRAM_def Let_def ds1302_ready_def NUM_DS1302_RAM_REGS_def)
qed

text \<open>
  A buffer written to the unprotected chip's RAM in a burst is read back byte for byte, cut
  to the 31 bytes the chip has; the bytes behind it and the clock are unchanged.
\<close>

theorem DS1302_ram_round_trip:
  assumes "ds1302_ready g dev chip w" "\<not> write_protected (chip w)" "len \<le> length buf"
  shows "fst (DS1302_readBufferRAM g dev len (DS1302_writeBufferRAM g dev buf len w)) = take (min len 31) buf
    \<and> ch_clock (chip (DS1302_writeBufferRAM g dev buf len w)) = ch_clock (chip w)
    \<and> drop (min len 31) (ch_ram (chip (DS1302_writeBufferRAM g dev buf len w))) = drop (min len 31) (ch_ram (chip w))"
  using writeBufferRAM_ready [OF assms] assms(3)
  by (simp add: readBufferRAM_ready chip_regs_def)

theorem DS1302_ram_round_trip_witness:
  fixes c :: ds1302_chip
  defines "c \<equiv> bench_chip [0x25, 0x30, 0x08, 1, 1, 1, 0x21, 0, 0]"
  shows "fst (DS1302_readBufferRAM bench_gpio bench_dev 3 (DS1302_writeBufferRAM bench_gpio bench_dev [1, 2, 3, 4] 3 c))
      = take (min 3 31) [1, 2, 3, 4]
    \<and> ch_clock (id (DS1302_writeBufferRAM bench_gpio bench_dev [1, 2, 3, 4] 3 c)) = ch_clock (id c)
    \<and> drop (min 3 31) (ch_ram (id (DS1302_writeBufferRAM bench_gpio bench_dev [1, 2, 3, 4] 3 c))) = drop (min 3 31) (ch_ram (id c))"
  by (rule DS1302_ram_round_trip [where chip = id])
    (simp_all add: c_def bench_ready, simp add: bench_chip_def write_protected_def)

section \<open>Time of day and start-up\<close>

lemma getTime_ready:
  assumes "ds1302_ready g dev chip w"
  shows "fst (DS1302_getTime g dev w) =
    (let d = DateTime_of_buf (take 7 (ch_clock (chip w))) in
     if 59 < dt_second d \<or> 59 < dt_minute d \<or> 23 < dt_hour d then (False, 0, 0, 0)
     else (True, dt_hour d, dt_minute d, dt_second d))"
proof -
  have "map (\<lambda>i. ds1302_fetch DS1302_CMD_READ_CLOCK_BURST i (chip w)) [0..<3] = take 3 (ch_clock (chip w))"
    using ready_length [OF assms] by (intro nth_equalityI) (simp_all add: ds1302_fetch_def)
  then show ?thesis
    using read_transfer [of g dev chip w DS1302_CMD_READ_CLOCK_BURST 3] assms
    by (auto simp: DS1302_getTime_def Let_def ds1302_ready_def DateTime_of_buf_def)
qed

text \<open>
  Setting the time of day on an unprotected chip that holds a valid date keeps the date, and
  both ways of reading then give the new time.
\<close>

theorem DS1302_setTime_keeps_date:
  assumes "ds1302_ready g dev chip w" "\<not> write_protected (chip w)"
    and "fst (DS1302_getDateTime g dev w) = (True, d)" "h \<le> 23" "m \<le> 59" "s \<le> 59"
  shows "fst (DS1302_getDateTime g dev (DS1302_setTime g dev h m s w))
      = (True, d\<lparr>dt_hour := h, dt_minute := m, dt_second := s\<rparr>)
    \<and> fst (DS1302_getTime g dev (DS1302_setTime g dev h m s w)) = (True, h, m, s)"
proof -
  let ?d = "d\<lparr>dt_hour := h, dt_minute := m, dt_second := s\<rparr>"
  obtain w1 where w1: "DS1302_getDateTime g dev w = ((True, d), w1)" "ds1302_ready g dev chip w1"
      "chip_regs (chip w1) = chip_regs (chip w)"
    using getDateTime_ready [OF assms(1)] assms(3) by auto
  have "DateTime_valid d" using getDateTime_checked [OF assms(1)] w1(1) by simp
  then have v: "DateTime_valid ?d"
    using assms(4-) by (simp add: DateTime_valid_def DateTime_invalid_def not_less)
  let ?w = "DS1302_setDateTime g dev ?d w1"
  have p: "\<not> write_protected (chip w1)"
    using w1(3) assms(2) by (simp add: chip_regs_def write_protected_def)
  have set: "DS1302_setTime g dev h m s w = ?w"
    by (simp add: DS1302_setTime_def w1(1) Let_def)
  have d: "DateTime_of_buf (take 7 (ch_clock (chip ?w))) = ?d"
    unfolding set_get_regs [OF w1(2) p] by (rule DateTime_of_bytes [OF v])
  note r = setDateTime_ready(1) [OF w1(2), of ?d]
  show ?thesis
    using v assms(4-)
    by (simp add: set fst_getDateTime [OF r] getTime_ready [OF r] d Let_def DateTime_valid_def not_less)
qed

theorem DS1302_setTime_keeps_date_witness:
  fixes c :: ds1302_chip and d :: DS1302_DateTime
  defines "c \<equiv> bench_chip [0x25, 0x30, 0x08, 0x05, 0x12, 0x03, 0x21, 0, 0]"
    and "d \<equiv> \<lparr>dt_second = 25, dt_minute = 30, dt_hour = 8, dt_dayWeek = 3, dt_dayMonth = 5, dt_month = 12, dt_year = 2021\<rparr>"
  shows "fst (DS1302_getDateTime bench_gpio bench_dev (DS1302_setTime bench_gpio bench_dev 23 15 7 c))
      = (True, d\<lparr>dt_hour := 23, dt_minute := 15, dt_second := 7\<rparr>)
    \<and> fst (DS1302_getTime bench_gpio bench_dev (DS1302_setTime bench_gpio bench_dev 23 15 7 c)) = (True, 23, 15, 7)"
proof (rule DS1302_setTime_keeps_date [where chip = id])
  have r: "ds1302_ready bench_gpio bench_dev id c" by (simp add: c_def bench_ready)
  then show "ds1302_ready bench_gpio bench_dev id c" .
  show "fst (DS1302_getDateTime bench_gpio bench_dev c) = (True, d)"
    using fst_getDateTime [OF r] by (simp add: c_def d_def bench_chip_def DateTime_of_buf_def DateTime_invalid_def bcdToDec_def)
qed (simp_all add: c_def bench_chip_def write_protected_def)

text \<open>Pins that a reset releases without clocking the chip: what start-up relies on.\<close>

definition resets_quietly :: "'w gpio \<Rightarrow> ('w \<Rightarrow> ds1302_chip) \<Rightarrow> bool" where
  "resets_quietly g chip \<longleftrightarrow> (\<forall>pin w. chip_regs (chip (gpio_reset_pin g pin w)) = chip_regs (chip w))"

lemma level_regs:
  "chip_regs (ds1302_level dev pin False c) = chip_regs c"
  by (auto simp: ds1302_level_def ds1302_fall_def chip_regs_def split: ds1302_phase.splits)

lemma direction_regs [simp]: "chip_regs (ds1302_direction dev pin m c) = chip_regs c"
  by (simp add: ds1302_direction_def)

abbreviation begin_pins :: "'w gpio \<Rightarrow> u8 \<Rightarrow> u8 \<Rightarrow> u8 \<Rightarrow> 'w \<Rightarrow> 'w" where
  "begin_pins g clk io ce w \<equiv>
     gpio_set_direction g ce GPIO_MODE_OUTPUT (gpio_set_direction g io GPIO_MODE_OUTPUT (gpio_set_direction g clk GPIO_MODE_OUTPUT
       (gpio_set_level g ce False (gpio_set_level g io False (gpio_set_level g clk False
         (gpio_reset_pin g ce (gpio_reset_pin g io (gpio_reset_pin g clk w))))))))"

lemma begin_eq:
  "DS1302_begin g clk io ce w =
     (let dev = \<lparr>clkPin = clk, ioPin = io, cePin = ce\<rparr>;
          r = DS1302_isHalted g dev (DS1302_halt g dev False (begin_pins g clk io ce w))
      in (\<not> fst r, dev, snd r))"
  by (simp add: DS1302_begin_def Let_def split_beta)

lemma begin_pins_ready:
  assumes "ds1302_wired g \<lparr>clkPin = clk, ioPin = io, cePin = ce\<rparr> chip" "resets_quietly g chip" "chip_wf (chip w)"
  shows "chip_regs (chip (begin_pins g clk io ce w)) = chip_regs (chip w)"
    and "ds1302_ready g \<lparr>clkPin = clk, ioPin = io, cePin = ce\<rparr> chip (begin_pins g clk io ce w)"
proof -
  let ?w = "begin_pins g clk io ce w"
  show regs: "chip_regs (chip ?w) = chip_regs (chip w)"
    using assms(2) by (simp add: wired_simps(1,2) [OF assms(1)] level_regs resets_quietly_def)
  have "\<not> ch_ce (chip ?w)" "ch_phase (chip ?w) = Idle"
    by (simp_all add: wired_simps(1,2) [OF assms(1)] ds1302_level_def ds1302_direction_def)
  then show "ds1302_ready g \<lparr>clkPin = clk, ioPin = io, cePin = ce\<rparr> chip ?w"
    using chip_wf_regs [OF regs] assms(1,3) by (simp add: ds1302_ready_def chip_idle_def)
qed

text \<open>
  \<^verbatim>\<open>DS1302_begin\<close> on an unprotected chip leaves the clock running, says so, and changes only
  the halt bit; it fails on a chip whose halt bit cannot be cleared because it is protected.
\<close>

theorem DS1302_begin_starts:
  assumes "ds1302_wired g \<lparr>clkPin = clk, ioPin = io, cePin = ce\<rparr> chip" "resets_quietly g chip" "chip_wf (chip w)"
  shows "fst (DS1302_begin g clk io ce w) = (\<not> write_protected (chip w) \<or> \<not> bit (ch_clock (chip w) ! 0) 7)
    \<and> fst (snd (DS1302_begin g clk io ce w)) = \<lparr>clkPin = clk, ioPin = io, cePin = ce\<rparr>"
proof -
  let ?dev = "\<lparr>clkPin = clk, ioPin = io, cePin = ce\<rparr>"
  let ?w2 = "begin_pins g clk io ce w"
  note regs = begin_pins_ready(1) [OF assms] and r = begin_pins_ready(2) [OF assms]
  obtain w3 where w3: "DS1302_readClockRegister g ?dev 0 ?w2 = (clock_reg chip ?w2 0, w3)"
      "ds1302_ready g ?dev chip w3" "chip_regs (chip w3) = chip_regs (chip ?w2)"
    using readClockRegister_ready [OF r, of 0] by auto
  have "fst (DS1302_isHalted g ?dev (DS1302_halt g ?dev False ?w2))
      = (write_protected (chip ?w2) \<and> bit (ch_clock (chip ?w2) ! 0) 7)"
  proof (cases "write_protected (chip ?w2)")
    case False
    then show ?thesis
      using isHalted_ready [OF halt_regs(1) [OF r False]] halt_regs(2) [OF r False, of False] by (simp add: bit_halt_bits)
  next
    case True
    let ?w4 = "DS1302_halt g ?dev False ?w2"
    have "write_protected (chip w3)" using w3(3) True by (simp add: chip_regs_def write_protected_def)
    then have "ds1302_ready g ?dev chip ?w4" "chip_regs (chip ?w4) = chip_regs (chip ?w2)"
      using writeClockRegister_ready [OF w3(2), of 0] w3 by (simp_all add: DS1302_halt_def Let_def)
    then show ?thesis
      using isHalted_ready [of g ?dev chip ?w4] True by (simp add: clock_reg_def chip_regs_def)
  qed
  with regs show ?thesis by (simp add: begin_eq Let_def chip_regs_def write_protected_def)
qed

theorem DS1302_begin_starts_witness:
  fixes c :: ds1302_chip
  defines "c \<equiv> bench_chip [0x80, 0x30, 0x08, 0x05, 0x12, 0x03, 0x21, 0, 0]"
  shows "fst (DS1302_begin bench_gpio 18 19 21 c) = (\<not> write_protected (id c) \<or> \<not> bit (ch_clock (id c) ! 0) 7)
    \<and> fst (snd (DS1302_begin bench_gpio 18 19 21 c)) = \<lparr>clkPin = 18, ioPin = 19, cePin = 21\<rparr>"
proof (rule DS1302_begin_starts [where chip = id])
  have "ds1302_ready bench_gpio bench_dev id c" by (simp add: c_def bench_ready)
  then show "ds1302_wired bench_gpio \<lparr>clkPin = 18, ioPin = 19, cePin = 21\<rparr> id"
    by (simp add: ds1302_ready_def bench_dev_def)
  show "resets_quietly bench_gpio id" by (simp add: resets_quietly_def bench_gpio_def)
  show "chip_wf (id c)" by (simp add: c_def bench_chip_def chip_wf_def)
qed

end
