(* ===== verification/Wifi_State.thy ===== *)
theory Wifi_State
  imports Ap_List
begin

text \<open>
  The state of \<^verbatim>\<open>common/wifi_manager/src/wifi_manager.c\<close>, its access to ESP-IDF and FreeRTOS, its
  two flash routines with their mutex (\<^verbatim>\<open>nvs_sync.c\<close>), and the message queue.

  Every call of the program into ESP-IDF or FreeRTOS is a value of \<open>esp_call\<close>.  The outside is
  an oracle: what a call answers is any function of the calls made before.  The state keeps
  that history in \<open>calls\<close>, so the theorems can speak of what was called and in which order.
  A function of the model returns \<open>None\<close> when the task goes no further: \<^verbatim>\<open>ESP_ERROR_CHECK\<close> or
  \<^verbatim>\<open>abort\<close> stopped the program, memory was violated, or a wait without time limit never ends.
\<close>

section \<open>Settings and messages\<close>

datatype message_code = NONE
  | WM_ORDER_START_HTTP_SERVER | WM_ORDER_STOP_HTTP_SERVER
  | WM_ORDER_START_DNS_SERVICE | WM_ORDER_STOP_DNS_SERVICE
  | WM_ORDER_START_WIFI_SCAN | WM_ORDER_LOAD_AND_RESTORE_STA | WM_ORDER_CONNECT_STA
  | WM_ORDER_DISCONNECT_STA | WM_ORDER_START_AP | WM_EVENT_STA_DISCONNECTED
  | WM_EVENT_SCAN_DONE | WM_EVENT_STA_GOT_IP | WM_ORDER_STOP_AP

datatype update_reason_code = UPDATE_CONNECTION_OK | UPDATE_FAILED_ATTEMPT
  | UPDATE_USER_DISCONNECT | UPDATE_LOST_CONNECTION

fun update_reason_int :: "update_reason_code \<Rightarrow> int" where
  "update_reason_int UPDATE_CONNECTION_OK = 0"
| "update_reason_int UPDATE_FAILED_ATTEMPT = 1"
| "update_reason_int UPDATE_USER_DISCONNECT = 2"
| "update_reason_int UPDATE_LOST_CONNECTION = 3"

datatype connection_request = CONNECTION_REQUEST_NONE | CONNECTION_REQUEST_USER
  | CONNECTION_REQUEST_AUTO_RECONNECT | CONNECTION_REQUEST_RESTORE_CONNECTION

text \<open>
  The \<^verbatim>\<open>void *param\<close> of a message: nothing, the origin of a connection request, or the heap copy
  of an event: the status of a scan, the reason of a disconnection, an address.
\<close>

datatype message_param = No_Param | Request connection_request
  | Scan_Status nat | Disconnect_Reason u8 | Got_Ip u32

type_synonym queue_message = "message_code \<times> message_param"

text \<open>
  The station part of \<^verbatim>\<open>wifi_config_t\<close>: 32 bytes of name directly followed by 64 bytes of
  password.  A string read from either pointer runs on until a NUL byte; the member behind the
  password is 0.
\<close>

record sta_config =
  cfg_ssid :: buf
  cfg_password :: buf

definition sta_ssid_ptr :: "sta_config \<Rightarrow> buf" where
  "sta_ssid_ptr c = cfg_ssid c @ cfg_password c @ [NUL]"

definition sta_password_ptr :: "sta_config \<Rightarrow> buf" where
  "sta_password_ptr c = cfg_password c @ [NUL]"

definition zero_config :: sta_config where
  "zero_config = \<lparr>cfg_ssid = replicate 32 NUL, cfg_password = replicate 64 NUL\<rparr>"

record wifi_settings =
  set_ap_ssid :: buf
  set_ap_pwd :: buf
  set_ap_channel :: u8
  set_ap_ssid_hidden :: u8
  set_ap_bandwidth :: nat
  set_sta_only :: bool
  set_sta_power_save :: nat
  set_sta_static_ip :: bool

definition zero_settings :: wifi_settings where
  "zero_settings = \<lparr>set_ap_ssid = replicate 32 NUL, set_ap_pwd = replicate 64 NUL, set_ap_channel = 0,
     set_ap_ssid_hidden = 0, set_ap_bandwidth = 0, set_sta_only = False, set_sta_power_save = 0,
     set_sta_static_ip = False\<rparr>"

section \<open>Calls to the outside\<close>

datatype mutex = Nvs_Mutex | Json_Mutex | Sta_Ip_Mutex
datatype wifi_timer = Retry_Timer | Shutdown_Ap_Timer
datatype wifi_mode = WIFI_MODE_STA | WIFI_MODE_APSTA

datatype blob = Bytes buf | Settings wifi_settings

text \<open>The events of the Wi-Fi driver and of the IP layer, with the data the program reads.\<close>

datatype wifi_event =
    WIFI_EVENT_WIFI_READY | WIFI_EVENT_SCAN_DONE nat | WIFI_EVENT_STA_START | WIFI_EVENT_STA_STOP
  | WIFI_EVENT_STA_CONNECTED | WIFI_EVENT_STA_DISCONNECTED u8 | WIFI_EVENT_STA_AUTHMODE_CHANGE
  | WIFI_EVENT_AP_START | WIFI_EVENT_AP_STOP | WIFI_EVENT_AP_STACONNECTED
  | WIFI_EVENT_AP_STADISCONNECTED | WIFI_EVENT_AP_PROBEREQRECVED
  | IP_EVENT_STA_GOT_IP u32 | IP_EVENT_GOT_IP6 | IP_EVENT_STA_LOST_IP

text \<open>The wait of a call, in ticks; \<open>None\<close> is \<^verbatim>\<open>portMAX_DELAY\<close>.\<close>

type_synonym ticks = "nat option"

datatype esp_call =
    Mutex_Create mutex | Mutex_Delete mutex | Sem_Take mutex ticks | Sem_Give mutex
  | Nvs_Flash_Init | Nvs_Open bool | Nvs_Get_Blob string nat | Nvs_Set_Blob string blob | Nvs_Commit | Nvs_Close
  | Netif_Init | Netif_Create_Sta | Netif_Create_Ap | Netif_Dhcps_Stop | Netif_Dhcps_Start | Netif_Set_Ip_Info
  | Netif_Get_Ip_Info | Ip_Ntoa u32
  | Wifi_Init | Wifi_Set_Storage | Event_Register | Wifi_Set_Mode wifi_mode | Wifi_Set_Ap_Config buf buf u8 u8 bool
  | Wifi_Set_Sta_Config sta_config | Wifi_Set_Bandwidth nat | Wifi_Set_Ps nat
  | Wifi_Start | Wifi_Connect | Wifi_Disconnect | Wifi_Scan_Start | Wifi_Scan_Stop | Wifi_Scan_Get_Ap_Records nat
  | Timer_Create wifi_timer nat | Timer_Start wifi_timer | Timer_Stop wifi_timer | Timer_Is_Active wifi_timer
  | Task_Create | Task_Delete | Queue_Delete | Event_Group_Delete
  | Http_App_Start bool | Http_App_Stop | Dns_Server_Start | Dns_Server_Stop
  | Callback message_code message_param | Wifi_Handler wifi_event | Mqtt_App_Start | Mqtt_App_Publish string string

record resp =
  r_err :: int
  r_flag :: bool
  r_blocks :: bool
  r_blob :: blob
  r_aps :: "ap_record list"
  r_ips :: "u32 \<times> u32 \<times> u32"
  r_text :: string

type_synonym esp_oracle = "esp_call list \<Rightarrow> esp_call \<Rightarrow> resp"

abbreviation ESP_OK :: int where "ESP_OK \<equiv> 0"
abbreviation ESP_FAIL :: int where "ESP_FAIL \<equiv> -1"
abbreviation ESP_ERR_NVS_NOT_FOUND :: int where "ESP_ERR_NVS_NOT_FOUND \<equiv> 0x1102"

section \<open>State\<close>

datatype wm_bit = WIFI_CONNECTED_BIT | AP_STA_CONNECTED_BIT | AP_STARTED_BIT | REQUEST_STA_CONNECT_BIT
  | STA_DISCONNECT_BIT | REQUEST_RESTORE_STA_BIT | REQUEST_WIFI_DISCONNECT_BIT | SCAN_BIT
  | REQUEST_DISCONNECT_BIT | ORDER_STA

record wm =
  calls :: "esp_call list"
  queue :: "queue_message list"
  bits :: "wm_bit set"
  retries :: u8
  ap_num :: nat
  accessp_records :: "ap_record list"
  accessp_json :: buf
  ip_info_json :: buf
  sta_ip :: buf
  config_sta :: "sta_config option"
  wifi_settings_var :: wifi_settings
  mutexes :: "mutex set"
  callbacks :: "message_code set"
  wifi_handler_set :: bool

definition WM_QUEUE_LENGTH :: nat where "WM_QUEUE_LENGTH = 3"
definition WIFI_MANAGER_MAX_RETRY_START_AP :: u8 where "WIFI_MANAGER_MAX_RETRY_START_AP = 3"
definition JSON_IP_INFO_SIZE :: nat where "JSON_IP_INFO_SIZE = 159"
definition IP4ADDR_STRLEN_MAX :: nat where "IP4ADDR_STRLEN_MAX = 16"

definition call :: "esp_oracle \<Rightarrow> esp_call \<Rightarrow> wm \<Rightarrow> resp \<times> wm" where
  "call E c s = (E (calls s) c, s\<lparr>calls := calls s @ [c]\<rparr>)"

definition act :: "esp_oracle \<Rightarrow> esp_call \<Rightarrow> wm \<Rightarrow> wm" where
  "act E c s = snd (call E c s)"

text \<open>\<^verbatim>\<open>ESP_ERROR_CHECK\<close>: the program ends on an error.\<close>

definition esp_error_check :: "esp_oracle \<Rightarrow> esp_call \<Rightarrow> wm \<Rightarrow> wm option" where
  "esp_error_check E c s =
     (let (r, s) = call E c s in if r_err r = ESP_OK then Some s else None)"

definition set_bit :: "wm_bit \<Rightarrow> wm \<Rightarrow> wm" where
  "set_bit b s = s\<lparr>bits := insert b (bits s)\<rparr>"

definition clear_bit :: "wm_bit \<Rightarrow> wm \<Rightarrow> wm" where
  "clear_bit b s = s\<lparr>bits := bits s - {b}\<rparr>"

text \<open>\<^verbatim>\<open>xQueueSend\<close> with \<^verbatim>\<open>portMAX_DELAY\<close>: a full queue blocks the sender.\<close>

definition wifi_manager_send_message :: "message_code \<Rightarrow> message_param \<Rightarrow> wm \<Rightarrow> wm option" where
  "wifi_manager_send_message code param s =
     (if length (queue s) < WM_QUEUE_LENGTH then Some (s\<lparr>queue := queue s @ [(code, param)]\<rparr>) else None)"

definition wifi_manager_send_message_to_front :: "message_code \<Rightarrow> message_param \<Rightarrow> wm \<Rightarrow> wm option" where
  "wifi_manager_send_message_to_front code param s =
     (if length (queue s) < WM_QUEUE_LENGTH then Some (s\<lparr>queue := (code, param) # queue s\<rparr>) else None)"

section \<open>Mutexes\<close>

definition take_mutex :: "esp_oracle \<Rightarrow> mutex \<Rightarrow> ticks \<Rightarrow> wm \<Rightarrow> (bool \<times> wm) option" where
  "take_mutex E m t s =
     (if m \<in> mutexes s
      then (let (r, s) = call E (Sem_Take m t) s in
            if r_blocks r then None else Some (r_flag r, s))
      else Some (False, s))"

definition nvs_sync_create :: "esp_oracle \<Rightarrow> wm \<Rightarrow> int \<times> wm" where
  "nvs_sync_create E s =
     (if Nvs_Mutex \<notin> mutexes s
      then (let (r, s) = call E (Mutex_Create Nvs_Mutex) s in
            if r_flag r then (ESP_OK, s\<lparr>mutexes := insert Nvs_Mutex (mutexes s)\<rparr>) else (ESP_FAIL, s))
      else (ESP_OK, s))"

definition nvs_sync_free :: "esp_oracle \<Rightarrow> wm \<Rightarrow> wm" where
  "nvs_sync_free E s =
     (if Nvs_Mutex \<in> mutexes s
      then (act E (Mutex_Delete Nvs_Mutex) s)\<lparr>mutexes := mutexes s - {Nvs_Mutex}\<rparr> else s)"

definition nvs_sync_lock :: "esp_oracle \<Rightarrow> ticks \<Rightarrow> wm \<Rightarrow> (bool \<times> wm) option" where
  "nvs_sync_lock E t s = take_mutex E Nvs_Mutex t s"

definition nvs_sync_unlock :: "esp_oracle \<Rightarrow> wm \<Rightarrow> wm" where
  "nvs_sync_unlock E s = act E (Sem_Give Nvs_Mutex) s"

definition wifi_manager_lock_json_buffer :: "esp_oracle \<Rightarrow> ticks \<Rightarrow> wm \<Rightarrow> (bool \<times> wm) option" where
  "wifi_manager_lock_json_buffer E t s = take_mutex E Json_Mutex t s"

definition wifi_manager_unlock_json_buffer :: "esp_oracle \<Rightarrow> wm \<Rightarrow> wm" where
  "wifi_manager_unlock_json_buffer E s = act E (Sem_Give Json_Mutex) s"

definition wifi_manager_lock_sta_ip_string :: "esp_oracle \<Rightarrow> ticks \<Rightarrow> wm \<Rightarrow> (bool \<times> wm) option" where
  "wifi_manager_lock_sta_ip_string E t s = take_mutex E Sta_Ip_Mutex t s"

definition wifi_manager_unlock_sta_ip_string :: "esp_oracle \<Rightarrow> wm \<Rightarrow> wm" where
  "wifi_manager_unlock_sta_ip_string E s = act E (Sem_Give Sta_Ip_Mutex) s"

section \<open>Flash\<close>

text \<open>
  \<^verbatim>\<open>nvs_get_blob\<close> into a buffer: on success the stored bytes, at most as many as asked for,
  replace the front of the buffer; on an error the buffer keeps its contents.
\<close>

definition got_bytes :: "resp \<Rightarrow> buf option" where
  "got_bytes r = (if r_err r = ESP_OK then (case r_blob r of Bytes v \<Rightarrow> Some v | Settings v \<Rightarrow> None) else None)"

definition got_settings :: "resp \<Rightarrow> wifi_settings option" where
  "got_settings r = (if r_err r = ESP_OK then (case r_blob r of Settings v \<Rightarrow> Some v | Bytes v \<Rightarrow> None) else None)"

definition nvs_get_bytes :: "esp_oracle \<Rightarrow> string \<Rightarrow> nat \<Rightarrow> buf \<Rightarrow> wm \<Rightarrow> int \<times> buf \<times> nat \<times> wm" where
  "nvs_get_bytes E key sz b s =
     (let (r, s) = call E (Nvs_Get_Blob key sz) s in
      case got_bytes r of
        Some v \<Rightarrow> (r_err r, take sz v @ drop (length (take sz v)) b, length (take sz v), s)
      | None \<Rightarrow> (r_err r, b, sz, s))"

definition sizeof_settings :: nat where "sizeof_settings = 128"

definition nvs_get_settings :: "esp_oracle \<Rightarrow> wifi_settings \<Rightarrow> wm \<Rightarrow> int \<times> wifi_settings \<times> wm" where
  "nvs_get_settings E old s =
     (let (r, s) = call E (Nvs_Get_Blob ''settings'' sizeof_settings) s in
      case got_settings r of
        Some v \<Rightarrow> (r_err r, v, s)
      | None \<Rightarrow> (r_err r, old, s))"

section \<open>Call history\<close>

lemma calls_call [simp]: "calls (snd (call E c s)) = calls s @ [c]"
  by (simp add: call_def)

lemma calls_act [simp]: "calls (act E c s) = calls s @ [c]"
  by (simp add: act_def)

lemma call_frame [simp]:
  "mutexes (snd (call E c s)) = mutexes s" "config_sta (snd (call E c s)) = config_sta s"
  "wifi_settings_var (snd (call E c s)) = wifi_settings_var s" "queue (snd (call E c s)) = queue s"
  "bits (snd (call E c s)) = bits s" "retries (snd (call E c s)) = retries s"
  "ip_info_json (snd (call E c s)) = ip_info_json s" "sta_ip (snd (call E c s)) = sta_ip s"
  "accessp_json (snd (call E c s)) = accessp_json s" "ap_num (snd (call E c s)) = ap_num s"
  "accessp_records (snd (call E c s)) = accessp_records s" "callbacks (snd (call E c s)) = callbacks s" "wifi_handler_set (snd (call E c s)) = wifi_handler_set s"
  by (simp_all add: call_def)

lemma act_frame [simp]:
  "mutexes (act E c s) = mutexes s" "config_sta (act E c s) = config_sta s"
  "wifi_settings_var (act E c s) = wifi_settings_var s" "queue (act E c s) = queue s"
  "bits (act E c s) = bits s" "retries (act E c s) = retries s"
  "ip_info_json (act E c s) = ip_info_json s" "sta_ip (act E c s) = sta_ip s"
  "accessp_json (act E c s) = accessp_json s" "ap_num (act E c s) = ap_num s"
  "accessp_records (act E c s) = accessp_records s" "callbacks (act E c s) = callbacks s" "wifi_handler_set (act E c s) = wifi_handler_set s"
  by (simp_all add: act_def)

lemma fst_call: "fst (call E c s) = E (calls s) c"
  by (simp add: call_def)

lemma nvs_get_bytes_frame:
  "snd (snd (snd (nvs_get_bytes E k n b s))) = snd (call E (Nvs_Get_Blob k n) s)"
  "fst (nvs_get_bytes E k n b s) = r_err (E (calls s) (Nvs_Get_Blob k n))"
  by (simp_all add: nvs_get_bytes_def Let_def split_beta fst_call split: option.splits)

lemma nvs_get_settings_frame:
  "snd (snd (nvs_get_settings E v s)) = snd (call E (Nvs_Get_Blob ''settings'' sizeof_settings) s)"
  "fst (nvs_get_settings E v s) = r_err (E (calls s) (Nvs_Get_Blob ''settings'' sizeof_settings))"
  by (simp_all add: nvs_get_settings_def Let_def split_beta fst_call split: option.splits)

end
