(* ===== verification/Wifi_Nvs.thy ===== *)
theory Wifi_Nvs
  imports Wifi_State
begin

text \<open>
  Saving the station configuration to flash and fetching it at start-up
  (\<^verbatim>\<open>wifi_manager_save_sta_config\<close>, \<^verbatim>\<open>wifi_manager_fetch_wifi_sta_config\<close>), with every early
  return, and what they do to the flash mutex and the handle.
\<close>

section \<open>Saving\<close>

text \<open>The three parts; \<open>Inl\<close> is an early return with its error.\<close>

definition save_ssid :: "esp_oracle \<Rightarrow> sta_config \<Rightarrow> wm \<Rightarrow> int \<times> wm + bool \<times> sta_config \<times> wm" where
  "save_ssid E cfg s =
     (let (err, b, sz, s) = nvs_get_bytes E ''ssid'' 32 (cfg_ssid zero_config) s;
          tmp_conf = zero_config\<lparr>cfg_ssid := b\<rparr>
      in if (err = ESP_OK \<or> err = ESP_ERR_NVS_NOT_FOUND) \<and> cstr (sta_ssid_ptr tmp_conf) \<noteq> cstr (sta_ssid_ptr cfg)
         then (let (r, s) = call E (Nvs_Set_Blob ''ssid'' (Bytes (take 32 (cfg_ssid cfg)))) s in
               if r_err r \<noteq> ESP_OK then Inl (r_err r, nvs_sync_unlock E s) else Inr (True, tmp_conf, s))
         else Inr (False, tmp_conf, s))"

definition save_password ::
    "esp_oracle \<Rightarrow> sta_config \<Rightarrow> bool \<Rightarrow> sta_config \<Rightarrow> wm \<Rightarrow> int \<times> wm + bool \<times> wm" where
  "save_password E cfg change tmp_conf s =
     (let (err, b, sz, s) = nvs_get_bytes E ''password'' 64 (cfg_password tmp_conf) s;
          tmp_conf = tmp_conf\<lparr>cfg_password := b\<rparr>
      in if (err = ESP_OK \<or> err = ESP_ERR_NVS_NOT_FOUND)
            \<and> cstr (sta_password_ptr tmp_conf) \<noteq> cstr (sta_password_ptr cfg)
         then (let (r, s) = call E (Nvs_Set_Blob ''password'' (Bytes (take 64 (cfg_password cfg)))) s in
               if r_err r \<noteq> ESP_OK then Inl (r_err r, nvs_sync_unlock E s) else Inr (True, s))
         else Inr (change, s))"

text \<open>The settings' names are adjacent arrays, read with \<^verbatim>\<open>strcmp\<close> as the station's are.\<close>

definition settings_differ :: "wifi_settings \<Rightarrow> wifi_settings \<Rightarrow> bool" where
  "settings_differ a b \<longleftrightarrow>
     cstr (set_ap_ssid a @ set_ap_pwd a @ [NUL]) \<noteq> cstr (set_ap_ssid b @ set_ap_pwd b @ [NUL])
     \<or> cstr (set_ap_pwd a @ [NUL]) \<noteq> cstr (set_ap_pwd b @ [NUL])
     \<or> set_ap_ssid_hidden a \<noteq> set_ap_ssid_hidden b \<or> set_ap_bandwidth a \<noteq> set_ap_bandwidth b
     \<or> set_sta_only a \<noteq> set_sta_only b \<or> set_sta_power_save a \<noteq> set_sta_power_save b
     \<or> set_ap_channel a \<noteq> set_ap_channel b"

definition save_settings ::
    "esp_oracle \<Rightarrow> bool \<Rightarrow> wm \<Rightarrow> int \<times> wm + bool \<times> int \<times> wm" where
  "save_settings E change s =
     (let (err, tmp_settings, s) = nvs_get_settings E zero_settings s in
      if (err = ESP_OK \<or> err = ESP_ERR_NVS_NOT_FOUND) \<and> settings_differ tmp_settings (wifi_settings_var s)
      then (let (r, s) = call E (Nvs_Set_Blob ''settings'' (Settings (wifi_settings_var s))) s in
            if r_err r \<noteq> ESP_OK then Inl (r_err r, nvs_sync_unlock E s) else Inr (True, r_err r, s))
      else Inr (change, err, s))"

definition save_finish :: "esp_oracle \<Rightarrow> bool \<Rightarrow> int \<Rightarrow> wm \<Rightarrow> int \<times> wm" where
  "save_finish E change err s =
     (let (err, s) = (if change then (let (r, s) = call E Nvs_Commit s in (r_err r, s)) else (err, s)) in
      if err \<noteq> ESP_OK then (err, s)
      else (ESP_OK, nvs_sync_unlock E (act E Nvs_Close s)))"

definition save_locked :: "esp_oracle \<Rightarrow> sta_config \<Rightarrow> wm \<Rightarrow> int \<times> wm" where
  "save_locked E cfg s =
     (let (r, s) = call E (Nvs_Open True) s in
      if r_err r \<noteq> ESP_OK then (r_err r, nvs_sync_unlock E s)
      else case save_ssid E cfg s of
             Inl res \<Rightarrow> res
           | Inr (change, tmp_conf, s) \<Rightarrow>
               (case save_password E cfg change tmp_conf s of
                  Inl res \<Rightarrow> res
                | Inr (change, s) \<Rightarrow>
                    (case save_settings E change s of
                       Inl res \<Rightarrow> res
                     | Inr (change, err, s) \<Rightarrow> save_finish E change err s)))"

definition wifi_manager_save_sta_config :: "esp_oracle \<Rightarrow> wm \<Rightarrow> (int \<times> wm) option" where
  "wifi_manager_save_sta_config E s =
     (case config_sta s of
        None \<Rightarrow> Some (ESP_OK, s)
      | Some cfg \<Rightarrow> do {
          (ok, s) \<leftarrow> nvs_sync_lock E None s;
          if ok then Some (save_locked E cfg s) else Some (ESP_OK, s)
        })"

section \<open>Fetching\<close>

definition fetch_locked :: "esp_oracle \<Rightarrow> wm \<Rightarrow> bool \<times> wm" where
  "fetch_locked E s =
     (let (r, s) = call E (Nvs_Open False) s in
      if r_err r \<noteq> ESP_OK then (False, nvs_sync_unlock E s)
      else
        (let cfg = zero_config;
             s = s\<lparr>config_sta := Some cfg\<rparr>;
             (err, b, sz, s) = nvs_get_bytes E ''ssid'' 32 (replicate sizeof_settings NUL) s
         in if err \<noteq> ESP_OK then (False, nvs_sync_unlock E s)
            else
              (let cfg = cfg\<lparr>cfg_ssid := take sz b @ drop sz (cfg_ssid cfg)\<rparr>;
                   s = s\<lparr>config_sta := Some cfg\<rparr>;
                   (err, b, sz, s) = nvs_get_bytes E ''password'' 64 b s
               in if err \<noteq> ESP_OK then (False, nvs_sync_unlock E s)
                  else
                    (let cfg = cfg\<lparr>cfg_password := take sz b @ drop sz (cfg_password cfg)\<rparr>;
                         s = s\<lparr>config_sta := Some cfg\<rparr>;
                         (err, v, s) = nvs_get_settings E (wifi_settings_var s) s
                     in if err \<noteq> ESP_OK then (False, nvs_sync_unlock E s)
                        else
                          (let s = s\<lparr>wifi_settings_var := v\<rparr>;
                               s = nvs_sync_unlock E (act E Nvs_Close s)
                           in (cfg_ssid cfg ! 0 \<noteq> NUL, s))))))"

definition wifi_manager_fetch_wifi_sta_config :: "esp_oracle \<Rightarrow> wm \<Rightarrow> (bool \<times> wm) option" where
  "wifi_manager_fetch_wifi_sta_config E s = do {
     (ok, s) \<leftarrow> nvs_sync_lock E None s;
     if ok then Some (fetch_locked E s) else Some (False, s)
   }"

section \<open>The flash mutex\<close>

text \<open>How often a mutex is taken and not given back in a history of calls.\<close>

fun taken :: "esp_oracle \<Rightarrow> mutex \<Rightarrow> esp_call list \<Rightarrow> esp_call list \<Rightarrow> int" where
  "taken E m h [] = 0"
| "taken E m h (c # cs) =
     (case c of
        Sem_Take m' t \<Rightarrow> of_bool (m' = m \<and> \<not> r_blocks (E h c) \<and> r_flag (E h c))
      | Sem_Give m' \<Rightarrow> - of_bool (m' = m)
      | _ \<Rightarrow> 0) + taken E m (h @ [c]) cs"

definition held :: "esp_oracle \<Rightarrow> mutex \<Rightarrow> wm \<Rightarrow> int" where
  "held E m s = taken E m [] (calls s)"

lemma taken_append: "taken E m h (xs @ ys) = taken E m h xs + taken E m (h @ xs) ys"
  by (induction xs arbitrary: h) auto

lemma held_call:
  "held E m (snd (call E c s)) = held E m s +
     (case c of
        Sem_Take m' t \<Rightarrow> of_bool (m' = m \<and> \<not> r_blocks (fst (call E c s)) \<and> r_flag (fst (call E c s)))
      | Sem_Give m' \<Rightarrow> - of_bool (m' = m)
      | _ \<Rightarrow> 0)"
  by (simp add: held_def call_def taken_append split: esp_call.splits)

lemma held_update [simp]:
  "held E m (s\<lparr>queue := q\<rparr>) = held E m s" "held E m (s\<lparr>bits := b\<rparr>) = held E m s"
  "held E m (s\<lparr>retries := r\<rparr>) = held E m s" "held E m (s\<lparr>ap_num := n\<rparr>) = held E m s"
  "held E m (s\<lparr>accessp_records := l\<rparr>) = held E m s" "held E m (s\<lparr>accessp_json := j\<rparr>) = held E m s"
  "held E m (s\<lparr>ip_info_json := j\<rparr>) = held E m s" "held E m (s\<lparr>sta_ip := j\<rparr>) = held E m s"
  "held E m (s\<lparr>config_sta := k\<rparr>) = held E m s" "held E m (s\<lparr>wifi_settings_var := v\<rparr>) = held E m s"
  "held E m (s\<lparr>callbacks := cb\<rparr>) = held E m s" "held E m (s\<lparr>mutexes := mt\<rparr>) = held E m s"
  by (simp_all add: held_def)

lemmas held_steps = held_call act_def nvs_sync_unlock_def nvs_get_bytes_frame nvs_get_settings_frame fst_call

text \<open>Where a part of the saving leaves the mutex: an early return gives it back.\<close>

definition part_done :: "esp_oracle \<Rightarrow> wm \<Rightarrow> wm \<Rightarrow> bool" where
  "part_done E s s' \<longleftrightarrow> held E Nvs_Mutex s' = held E Nvs_Mutex s \<and> mutexes s' = mutexes s \<and> config_sta s' = config_sta s"

definition part_failed :: "esp_oracle \<Rightarrow> wm \<Rightarrow> int \<times> wm \<Rightarrow> bool" where
  "part_failed E s res \<longleftrightarrow> fst res \<noteq> ESP_OK \<and> last (calls (snd res)) = Sem_Give Nvs_Mutex
     \<and> held E Nvs_Mutex (snd res) = held E Nvs_Mutex s - 1
     \<and> mutexes (snd res) = mutexes s \<and> config_sta (snd res) = config_sta s"

lemma save_ssid_mutex:
  "case save_ssid E cfg s of Inl res \<Rightarrow> part_failed E s res | Inr (change, tmp, s') \<Rightarrow> part_done E s s'"
  by (simp add: save_ssid_def Let_def split_beta part_failed_def part_done_def held_steps)

lemma save_password_mutex:
  "case save_password E cfg change tmp s of Inl res \<Rightarrow> part_failed E s res | Inr (change, s') \<Rightarrow> part_done E s s'"
  by (simp add: save_password_def Let_def split_beta part_failed_def part_done_def held_steps)

lemma save_settings_mutex:
  "case save_settings E change s of Inl res \<Rightarrow> part_failed E s res
     | Inr (change, err, s') \<Rightarrow> part_done E s s'
         \<and> (err \<noteq> ESP_OK \<longrightarrow> last (calls s') = Nvs_Get_Blob ''settings'' sizeof_settings)"
  by (simp add: save_settings_def Let_def split_beta part_failed_def part_done_def held_steps)

text \<open>The whole: only a failing commit, or a failing read of the settings, keeps the mutex.\<close>

definition keeps_mutex :: "int \<times> wm \<Rightarrow> bool" where
  "keeps_mutex res \<longleftrightarrow> fst res \<noteq> ESP_OK
     \<and> last (calls (snd res)) \<in> {Nvs_Commit, Nvs_Get_Blob ''settings'' sizeof_settings}"

definition save_outcome :: "esp_oracle \<Rightarrow> wm \<Rightarrow> int \<times> wm \<Rightarrow> bool" where
  "save_outcome E s res \<longleftrightarrow>
     held E Nvs_Mutex (snd res) = held E Nvs_Mutex s - of_bool (\<not> keeps_mutex res)
     \<and> mutexes (snd res) = mutexes s \<and> config_sta (snd res) = config_sta s"

lemma part_failed_outcome: "part_failed E s' res \<Longrightarrow> part_done E s s' \<Longrightarrow> save_outcome E s res"
  by (simp add: part_failed_def part_done_def save_outcome_def keeps_mutex_def)

lemma save_finish_outcome:
  assumes "err \<noteq> ESP_OK \<longrightarrow> last (calls s) = Nvs_Get_Blob ''settings'' sizeof_settings"
  shows "save_outcome E s (save_finish E change err s)"
  using assms
  by (simp add: save_finish_def Let_def split_beta save_outcome_def keeps_mutex_def held_steps)

lemma part_done_trans: "part_done E s s' \<Longrightarrow> part_done E s' s'' \<Longrightarrow> part_done E s s''"
  by (simp add: part_done_def)

lemma save_outcome_trans: "part_done E s s' \<Longrightarrow> save_outcome E s' res \<Longrightarrow> save_outcome E s res"
  by (simp add: part_done_def save_outcome_def)

lemma save_locked_outcome: "save_outcome E s (save_locked E cfg s)"
proof -
  let ?s1 = "snd (call E (Nvs_Open True) s)"
  have s1: "part_done E s ?s1" by (simp add: part_done_def held_call)
  show ?thesis
  proof (cases "r_err (fst (call E (Nvs_Open True) s)) = ESP_OK")
    case False
    then show ?thesis
      by (simp add: save_locked_def Let_def split_beta save_outcome_def keeps_mutex_def held_steps)
  next
    case opened: True
    show ?thesis
    proof (cases "save_ssid E cfg ?s1")
      case (Inl res)
      then show ?thesis
        using save_ssid_mutex [of E ?s1 cfg] opened part_failed_outcome [OF _ s1, of res]
        by (simp add: save_locked_def split_beta)
    next
      case (Inr r2)
      then obtain ch2 tmp s2 where 2: "save_ssid E cfg ?s1 = Inr (ch2, tmp, s2)" by (cases r2) auto
      then have s2: "part_done E s s2"
        using save_ssid_mutex [of E ?s1 cfg] part_done_trans [OF s1] by simp
      show ?thesis
      proof (cases "save_password E cfg ch2 tmp s2")
        case (Inl res)
        then show ?thesis
          using save_password_mutex [of E s2 cfg ch2 tmp] opened 2 part_failed_outcome [OF _ s2, of res]
          by (simp add: save_locked_def split_beta)
      next
        case (Inr r3)
        then obtain ch3 s3 where 3: "save_password E cfg ch2 tmp s2 = Inr (ch3, s3)" by (cases r3) auto
        then have s3: "part_done E s s3"
          using save_password_mutex [of E s2 cfg ch2 tmp] part_done_trans [OF s2] by simp
        show ?thesis
        proof (cases "save_settings E ch3 s3")
          case (Inl res)
          then show ?thesis
            using save_settings_mutex [of E s3 ch3] opened 2 3 part_failed_outcome [OF _ s3, of res]
            by (simp add: save_locked_def split_beta)
        next
          case (Inr r4)
          then obtain ch4 err s4 where 4: "save_settings E ch3 s3 = Inr (ch4, err, s4)" by (cases r4) auto
          then have "part_done E s s4" and "save_outcome E s4 (save_finish E ch4 err s4)"
            using save_settings_mutex [of E s3 ch3] part_done_trans [OF s3] save_finish_outcome by simp_all
          then have "save_outcome E s (save_finish E ch4 err s4)" by (rule save_outcome_trans)
          with opened 2 3 4 show ?thesis by (simp add: save_locked_def split_beta)
        qed
      qed
    qed
  qed
qed

lemma save_mutex_outcome:
  assumes "wifi_manager_save_sta_config E s = Some (err, s')"
  shows "held E Nvs_Mutex s' = held E Nvs_Mutex s + of_bool (keeps_mutex (err, s'))
    \<and> config_sta s' = config_sta s \<and> (keeps_mutex (err, s') \<longrightarrow> Nvs_Mutex \<in> mutexes s' \<and> config_sta s \<noteq> None)"
proof (cases "config_sta s")
  case None
  with assms show ?thesis by (simp add: wifi_manager_save_sta_config_def keeps_mutex_def)
next
  case (Some cfg)
  let ?r = "call E (Sem_Take Nvs_Mutex None) s"
  show ?thesis
  proof (cases "Nvs_Mutex \<in> mutexes s \<and> r_flag (fst ?r)")
    case False
    with assms Some show ?thesis
      by (auto simp: wifi_manager_save_sta_config_def nvs_sync_lock_def take_mutex_def split_beta Let_def
          keeps_mutex_def held_call split: if_splits)
  next
    case True
    with assms Some have res: "save_locked E cfg (snd ?r) = (err, s')" and "\<not> r_blocks (fst ?r)"
      by (auto simp: wifi_manager_save_sta_config_def nvs_sync_lock_def take_mutex_def split_beta Let_def split: if_splits)
    then have "held E Nvs_Mutex (snd ?r) = held E Nvs_Mutex s + 1"
      using True by (simp add: held_call)
    then show ?thesis
      using save_locked_outcome [of E "snd ?r" cfg] True Some unfolding res save_outcome_def by simp
  qed
qed

text \<open>
  \<^verbatim>\<open>wifi_manager_save_sta_config\<close> gives the flash mutex back on every path but two: when the
  commit fails, and when the stored settings cannot be read, it returns with the mutex taken.
\<close>

theorem save_sta_config_mutex:
  assumes "wifi_manager_save_sta_config E s = Some (err, s')"
  shows "held E Nvs_Mutex s' = held E Nvs_Mutex s + of_bool (err \<noteq> ESP_OK
     \<and> (last (calls s') = Nvs_Commit \<or> last (calls s') = Nvs_Get_Blob ''settings'' sizeof_settings))"
  using save_mutex_outcome [OF assms] by (auto simp: keeps_mutex_def)

text \<open>A bench: flash that holds nothing and whose commit fails.\<close>

definition bench_resp :: resp where
  "bench_resp = \<lparr>r_err = ESP_OK, r_flag = True, r_blocks = False, r_blob = Bytes [], r_aps = [], r_ips = (0, 0, 0), r_text = ''0.0.0.0''\<rparr>"

definition commit_fails :: esp_oracle where
  "commit_fails h c =
     (case c of Nvs_Get_Blob k n \<Rightarrow> bench_resp\<lparr>r_err := ESP_ERR_NVS_NOT_FOUND\<rparr>
      | Nvs_Commit \<Rightarrow> bench_resp\<lparr>r_err := ESP_FAIL\<rparr>
      | Sem_Take m t \<Rightarrow> bench_resp\<lparr>r_blocks := (m = Nvs_Mutex \<and> h \<noteq> [])\<rparr>
      | _ \<Rightarrow> bench_resp)"

definition bench_wm :: wm where
  "bench_wm = \<lparr>calls = [], queue = [], bits = {}, retries = 0, ap_num = 0, accessp_records = [],
     accessp_json = replicate 1489 NUL, ip_info_json = replicate 159 NUL, sta_ip = replicate 16 NUL,
     config_sta = Some \<lparr>cfg_ssid = ''lab'' @ NUL # replicate 28 NUL, cfg_password = ''secret12'' @ NUL # replicate 55 NUL\<rparr>,
     wifi_settings_var = zero_settings\<lparr>set_ap_ssid := ''esp32'' @ NUL # replicate 26 NUL\<rparr>,
     mutexes = {Nvs_Mutex, Json_Mutex, Sta_Ip_Mutex}, callbacks = {}, wifi_handler_set = True\<rparr>"

lemma cstr_zeros [simp]: "0 < n \<Longrightarrow> cstr (replicate n NUL @ x) = []" "cstr (replicate n NUL) = []"
  by (cases n; simp add: cstr_def)+

lemma cstr_Cons: "cstr (c # s) = (if c = NUL then [] else c # cstr s)"
  by (simp add: cstr_def)

text \<open>The calls of the save whose commit fails.\<close>

definition failed_save_calls :: "esp_call list" where
  "failed_save_calls =
     [Sem_Take Nvs_Mutex None, Nvs_Open True,
      Nvs_Get_Blob ''ssid'' 32, Nvs_Set_Blob ''ssid'' (Bytes (cfg_ssid (the (config_sta bench_wm)))),
      Nvs_Get_Blob ''password'' 64, Nvs_Set_Blob ''password'' (Bytes (cfg_password (the (config_sta bench_wm)))),
      Nvs_Get_Blob ''settings'' sizeof_settings, Nvs_Set_Blob ''settings'' (Settings (wifi_settings_var bench_wm)),
      Nvs_Commit]"

lemma failed_save:
  "wifi_manager_save_sta_config commit_fails bench_wm = Some (ESP_FAIL, bench_wm\<lparr>calls := failed_save_calls\<rparr>)"
  by (simp add: wifi_manager_save_sta_config_def nvs_sync_lock_def take_mutex_def save_locked_def save_ssid_def
      save_password_def save_settings_def save_finish_def nvs_get_bytes_def nvs_get_settings_def got_bytes_def got_settings_def
      call_def commit_fails_def bench_resp_def bench_wm_def failed_save_calls_def zero_config_def zero_settings_def
      sta_ssid_ptr_def sta_password_ptr_def settings_differ_def cstr_Cons)

theorem save_sta_config_mutex_witness:
  fixes s' :: wm
  defines "s' \<equiv> bench_wm\<lparr>calls := failed_save_calls\<rparr>"
  shows "held commit_fails Nvs_Mutex s' = held commit_fails Nvs_Mutex bench_wm + of_bool (ESP_FAIL \<noteq> ESP_OK
     \<and> (last (calls s') = Nvs_Commit \<or> last (calls s') = Nvs_Get_Blob ''settings'' sizeof_settings))"
  by (rule save_sta_config_mutex) (simp add: s'_def failed_save)

text \<open>A mutex is not recursive: taking it again without time limit does not return.\<close>

definition mutex_blocks :: "esp_oracle \<Rightarrow> bool" where
  "mutex_blocks E \<longleftrightarrow> (\<forall>h. 0 < taken E Nvs_Mutex [] h \<longrightarrow> r_blocks (E h (Sem_Take Nvs_Mutex None)))"

lemma nvs_lock_blocks:
  assumes "mutex_blocks E" "0 < held E Nvs_Mutex s" "Nvs_Mutex \<in> mutexes s"
  shows "nvs_sync_lock E None s = None"
  using assms by (simp add: nvs_sync_lock_def take_mutex_def split_beta fst_call mutex_blocks_def held_def)

text \<open>A state in which the flash mutex is held and there is a configuration: nobody gives the mutex back.\<close>

definition nvs_stuck :: "esp_oracle \<Rightarrow> wm \<Rightarrow> bool" where
  "nvs_stuck E s \<longleftrightarrow> 0 < held E Nvs_Mutex s \<and> Nvs_Mutex \<in> mutexes s \<and> config_sta s \<noteq> None"

lemma stuck_blocks:
  assumes "mutex_blocks E" "nvs_stuck E s"
  shows "wifi_manager_save_sta_config E s = None" "wifi_manager_fetch_wifi_sta_config E s = None"
proof -
  have "nvs_sync_lock E None s = None"
    using assms(2) nvs_lock_blocks [OF assms(1)] by (simp add: nvs_stuck_def)
  then show "wifi_manager_save_sta_config E s = None" "wifi_manager_fetch_wifi_sta_config E s = None"
    using assms(2) by (auto simp: wifi_manager_save_sta_config_def wifi_manager_fetch_wifi_sta_config_def nvs_stuck_def)
qed

lemma failed_save_stuck:
  assumes "wifi_manager_save_sta_config E s = Some (err, s')" "0 \<le> held E Nvs_Mutex s" "keeps_mutex (err, s')"
  shows "nvs_stuck E s'"
  using save_mutex_outcome [OF assms(1)] assms(2,3) by (auto simp: nvs_stuck_def)

lemma commit_fails_blocks: "mutex_blocks commit_fails"
  unfolding mutex_blocks_def
proof (intro allI impI)
  fix h
  assume "0 < taken commit_fails Nvs_Mutex [] h"
  then have "h \<noteq> []" by auto
  then show "r_blocks (commit_fails h (Sem_Take Nvs_Mutex None))" by (simp add: commit_fails_def)
qed

section \<open>What is saved is fetched\<close>

text \<open>The key-value store behind the calls, from the contents \<open>st\<close> the flash had at first.\<close>

fun flash_step :: "(string \<rightharpoonup> blob) \<Rightarrow> esp_call \<Rightarrow> (string \<rightharpoonup> blob)" where
  "flash_step st (Nvs_Set_Blob k v) = st(k \<mapsto> v)"
| "flash_step st c = st"

definition flash :: "(string \<rightharpoonup> blob) \<Rightarrow> esp_call list \<Rightarrow> (string \<rightharpoonup> blob)" where
  "flash st h = foldl flash_step st h"

lemma flash_append [simp]: "flash st (h @ cs) = foldl flash_step (flash st h) cs"
  by (simp add: flash_def)

definition nvs_works :: "esp_oracle \<Rightarrow> (string \<rightharpoonup> blob) \<Rightarrow> bool" where
  "nvs_works E st \<longleftrightarrow>
     (\<forall>h. (\<forall>rw. r_err (E h (Nvs_Open rw)) = ESP_OK) \<and> r_err (E h Nvs_Commit) = ESP_OK
        \<and> (\<forall>k v. r_err (E h (Nvs_Set_Blob k v)) = ESP_OK)
        \<and> (\<forall>k n. case flash st h k of
               None \<Rightarrow> r_err (E h (Nvs_Get_Blob k n)) = ESP_ERR_NVS_NOT_FOUND
             | Some v \<Rightarrow> r_err (E h (Nvs_Get_Blob k n)) = ESP_OK \<and> r_blob (E h (Nvs_Get_Blob k n)) = v)
        \<and> (\<forall>t. r_flag (E h (Sem_Take Nvs_Mutex t)) \<and> (r_blocks (E h (Sem_Take Nvs_Mutex t)) \<longleftrightarrow> 0 < taken E Nvs_Mutex [] h)))"

text \<open>Stored names, passwords and settings have the sizes of their arrays.\<close>

definition flash_ok :: "(string \<rightharpoonup> blob) \<Rightarrow> bool" where
  "flash_ok st \<longleftrightarrow>
     (case st ''ssid'' of None \<Rightarrow> True | Some v \<Rightarrow> (case v of Bytes b \<Rightarrow> length b = 32 | Settings x \<Rightarrow> False))
     \<and> (case st ''password'' of None \<Rightarrow> True | Some v \<Rightarrow> (case v of Bytes b \<Rightarrow> length b = 64 | Settings x \<Rightarrow> False))
     \<and> (case st ''settings'' of None \<Rightarrow> True | Some v \<Rightarrow> (case v of Bytes b \<Rightarrow> False | Settings x \<Rightarrow> True))"

lemma get_bytes_works:
  assumes "nvs_works E st"
  shows "nvs_get_bytes E k n b s =
    (case flash st (calls s) k of
       Some (Bytes v) \<Rightarrow> (ESP_OK, take n v @ drop (length (take n v)) b, length (take n v), snd (call E (Nvs_Get_Blob k n) s))
     | Some (Settings v) \<Rightarrow> (ESP_OK, b, n, snd (call E (Nvs_Get_Blob k n) s))
     | None \<Rightarrow> (ESP_ERR_NVS_NOT_FOUND, b, n, snd (call E (Nvs_Get_Blob k n) s)))"
proof -
  have "case flash st (calls s) k of
               None \<Rightarrow> r_err (E (calls s) (Nvs_Get_Blob k n)) = ESP_ERR_NVS_NOT_FOUND
             | Some v \<Rightarrow> r_err (E (calls s) (Nvs_Get_Blob k n)) = ESP_OK \<and> r_blob (E (calls s) (Nvs_Get_Blob k n)) = v"
    using assms unfolding nvs_works_def by blast
  then show ?thesis
    by (cases "flash st (calls s) k")
      (auto simp: nvs_get_bytes_def Let_def split_beta fst_call got_bytes_def split: blob.split)
qed

lemma get_settings_works:
  assumes "nvs_works E st"
  shows "nvs_get_settings E old s =
    (case flash st (calls s) ''settings'' of
       Some (Settings v) \<Rightarrow> (ESP_OK, v, snd (call E (Nvs_Get_Blob ''settings'' sizeof_settings) s))
     | Some (Bytes v) \<Rightarrow> (ESP_OK, old, snd (call E (Nvs_Get_Blob ''settings'' sizeof_settings) s))
     | None \<Rightarrow> (ESP_ERR_NVS_NOT_FOUND, old, snd (call E (Nvs_Get_Blob ''settings'' sizeof_settings) s)))"
proof -
  have "case flash st (calls s) ''settings'' of
               None \<Rightarrow> r_err (E (calls s) (Nvs_Get_Blob ''settings'' sizeof_settings)) = ESP_ERR_NVS_NOT_FOUND
             | Some v \<Rightarrow> r_err (E (calls s) (Nvs_Get_Blob ''settings'' sizeof_settings)) = ESP_OK
                 \<and> r_blob (E (calls s) (Nvs_Get_Blob ''settings'' sizeof_settings)) = v"
    using assms unfolding nvs_works_def by blast
  then show ?thesis
    by (cases "flash st (calls s) ''settings''")
      (auto simp: nvs_get_settings_def Let_def split_beta fst_call got_settings_def split: blob.split)
qed

text \<open>Two arrays whose strings, read on into the next member, agree.\<close>

lemma cstr_append: "cstr (a @ x) = (if NUL \<in> set a then cstr a else a @ cstr x)"
  by (induction a) (auto simp: cstr_def)

lemma length_cstr_less: "NUL \<in> set a \<Longrightarrow> length (cstr a) < length a"
  by (induction a) (auto simp: cstr_def)

lemma cstr_prefix_eq:
  assumes "length a = length b" "cstr (a @ x) = cstr (b @ y)"
  shows "cstr a = cstr b"
  using assms length_cstr_less [of a] length_cstr_less [of b]
  by (auto simp: cstr_append split: if_splits) (metis length_append not_add_less1)+

definition saved_as :: "(string \<rightharpoonup> blob) \<Rightarrow> string \<Rightarrow> buf \<Rightarrow> bool" where
  "saved_as st k b \<longleftrightarrow> (\<exists>v. st k = Some (Bytes v) \<and> length v = length b \<and> cstr v = cstr b)"

lemma save_ssid_works:
  assumes w: "nvs_works E st" and ok: "flash_ok (flash st (calls s))"
    and len: "length (cfg_ssid cfg) = 32" and ne: "cstr (cfg_ssid cfg) \<noteq> []"
  shows "\<exists>ch tmp s'. save_ssid E cfg s = Inr (ch, tmp, s') \<and> cfg_password tmp = replicate 64 NUL
    \<and> saved_as (flash st (calls s')) ''ssid'' (cfg_ssid cfg)
    \<and> (\<forall>k. k \<noteq> ''ssid'' \<longrightarrow> flash st (calls s') k = flash st (calls s) k)
    \<and> wifi_settings_var s' = wifi_settings_var s"
proof -
  let ?g = "Nvs_Get_Blob ''ssid'' 32" and ?set = "Nvs_Set_Blob ''ssid'' (Bytes (take 32 (cfg_ssid cfg)))"
  have set: "r_err (E h ?set) = ESP_OK" for h using w by (simp add: nvs_works_def)
  have zero: "cstr (replicate n NUL) = []" for n by (cases n) (simp_all add: cstr_def)
  show ?thesis
  proof (cases "flash st (calls s) ''ssid''")
    case None
    then have "cstr (sta_ssid_ptr zero_config) \<noteq> cstr (sta_ssid_ptr cfg)"
      using ne by (auto simp: sta_ssid_ptr_def zero_config_def cstr_append zero)
    then have "save_ssid E cfg s = Inr (True, zero_config, snd (call E ?set (snd (call E ?g s))))"
      using None set len by (simp add: save_ssid_def get_bytes_works [OF w] split_beta Let_def fst_call zero_config_def)
    then show ?thesis using None len by (auto simp: saved_as_def zero_config_def)
  next
    case (Some v)
    then obtain b where b: "v = Bytes b" "length b = 32"
      using ok by (auto simp: flash_ok_def split: blob.splits)
    then have same: "cstr (sta_ssid_ptr (zero_config\<lparr>cfg_ssid := b\<rparr>)) = cstr (sta_ssid_ptr cfg) \<Longrightarrow> cstr b = cstr (cfg_ssid cfg)"
      using cstr_prefix_eq [of b "cfg_ssid cfg" "cfg_password zero_config @ [NUL]" "cfg_password cfg @ [NUL]"] len
      by (simp add: sta_ssid_ptr_def)
    show ?thesis
      using Some b set len same
      by (auto simp: save_ssid_def get_bytes_works [OF w] split_beta Let_def fst_call saved_as_def zero_config_def)
  qed
qed


lemma save_settings_works:
  assumes w: "nvs_works E st" and ok: "flash_ok (flash st (calls s))"
    and ne: "settings_differ zero_settings (wifi_settings_var s) \<or> flash st (calls s) ''settings'' \<noteq> None"
  shows "\<exists>ch' s' v. save_settings E ch s = Inr (ch', ESP_OK, s')
    \<and> flash st (calls s') ''settings'' = Some (Settings v) \<and> \<not> settings_differ v (wifi_settings_var s)
    \<and> (\<forall>k. k \<noteq> ''settings'' \<longrightarrow> flash st (calls s') k = flash st (calls s) k)"
proof -
  let ?g = "Nvs_Get_Blob ''settings'' sizeof_settings" and ?set = "Nvs_Set_Blob ''settings'' (Settings (wifi_settings_var s))"
  have set: "r_err (E h ?set) = ESP_OK" for h using w by (simp add: nvs_works_def)
  have refl: "\<not> settings_differ v v" for v by (simp add: settings_differ_def)
  show ?thesis
  proof (cases "flash st (calls s) ''settings''")
    case None
    then have "save_settings E ch s = Inr (True, ESP_OK, snd (call E ?set (snd (call E ?g s))))"
      using set ne by (simp add: save_settings_def get_settings_works [OF w] split_beta Let_def fst_call)
    then show ?thesis using refl by auto
  next
    case (Some v)
    then obtain b where b: "v = Settings b" using ok by (auto simp: flash_ok_def split: blob.splits)
    show ?thesis
      using Some b set refl
      by (auto simp: save_settings_def get_settings_works [OF w] split_beta Let_def fst_call)
  qed
qed





text \<open>A bench: flash that works and is empty at first, and a mutex that works.\<close>

fun lock_step :: "int \<Rightarrow> esp_call \<Rightarrow> int" where
  "lock_step n (Sem_Take m t) = (if m = Nvs_Mutex \<and> n \<le> 0 then n + 1 else n)"
| "lock_step n (Sem_Give m) = (if m = Nvs_Mutex then n - 1 else n)"
| "lock_step n c = n"

definition flash_bench :: "(string \<rightharpoonup> blob) \<Rightarrow> esp_oracle" where
  "flash_bench st h c =
     (case c of
        Nvs_Get_Blob k n \<Rightarrow> (case flash st h k of
            None \<Rightarrow> bench_resp\<lparr>r_err := ESP_ERR_NVS_NOT_FOUND\<rparr> | Some v \<Rightarrow> bench_resp\<lparr>r_blob := v\<rparr>)
      | Sem_Take m t \<Rightarrow> bench_resp\<lparr>r_blocks := (m = Nvs_Mutex \<and> 0 < foldl lock_step 0 h)\<rparr>
      | _ \<Rightarrow> bench_resp)"

lemma taken_flash_bench: "taken (flash_bench st) Nvs_Mutex [] h = foldl lock_step 0 h"
proof (induction h rule: rev_induct)
  case Nil
  then show ?case by simp
next
  case (snoc c h)
  then show ?case
    by (cases c) (auto simp: taken_append flash_bench_def bench_resp_def)
qed

lemma flash_bench_works: "nvs_works (flash_bench st) st"
  unfolding nvs_works_def taken_flash_bench
  by (auto simp: flash_bench_def bench_resp_def split: option.split)


text \<open>
  An open network is not restored: on empty flash, saving a configuration with an empty
  password returns without error but stores no password, and the next start finds no configuration.
\<close>

theorem open_network_not_restored:
  assumes "nvs_works E st" "flash st (calls s) = Map.empty" "held E Nvs_Mutex s \<le> 0" "Nvs_Mutex \<in> mutexes s"
    and "config_sta s = Some cfg" "length (cfg_ssid cfg) = 32" "cstr (cfg_ssid cfg) \<noteq> []" "cstr (cfg_password cfg) = []"
    and "length (cfg_password cfg) = 64" "settings_differ zero_settings (wifi_settings_var s)"
  shows "\<exists>s1. wifi_manager_save_sta_config E s = Some (ESP_OK, s1)
    \<and> map_option fst (wifi_manager_fetch_wifi_sta_config E (s1\<lparr>config_sta := None\<rparr>)) = Some False"
proof -
  note w = assms(1)
  let ?r = "call E (Sem_Take Nvs_Mutex None) s"
  let ?s1 = "snd (call E (Nvs_Open True) (snd ?r))"
  have lock: "nvs_sync_lock E None x = Some (True, snd (call E (Sem_Take Nvs_Mutex None) x))"
    if "held E Nvs_Mutex x \<le> 0" "Nvs_Mutex \<in> mutexes x" for x
    using w that by (simp add: nvs_sync_lock_def take_mutex_def split_beta fst_call nvs_works_def held_def)
  have op: "r_err (E h (Nvs_Open b)) = ESP_OK" and co: "r_err (E h Nvs_Commit) = ESP_OK" for h b
    using w unfolding nvs_works_def by blast+
  obtain ch2 tmp s2 where 2: "save_ssid E cfg ?s1 = Inr (ch2, tmp, s2)" "cfg_password tmp = replicate 64 NUL"
      "saved_as (flash st (calls s2)) ''ssid'' (cfg_ssid cfg)"
      "\<forall>k. k \<noteq> ''ssid'' \<longrightarrow> flash st (calls s2) k = None" "wifi_settings_var s2 = wifi_settings_var s"
    using save_ssid_works [OF w _ assms(6,7), of ?s1] assms(2) by (auto simp: flash_ok_def)
  let ?s3 = "snd (call E (Nvs_Get_Blob ''password'' 64) s2)"
  have "cstr (sta_password_ptr (tmp\<lparr>cfg_password := replicate 64 NUL\<rparr>)) = cstr (sta_password_ptr cfg)"
  proof -
    have "cfg_password cfg \<noteq> []" "cfg_password cfg ! 0 = NUL" using assms(8,9) cstr_Nil_iff by auto
    then have "NUL \<in> set (cfg_password cfg)" by (metis length_greater_0_conv nth_mem)
    then show ?thesis by (simp add: sta_password_ptr_def cstr_append assms(8))
  qed
  then have 3: "save_password E cfg ch2 tmp s2 = Inr (ch2, ?s3)"
    using 2(2,4) by (simp add: save_password_def get_bytes_works [OF w] split_beta Let_def)
  have f3: "flash st (calls ?s3) = flash st (calls s2)" by simp
  have ok3: "flash_ok (flash st (calls ?s3))"
    using 2(3,4) assms(6) unfolding f3 by (auto simp: flash_ok_def saved_as_def)
  obtain ch4 s4 v where 4: "save_settings E ch2 ?s3 = Inr (ch4, ESP_OK, s4)"
      "\<forall>k. k \<noteq> ''settings'' \<longrightarrow> flash st (calls s4) k = flash st (calls s2) k"
    using save_settings_works [OF w ok3, of ch2] assms(10) 2(5) unfolding f3 by auto
  let ?s5 = "snd (save_finish E ch4 ESP_OK s4)"
  have fin: "save_finish E ch4 ESP_OK s4 = (ESP_OK, ?s5)" "flash st (calls ?s5) = flash st (calls s4)"
    using co by (simp_all add: save_finish_def split_beta Let_def fst_call nvs_sync_unlock_def)
  have save: "wifi_manager_save_sta_config E s = Some (ESP_OK, ?s5)"
    using fin(1) op 2(1) 3 4(1) lock [OF assms(3,4)]
    by (simp add: wifi_manager_save_sta_config_def assms(5) save_locked_def split_beta fst_call)
  let ?s6 = "?s5\<lparr>config_sta := None\<rparr>"
  have "held E Nvs_Mutex ?s6 \<le> 0" using save_mutex_outcome [OF save] assms(3) by (simp add: keeps_mutex_def)
  moreover have "Nvs_Mutex \<in> mutexes ?s6"
    using save_locked_outcome [of E "snd ?r" cfg] save lock [OF assms(3,4)] assms(4)
    by (simp add: wifi_manager_save_sta_config_def assms(5) save_outcome_def)
  ultimately have l6: "nvs_sync_lock E None ?s6 = Some (True, snd (call E (Sem_Take Nvs_Mutex None) ?s6))" by (rule lock)
  have "flash st (calls ?s6) ''password'' = None" using fin(2) 4(2) 2(4) by simp
  moreover obtain a where "flash st (calls ?s6) ''ssid'' = Some (Bytes a)"
    using fin(2) 4(2) 2(3) by (auto simp: saved_as_def)
  ultimately have "fst (fetch_locked E (snd (call E (Sem_Take Nvs_Mutex None) ?s6))) = False"
    using op by (simp add: fetch_locked_def split_beta Let_def fst_call get_bytes_works [OF w])
  with save l6 show ?thesis
    by (intro exI [of _ ?s5]) (simp add: wifi_manager_fetch_wifi_sta_config_def)
qed

theorem open_network_not_restored_witness:
  fixes s :: wm
  defines "s \<equiv> bench_wm\<lparr>config_sta := Some \<lparr>cfg_ssid = ''lab'' @ NUL # replicate 28 NUL, cfg_password = NUL # replicate 63 NUL\<rparr>\<rparr>"
  shows "\<exists>s1. wifi_manager_save_sta_config (flash_bench Map.empty) s = Some (ESP_OK, s1)
    \<and> map_option fst (wifi_manager_fetch_wifi_sta_config (flash_bench Map.empty) (s1\<lparr>config_sta := None\<rparr>)) = Some False"
proof (rule open_network_not_restored [OF flash_bench_works])
  show "settings_differ zero_settings (wifi_settings_var s)"
    by (simp add: s_def bench_wm_def settings_differ_def zero_settings_def cstr_Cons)
  show "config_sta s = Some \<lparr>cfg_ssid = ''lab'' @ NUL # replicate 28 NUL, cfg_password = NUL # replicate 63 NUL\<rparr>"
    by (simp add: s_def)
qed (simp_all add: s_def bench_wm_def held_def flash_def cstr_Cons)

end
