(* ===== verification/Wifi_Status.thy ===== *)
theory Wifi_Status
  imports Wifi_Nvs
begin

text \<open>
  The status texts of \<^verbatim>\<open>wifi_manager.c\<close> that the web page shows: the JSON with the name of the
  network and the addresses, printed into a block of \<open>JSON_IP_INFO_SIZE\<close> bytes, and the station's
  address as a string.
\<close>

definition wifi_manager_clear_ip_info_json :: "wm \<Rightarrow> wm option" where
  "wifi_manager_clear_ip_info_json s = do {
     b \<leftarrow> c_strcpy (ip_info_json s) (''{}'' @ [NEWLINE]);
     Some (s\<lparr>ip_info_json := b\<rparr>)
   }"

definition esp_ip4addr_ntoa :: "esp_oracle \<Rightarrow> u32 \<Rightarrow> wm \<Rightarrow> string \<times> wm" where
  "esp_ip4addr_ntoa E ip s =
     (let (r, s) = call E (Ip_Ntoa ip) s in (take (IP4ADDR_STRLEN_MAX - 1) (cstr (r_text r)), s))"

text \<open>The three addresses of the text: address, network mask, gateway.\<close>

definition ip_info_texts ::
    "esp_oracle \<Rightarrow> update_reason_code \<Rightarrow> wm \<Rightarrow> ((string \<times> string \<times> string) \<times> wm) option" where
  "ip_info_texts E urc s =
     (if urc = UPDATE_CONNECTION_OK then
        (let (r, s) = call E Netif_Get_Ip_Info s in
         if r_err r \<noteq> ESP_OK then None
         else (case r_ips r of (ip_addr, gw_addr, netmask_addr) \<Rightarrow>
                 (let (ip, s) = esp_ip4addr_ntoa E ip_addr s;
                      (gw, s) = esp_ip4addr_ntoa E gw_addr s;
                      (netmask, s) = esp_ip4addr_ntoa E netmask_addr s
                  in Some ((ip, netmask, gw), s))))
      else Some ((''0'', ''0'', ''0''), s))"

definition ip_info_text :: "string \<times> string \<times> string \<Rightarrow> update_reason_code \<Rightarrow> string" where
  "ip_info_text ips urc =
     (case ips of (ip, netmask, gw) \<Rightarrow>
        '',\"ip\":\"'' @ ip @ ''\",\"netmask\":\"'' @ netmask @ ''\",\"gw\":\"'' @ gw
        @ ''\",\"urc\":'' @ show_int (update_reason_int urc) @ ''}'' @ [NEWLINE])"

definition wifi_manager_generate_ip_info_json ::
    "esp_oracle \<Rightarrow> update_reason_code \<Rightarrow> wm \<Rightarrow> wm option" where
  "wifi_manager_generate_ip_info_json E urc s =
     (case config_sta s of
        None \<Rightarrow> wifi_manager_clear_ip_info_json s
      | Some config \<Rightarrow> do {
          b \<leftarrow> buf_write 0 (replicate JSON_IP_INFO_SIZE NUL) (ip_info_json s);
          b \<leftarrow> c_strcpy b ''{\"ssid\":'';
          n \<leftarrow> c_strlen b;
          (_, b) \<leftarrow> json_print_string (Some (sta_ssid_ptr config)) (Some b) n;
          b \<leftarrow> b;
          ip_info_json_len \<leftarrow> c_strlen b;
          let remaining = JSON_IP_INFO_SIZE - ip_info_json_len;
          (ips, s) \<leftarrow> ip_info_texts E urc s;
          b \<leftarrow> c_snprintf b ip_info_json_len remaining (ip_info_text ips urc);
          Some (s\<lparr>ip_info_json := b\<rparr>)
        })"

definition wifi_manager_safe_update_sta_ip_string :: "esp_oracle \<Rightarrow> u32 \<Rightarrow> wm \<Rightarrow> wm option" where
  "wifi_manager_safe_update_sta_ip_string E ip s = do {
     (ok, s) \<leftarrow> wifi_manager_lock_sta_ip_string E None s;
     if ok then do {
       let (str_ip, s) = esp_ip4addr_ntoa E ip s;
       b \<leftarrow> c_strcpy (sta_ip s) str_ip;
       Some (wifi_manager_unlock_sta_ip_string E (s\<lparr>sta_ip := b\<rparr>))
     } else Some s
   }"

section \<open>The text\<close>

definition status_prefix :: "sta_config \<Rightarrow> string" where
  "status_prefix c = ''{\"ssid\":'' @ json_string (cstr (sta_ssid_ptr c))"

lemma NUL_not_in_status_prefix [simp]: "NUL \<notin> set (status_prefix c)"
  by (simp add: status_prefix_def)

lemma status_ssid_print:
  assumes "length blk = JSON_IP_INFO_SIZE"
  shows "do { b \<leftarrow> buf_write 0 (replicate JSON_IP_INFO_SIZE NUL) blk;
          b \<leftarrow> c_strcpy b ''{\"ssid\":'';
          n \<leftarrow> c_strlen b;
          (_, b) \<leftarrow> json_print_string (Some (sta_ssid_ptr c)) (Some b) n;
          b } =
    (if length (status_prefix c) < JSON_IP_INFO_SIZE
     then Some (status_prefix c @ replicate (JSON_IP_INFO_SIZE - length (status_prefix c)) NUL) else None)"
proof -
  define h :: string where "h = ''{\"ssid\":''"
  let ?j = "json_string (cstr (sta_ssid_ptr c))"
  have h: "length h = 8" "NUL \<notin> set h" by (simp_all add: h_def)
  have 1: "buf_write 0 (replicate JSON_IP_INFO_SIZE NUL) blk = Some (replicate JSON_IP_INFO_SIZE NUL)"
    using assms by (simp add: buf_write_def)
  have 2: "c_strcpy (replicate JSON_IP_INFO_SIZE NUL) h = Some (h @ NUL # replicate (JSON_IP_INFO_SIZE - 9) NUL)"
    using h by (simp add: c_strcpy_eq JSON_IP_INFO_SIZE_def)
  have 3: "c_strlen (h @ NUL # replicate (JSON_IP_INFO_SIZE - 9) NUL) = Some (length h)"
    by (rule c_strlen_terminated) (rule h)
  have 4: "json_print_string (Some (sta_ssid_ptr c)) (Some (h @ NUL # replicate (JSON_IP_INFO_SIZE - 9) NUL)) (length h) =
     (if length ?j \<le> JSON_IP_INFO_SIZE - 9
      then Some (True, Some (h @ ?j @ NUL # replicate (JSON_IP_INFO_SIZE - 9 - length ?j) NUL)) else None)"
    using json_print_string_terminated [OF h(2), of "sta_ssid_ptr c" "replicate (JSON_IP_INFO_SIZE - 9) NUL"] by simp
  have 5: "NUL # replicate (JSON_IP_INFO_SIZE - 9 - length ?j) NUL = replicate (JSON_IP_INFO_SIZE - (8 + length ?j)) NUL"
    if "length ?j \<le> JSON_IP_INFO_SIZE - 9"
  proof -
    have "JSON_IP_INFO_SIZE - (8 + length ?j) = Suc (JSON_IP_INFO_SIZE - 9 - length ?j)"
      using that by (simp add: JSON_IP_INFO_SIZE_def)
    then show ?thesis by simp
  qed
  have p: "status_prefix c = h @ ?j" by (simp only: status_prefix_def h_def)
  have 6: "length (status_prefix c) < JSON_IP_INFO_SIZE \<longleftrightarrow> length ?j \<le> JSON_IP_INFO_SIZE - 9"
    using h by (simp add: p JSON_IP_INFO_SIZE_def) linarith
  show ?thesis
    unfolding h_def [symmetric] 1 6
    using 5 by (simp add: 2 3 [unfolded h(1)] 4 [unfolded h(1)] p h(1))
qed

lemma status_json_eq:
  assumes "length (ip_info_json s) = JSON_IP_INFO_SIZE" "config_sta s = Some c"
    and "length (status_prefix c) < JSON_IP_INFO_SIZE" "ip_info_texts E urc s = Some (ips, s1)"
  shows "wifi_manager_generate_ip_info_json E urc s = Some (s1\<lparr>ip_info_json :=
      status_prefix c @ take (JSON_IP_INFO_SIZE - 1 - length (status_prefix c)) (ip_info_text ips urc)
      @ NUL # replicate (JSON_IP_INFO_SIZE - 1 - length (status_prefix c) - length (ip_info_text ips urc)) NUL\<rparr>)"
proof -
  let ?p = "status_prefix c" and ?t = "ip_info_text ips urc" and ?N = JSON_IP_INFO_SIZE
  let ?b = "?p @ replicate (?N - length ?p) NUL"
  have "?N - length ?p = Suc (?N - 1 - length ?p)" using assms(3) by simp
  then have "c_strlen ?b = Some (length ?p)"
    by (simp add: c_strlen_terminated)
  moreover have "c_snprintf ?b (length ?p) (?N - length ?p) ?t =
      Some (?p @ take (?N - 1 - length ?p) ?t @ NUL # replicate (?N - 1 - length ?p - length ?t) NUL)"
    using assms(3) by (auto simp: c_snprintf_def buf_write_def min_def)
  ultimately show ?thesis
    using status_ssid_print [OF assms(1), of c] assms(2-4)
    by (auto simp: wifi_manager_generate_ip_info_json_def Let_def split: prod.splits)
qed

lemma length_show_urc: "length (show_int (update_reason_int urc)) = 1"
  by (cases urc) (simp_all add: show_int_def show_nat.simps)

lemma length_ip_info_text:
  "length (ip_info_text (ip, netmask, gw) urc) = 39 + length ip + length netmask + length gw"
  using length_show_urc [of urc] by (simp add: ip_info_text_def)

lemma ip_info_texts_bounds:
  assumes "ip_info_texts E urc s = Some ((ip, netmask, gw), s1)"
  shows "length ip \<le> 15" "length netmask \<le> 15" "length gw \<le> 15"
    "NUL \<notin> set ip" "NUL \<notin> set netmask" "NUL \<notin> set gw"
  using assms
  by (auto simp: ip_info_texts_def esp_ip4addr_ntoa_def Let_def split_beta IP4ADDR_STRLEN_MAX_def
      split: if_splits dest: in_set_takeD)

lemma NUL_not_in_ip_info_text:
  "NUL \<notin> set ip \<Longrightarrow> NUL \<notin> set netmask \<Longrightarrow> NUL \<notin> set gw \<Longrightarrow> NUL \<notin> set (ip_info_text (ip, netmask, gw) urc)"
  by (simp add: ip_info_text_def)

lemma ip_info_texts_frame:
  "ip_info_texts E urc s = Some (ips, s1) \<Longrightarrow> ip_info_json s1 = ip_info_json s"
  by (auto simp: ip_info_texts_def esp_ip4addr_ntoa_def Let_def split_beta split: if_splits)

lemma terminated_name: "NUL \<in> set (cfg_ssid c) \<Longrightarrow> cstr (sta_ssid_ptr c) = cstr (cfg_ssid c)"
  by (simp add: sta_ssid_ptr_def cstr_append)

text \<open>
  C35: The status text of a network whose name is terminated inside its 32 bytes and has, with the characters its
  escapes add, at most 64 characters fits its block: the web page gets the whole JSON text, with the name, the
  three addresses and the reason code.  A name of the full 32 bytes is not covered: it runs on into the password.
\<close>

theorem status_json_complete:
  assumes "length (ip_info_json s) = JSON_IP_INFO_SIZE" "config_sta s = Some c"
    and "NUL \<in> set (cfg_ssid c)" "length (cstr (cfg_ssid c)) + json_escape_count (cstr (cfg_ssid c)) \<le> 64"
    and "ip_info_texts E urc s = Some (ips, s1)"
  shows "\<exists>s'. wifi_manager_generate_ip_info_json E urc s = Some s'
    \<and> cstr (ip_info_json s') = ''{\"ssid\":'' @ json_string (cstr (cfg_ssid c)) @ ip_info_text ips urc
    \<and> length (ip_info_json s') = JSON_IP_INFO_SIZE"
proof -
  obtain ip netmask gw where ips: "ips = (ip, netmask, gw)" by (cases ips)
  note b = ip_info_texts_bounds [OF assms(5) [unfolded ips]]
  have p: "''{\"ssid\":'' @ json_string (cstr (cfg_ssid c)) @ ip_info_text ips urc = status_prefix c @ ip_info_text ips urc"
    by (simp add: status_prefix_def terminated_name [OF assms(3)])
  have len: "length (status_prefix c) \<le> 74"
    using assms(4) by (simp add: status_prefix_def length_json_string terminated_name [OF assms(3)])
  have t: "length (ip_info_text ips urc) \<le> 84" using b by (simp add: ips length_ip_info_text)
  have "length (status_prefix c) < JSON_IP_INFO_SIZE" using len by (simp add: JSON_IP_INFO_SIZE_def)
  note eq = status_json_eq [OF assms(1,2) this assms(5)]
  have "take (JSON_IP_INFO_SIZE - 1 - length (status_prefix c)) (ip_info_text ips urc) = ip_info_text ips urc"
    using len t by (simp add: JSON_IP_INFO_SIZE_def)
  moreover have "NUL \<notin> set (status_prefix c @ ip_info_text ips urc)"
    using b NUL_not_in_ip_info_text by (simp add: ips)
  ultimately show ?thesis
    unfolding p using eq len t cstr_terminated [of "status_prefix c @ ip_info_text ips urc"]
    by (simp add: JSON_IP_INFO_SIZE_def)
qed

theorem status_json_complete_witness:
  "\<exists>s'. wifi_manager_generate_ip_info_json commit_fails UPDATE_LOST_CONNECTION bench_wm = Some s'
    \<and> cstr (ip_info_json s') = ''{\"ssid\":'' @ json_string ''lab'' @ ip_info_text (''0'', ''0'', ''0'') UPDATE_LOST_CONNECTION
    \<and> length (ip_info_json s') = JSON_IP_INFO_SIZE"
proof -
  let ?c = "the (config_sta bench_wm)"
  have c: "config_sta bench_wm = Some ?c" "NUL \<in> set (cfg_ssid ?c)" "cstr (cfg_ssid ?c) = ''lab''"
    by (simp_all add: bench_wm_def cstr_Cons)
  have size: "length (cstr (cfg_ssid ?c)) + json_escape_count (cstr (cfg_ssid ?c)) \<le> 64"
    unfolding c(3) by (simp add: json_escape_set_def)
  have ips: "ip_info_texts commit_fails UPDATE_LOST_CONNECTION bench_wm = Some ((''0'', ''0'', ''0''), bench_wm)"
    by (simp add: ip_info_texts_def)
  have "length (ip_info_json bench_wm) = JSON_IP_INFO_SIZE" by (simp add: bench_wm_def JSON_IP_INFO_SIZE_def)
  from status_json_complete [OF this c(1,2) size ips] show ?thesis unfolding c(3) .
qed

text \<open>
  A network name of the full 32 bytes is printed together with the password: it has no
  terminator of its own, so the name the status text carries, read as JSON, is the name
  followed by the password in clear.
\<close>

theorem status_json_leaks_password:
  assumes "length (ip_info_json s) = JSON_IP_INFO_SIZE" "config_sta s = Some c"
    and "length (cfg_ssid c) = 32" "NUL \<notin> set (cfg_ssid c)" "NUL \<in> set (cfg_password c)"
    and "length (cstr (cfg_password c)) + json_escape_count (cfg_ssid c @ cstr (cfg_password c)) \<le> 116"
    and "ip_info_texts E urc s = Some (ips, s1)"
  shows "\<exists>s' literal rest. wifi_manager_generate_ip_info_json E urc s = Some s'
    \<and> cstr (ip_info_json s') = ''{\"ssid\":'' @ literal @ rest
    \<and> json_decode literal = Some (cfg_ssid c @ cstr (cfg_password c))"
proof -
  obtain ip netmask gw where ips: "ips = (ip, netmask, gw)" by (cases ips)
  note b = ip_info_texts_bounds [OF assms(7) [unfolded ips]]
  have ssid: "cstr (sta_ssid_ptr c) = cfg_ssid c @ cstr (cfg_password c)"
    using assms(4,5) by (simp add: sta_ssid_ptr_def cstr_append)
  have len: "length (status_prefix c) < JSON_IP_INFO_SIZE"
    using assms(3,6) by (simp add: status_prefix_def length_json_string ssid JSON_IP_INFO_SIZE_def)
  let ?t = "take (JSON_IP_INFO_SIZE - 1 - length (status_prefix c)) (ip_info_text ips urc)"
  have "NUL \<notin> set (status_prefix c @ ?t)"
    using b NUL_not_in_ip_info_text by (auto simp: ips dest: in_set_takeD)
  then have "cstr ((status_prefix c @ ?t) @ NUL # r) = status_prefix c @ ?t" for r by (rule cstr_terminated)
  then have c: "cstr (status_prefix c @ ?t @ NUL # r) = ''{\"ssid\":'' @ json_string (cfg_ssid c @ cstr (cfg_password c)) @ ?t" for r
    by (simp add: status_prefix_def ssid)
  obtain s' r where s': "wifi_manager_generate_ip_info_json E urc s = Some s'"
      "ip_info_json s' = status_prefix c @ ?t @ NUL # r"
    using status_json_eq [OF assms(1,2) len assms(7)] by simp
  then have "cstr (ip_info_json s') = ''{\"ssid\":'' @ json_string (cfg_ssid c @ cstr (cfg_password c)) @ ?t"
    by (simp only: c)
  with s'(1) json.dec_enc show ?thesis by blast
qed

theorem status_json_leaks_password_witness:
  fixes s :: wm and c :: sta_config
  defines "c \<equiv> \<lparr>cfg_ssid = replicate 32 (CHR ''n''), cfg_password = ''secret12'' @ NUL # replicate 55 NUL\<rparr>"
    and "s \<equiv> bench_wm\<lparr>config_sta := Some \<lparr>cfg_ssid = replicate 32 (CHR ''n''), cfg_password = ''secret12'' @ NUL # replicate 55 NUL\<rparr>\<rparr>"
  shows "\<exists>s' literal rest. wifi_manager_generate_ip_info_json commit_fails UPDATE_FAILED_ATTEMPT s = Some s'
    \<and> cstr (ip_info_json s') = ''{\"ssid\":'' @ literal @ rest
    \<and> json_decode literal = Some (cfg_ssid c @ cstr (cfg_password c))"
proof (rule status_json_leaks_password)
  have e: "json_escape_count (replicate 32 (CHR ''n'') @ t) = json_escape_count t" for t
    by (simp add: json_escape_count_append json_escape_count_replicate json_escape_set_def)
  show "length (cstr (cfg_password c)) + json_escape_count (cfg_ssid c @ cstr (cfg_password c)) \<le> 116"
    by (simp add: c_def cstr_Cons e json_escape_set_def)
  show "ip_info_texts commit_fails UPDATE_FAILED_ATTEMPT s = Some ((''0'', ''0'', ''0''), s)"
    by (simp add: ip_info_texts_def)
  show "config_sta s = Some c" by (simp add: s_def c_def)
qed (simp_all add: s_def c_def bench_wm_def JSON_IP_INFO_SIZE_def)

end
