(* ===== verification/Wifi_Manager.thy ===== *)
theory Wifi_Manager
  imports Wifi_Status
begin

text \<open>
  The manager itself: \<^verbatim>\<open>wifi_manager_start\<close>, the event handler that runs in the event task, the
  timer callbacks and requests that run in other tasks, and the manager's task with its
  message queue (\<^verbatim>\<open>wifi_manager\<close>).  One step of the relation \<open>wm_step\<close> is one of them run to
  its end; a message is handled after it has been taken from the queue.
\<close>

section \<open>Starting\<close>

definition RETRY_TICKS :: nat where "RETRY_TICKS = 500"
definition SHUTDOWN_AP_TICKS :: nat where "SHUTDOWN_AP_TICKS = 6000"

definition create_mutex :: "esp_oracle \<Rightarrow> mutex \<Rightarrow> wm \<Rightarrow> wm" where
  "create_mutex E m s =
     (let (r, s) = call E (Mutex_Create m) s
      in if r_flag r then s\<lparr>mutexes := insert m (mutexes s)\<rparr> else s)"

definition wifi_manager_start :: "esp_oracle \<Rightarrow> wm \<Rightarrow> wm option" where
  "wifi_manager_start E s = do {
     let s = act E Nvs_Flash_Init s;
     let (err, s) = nvs_sync_create E s;
     s \<leftarrow> (if err = ESP_OK then Some s else None);
     let s = create_mutex E Json_Mutex (s\<lparr>queue := []\<rparr>);
     let s = s\<lparr>accessp_records := replicate MAX_AP_NUM zero_ap\<rparr>;
     j \<leftarrow> wifi_manager_clear_access_points_json (replicate accessp_json_size NUL);
     let s = s\<lparr>accessp_json := j, ip_info_json := replicate JSON_IP_INFO_SIZE NUL\<rparr>;
     s \<leftarrow> wifi_manager_clear_ip_info_json s;
     let s = s\<lparr>config_sta := Some zero_config, callbacks := {}\<rparr>;
     let s = create_mutex E Sta_Ip_Mutex s;
     let s = s\<lparr>sta_ip := replicate IP4ADDR_STRLEN_MAX NUL\<rparr>;
     s \<leftarrow> wifi_manager_safe_update_sta_ip_string E 0 s;
     let s = s\<lparr>bits := {}\<rparr>;
     let s = act E (Timer_Create Retry_Timer RETRY_TICKS) s;
     let s = act E (Timer_Create Shutdown_Ap_Timer SHUTDOWN_AP_TICKS) s;
     Some (act E Task_Create s)
   }"

definition wifi_manager_destroy :: "esp_oracle \<Rightarrow> wm \<Rightarrow> wm" where
  "wifi_manager_destroy E s =
     (let s = act E Task_Delete s;
          s = s\<lparr>accessp_records := [], accessp_json := [], ip_info_json := [], sta_ip := [], config_sta := None\<rparr>;
          s = (act E (Mutex_Delete Json_Mutex) s)\<lparr>mutexes := mutexes s - {Json_Mutex}\<rparr>;
          s = (act E (Mutex_Delete Sta_Ip_Mutex) s)\<lparr>mutexes := mutexes s - {Sta_Ip_Mutex}\<rparr>;
          s = act E Event_Group_Delete s;
          s = act E Queue_Delete s
      in s\<lparr>queue := []\<rparr>)"

definition WPA2_MINIMUM_PASSWORD_LENGTH :: nat where "WPA2_MINIMUM_PASSWORD_LENGTH = 8"

text \<open>The access point's name, password, channel, hiding, and whether it is open.\<close>

definition ap_config_call :: "wifi_settings \<Rightarrow> esp_call" where
  "ap_config_call v =
     (if length (cstr (set_ap_pwd v)) < WPA2_MINIMUM_PASSWORD_LENGTH
      then Wifi_Set_Ap_Config (set_ap_ssid v) (replicate 64 NUL) (set_ap_channel v) (set_ap_ssid_hidden v) True
      else Wifi_Set_Ap_Config (set_ap_ssid v) (set_ap_pwd v) (set_ap_channel v) (set_ap_ssid_hidden v) False)"

text \<open>The manager's task before its loop.\<close>

definition wifi_manager_init :: "esp_oracle \<Rightarrow> wm \<Rightarrow> wm option" where
  "wifi_manager_init E s = do {
     s \<leftarrow> esp_error_check E Netif_Init (s\<lparr>retries := 0\<rparr>);
     let s = act E Netif_Create_Ap (act E Netif_Create_Sta s);
     s \<leftarrow> esp_error_check E Wifi_Init s;
     s \<leftarrow> esp_error_check E Wifi_Set_Storage s;
     s \<leftarrow> esp_error_check E Event_Register s;
     s \<leftarrow> esp_error_check E Event_Register s;
     let s = act E Netif_Dhcps_Stop s;
     s \<leftarrow> esp_error_check E Netif_Set_Ip_Info s;
     s \<leftarrow> esp_error_check E Netif_Dhcps_Start s;
     s \<leftarrow> esp_error_check E (Wifi_Set_Mode WIFI_MODE_APSTA) s;
     s \<leftarrow> esp_error_check E (ap_config_call (wifi_settings_var s)) s;
     s \<leftarrow> esp_error_check E (Wifi_Set_Bandwidth (set_ap_bandwidth (wifi_settings_var s))) s;
     s \<leftarrow> esp_error_check E (Wifi_Set_Ps (set_sta_power_save (wifi_settings_var s))) s;
     s \<leftarrow> esp_error_check E (Wifi_Set_Mode WIFI_MODE_STA) s;
     s \<leftarrow> esp_error_check E Wifi_Start s;
     let s = act E (Http_App_Start False) s;
     wifi_manager_send_message WM_ORDER_LOAD_AND_RESTORE_STA No_Param s
   }"

section \<open>Other tasks\<close>

definition wifi_manager_timer_retry_cb :: "esp_oracle \<Rightarrow> wm \<Rightarrow> wm option" where
  "wifi_manager_timer_retry_cb E s =
     wifi_manager_send_message WM_ORDER_CONNECT_STA (Request CONNECTION_REQUEST_AUTO_RECONNECT)
       (act E (Timer_Stop Retry_Timer) s)"

definition wifi_manager_timer_shutdown_ap_cb :: "esp_oracle \<Rightarrow> wm \<Rightarrow> wm option" where
  "wifi_manager_timer_shutdown_ap_cb E s =
     wifi_manager_send_message WM_ORDER_STOP_AP No_Param (act E (Timer_Stop Shutdown_Ap_Timer) s)"

definition wifi_manager_scan_async :: "wm \<Rightarrow> wm option" where
  "wifi_manager_scan_async s = wifi_manager_send_message WM_ORDER_START_WIFI_SCAN No_Param s"

definition wifi_manager_disconnect_async :: "wm \<Rightarrow> wm option" where
  "wifi_manager_disconnect_async s = wifi_manager_send_message WM_ORDER_DISCONNECT_STA No_Param s"

definition wifi_manager_connect_async :: "esp_oracle \<Rightarrow> wm \<Rightarrow> wm option" where
  "wifi_manager_connect_async E s = do {
     (ok, s) \<leftarrow> wifi_manager_lock_json_buffer E None s;
     s \<leftarrow> (if ok then do { s \<leftarrow> wifi_manager_clear_ip_info_json s; Some (wifi_manager_unlock_json_buffer E s) }
          else Some s);
     wifi_manager_send_message WM_ORDER_CONNECT_STA (Request CONNECTION_REQUEST_USER) s
   }"

definition change_state_wifi :: "wm \<Rightarrow> wm option" where
  "change_state_wifi s = wifi_manager_send_message WM_ORDER_START_AP No_Param s"

definition wifi_manager_set_callback :: "message_code \<Rightarrow> bool \<Rightarrow> wm \<Rightarrow> wm" where
  "wifi_manager_set_callback code func s =
     s\<lparr>callbacks := if func then insert code (callbacks s) else callbacks s - {code}\<rparr>"

definition wifi_handler_set_callback :: "bool \<Rightarrow> wm \<Rightarrow> wm" where
  "wifi_handler_set_callback cb s = s\<lparr>wifi_handler_set := cb\<rparr>"

text \<open>The events of the IP layer: with an address, MQTT is started and a first message published.\<close>

definition wifi_manager_ip_event :: "esp_oracle \<Rightarrow> wifi_event \<Rightarrow> wm \<Rightarrow> wm option" where
  "wifi_manager_ip_event E ev s =
     (case ev of
        IP_EVENT_STA_GOT_IP ip \<Rightarrow> do {
          s \<leftarrow> wifi_manager_send_message WM_EVENT_STA_GOT_IP (Got_Ip ip) (set_bit WIFI_CONNECTED_BIT s);
          let s = act E Mqtt_App_Start s;
          Some (act E (Mqtt_App_Publish ''hieu45678vip/pub'' ''{\"OTA\":\"1\"}'') s)
        }
      | _ \<Rightarrow> Some s)"

text \<open>The handler calls the application's handler first, through a pointer it does not check.\<close>

definition wifi_manager_event_handler :: "esp_oracle \<Rightarrow> wifi_event \<Rightarrow> wm \<Rightarrow> wm option" where
  "wifi_manager_event_handler E ev s =
     (if \<not> wifi_handler_set s then None
      else let s = act E (Wifi_Handler ev) s in
        case ev of
          WIFI_EVENT_SCAN_DONE status \<Rightarrow>
            wifi_manager_send_message WM_EVENT_SCAN_DONE (Scan_Status status) (clear_bit SCAN_BIT s)
        | WIFI_EVENT_STA_DISCONNECTED reason \<Rightarrow>
            wifi_manager_send_message WM_EVENT_STA_DISCONNECTED (Disconnect_Reason reason)
              (clear_bit SCAN_BIT (clear_bit WIFI_CONNECTED_BIT s))
        | WIFI_EVENT_AP_START \<Rightarrow> Some (set_bit AP_STARTED_BIT s)
        | WIFI_EVENT_AP_STOP \<Rightarrow> Some (clear_bit AP_STARTED_BIT s)
        | _ \<Rightarrow> wifi_manager_ip_event E ev s)"

section \<open>Messages\<close>

definition run_callback :: "esp_oracle \<Rightarrow> message_code \<Rightarrow> message_param \<Rightarrow> wm \<Rightarrow> wm" where
  "run_callback E code param s =
     (if code \<in> callbacks s then act E (Callback code param) s else s)"

text \<open>The list and its text, made anew under the mutex of the texts.\<close>

definition refresh_access_points :: "esp_oracle \<Rightarrow> wm \<Rightarrow> wm option" where
  "refresh_access_points E s = do {
     (ok, s) \<leftarrow> wifi_manager_lock_json_buffer E (Some 100) s;
     if ok then do {
       let (records, n) = wifi_manager_filter_unique (accessp_records s) (ap_num s);
       let s = s\<lparr>accessp_records := records, ap_num := n\<rparr>;
       j \<leftarrow> wifi_manager_generate_acess_points_json (accessp_records s) (ap_num s) (accessp_json s);
       Some (wifi_manager_unlock_json_buffer E (s\<lparr>accessp_json := j\<rparr>))
     } else Some s
   }"

definition on_scan_done :: "esp_oracle \<Rightarrow> nat \<Rightarrow> wm \<Rightarrow> wm option" where
  "on_scan_done E status s = do {
     s \<leftarrow> (if status = 0 then do {
         let (r, s) = call E (Wifi_Scan_Get_Ap_Records MAX_AP_NUM) (s\<lparr>ap_num := MAX_AP_NUM\<rparr>);
         if r_err r \<noteq> ESP_OK then None else do {
           let aps = take MAX_AP_NUM (r_aps r);
           let s = s\<lparr>ap_num := length aps, accessp_records := aps @ drop (length aps) (accessp_records s)\<rparr>;
           refresh_access_points E s
         }
       } else Some s);
     Some (run_callback E WM_EVENT_SCAN_DONE (Scan_Status status) s)
   }"

definition on_start_wifi_scan :: "esp_oracle \<Rightarrow> wm \<Rightarrow> wm option" where
  "on_start_wifi_scan E s =
     (let s = (if SCAN_BIT \<notin> bits s then act E Wifi_Scan_Start (set_bit SCAN_BIT s) else s)
      in Some (run_callback E WM_ORDER_START_WIFI_SCAN No_Param s))"

definition on_load_and_restore_sta :: "esp_oracle \<Rightarrow> wm \<Rightarrow> wm option" where
  "on_load_and_restore_sta E s = do {
     (found, s) \<leftarrow> wifi_manager_fetch_wifi_sta_config E s;
     s \<leftarrow> (if found
          then wifi_manager_send_message WM_ORDER_CONNECT_STA (Request CONNECTION_REQUEST_RESTORE_CONNECTION) s
          else wifi_manager_send_message WM_ORDER_START_AP No_Param s);
     Some (run_callback E WM_ORDER_LOAD_AND_RESTORE_STA No_Param s)
   }"

text \<open>\<^verbatim>\<open>esp_wifi_set_config\<close> takes the address of the configuration, NULL if there is none.\<close>

definition set_sta_config :: "esp_oracle \<Rightarrow> wm \<Rightarrow> wm option" where
  "set_sta_config E s =
     (case config_sta s of None \<Rightarrow> None | Some c \<Rightarrow> esp_error_check E (Wifi_Set_Sta_Config c) s)"

definition on_connect_sta :: "esp_oracle \<Rightarrow> message_param \<Rightarrow> wm \<Rightarrow> wm option" where
  "on_connect_sta E param s = do {
     s \<leftarrow> (if param = Request CONNECTION_REQUEST_USER then do {
             let s = set_bit REQUEST_STA_CONNECT_BIT s;
             let s = act E Wifi_Disconnect (act E Http_App_Stop s);
             s \<leftarrow> set_sta_config E s;
             s \<leftarrow> esp_error_check E Wifi_Start s;
             Some (act E (Http_App_Start False) s)
           }
           else if param = Request CONNECTION_REQUEST_RESTORE_CONNECTION
           then Some (set_bit REQUEST_RESTORE_STA_BIT s)
           else Some s);
     let uxBits = bits s;
     s \<leftarrow> (if WIFI_CONNECTED_BIT \<notin> uxBits then do {
             s \<leftarrow> set_sta_config E s;
             let s = (if SCAN_BIT \<in> uxBits then act E Wifi_Scan_Stop s else s);
             esp_error_check E Wifi_Connect s
           } else Some s);
     Some (run_callback E WM_ORDER_CONNECT_STA No_Param s)
   }"

text \<open>Printing the status under the mutex of the texts.\<close>

definition refresh_status :: "esp_oracle \<Rightarrow> update_reason_code \<Rightarrow> wm \<Rightarrow> (bool \<times> wm) option" where
  "refresh_status E urc s = do {
     (ok, s) \<leftarrow> wifi_manager_lock_json_buffer E None s;
     if ok then do {
       s \<leftarrow> wifi_manager_generate_ip_info_json E urc s;
       Some (True, wifi_manager_unlock_json_buffer E s)
     } else Some (False, s)
   }"

definition on_sta_disconnected :: "esp_oracle \<Rightarrow> message_param \<Rightarrow> wm \<Rightarrow> wm option" where
  "on_sta_disconnected E param s = do {
     let s = clear_bit ORDER_STA s;
     s \<leftarrow> wifi_manager_safe_update_sta_ip_string E 0 s;
     let (active, s) = call E (Timer_Is_Active Shutdown_Ap_Timer) s;
     let s = (if r_flag active then act E (Timer_Stop Shutdown_Ap_Timer) s else s);
     let uxBits = bits s;
     s \<leftarrow> (if REQUEST_STA_CONNECT_BIT \<in> uxBits then do {
             (_, s) \<leftarrow> refresh_status E UPDATE_FAILED_ATTEMPT (clear_bit REQUEST_STA_CONNECT_BIT s);
             Some s
           }
           else if REQUEST_DISCONNECT_BIT \<in> uxBits then do {
             let s = clear_bit REQUEST_DISCONNECT_BIT s;
             let s = s\<lparr>config_sta := map_option (\<lambda>_. zero_config) (config_sta s)\<rparr>;
             (_, s) \<leftarrow> refresh_status E UPDATE_USER_DISCONNECT s;
             (_, s) \<leftarrow> wifi_manager_save_sta_config E s;
             wifi_manager_send_message WM_ORDER_START_AP No_Param s
           }
           else do {
             (_, s) \<leftarrow> refresh_status E UPDATE_LOST_CONNECTION s;
             let s = act E (Timer_Start Retry_Timer) s;
             let s = clear_bit REQUEST_RESTORE_STA_BIT s;
             if AP_STARTED_BIT \<notin> uxBits then
               if retries s < WIFI_MANAGER_MAX_RETRY_START_AP then Some (s\<lparr>retries := retries s + 1\<rparr>)
               else wifi_manager_send_message WM_ORDER_START_AP No_Param (s\<lparr>retries := 0\<rparr>)
             else Some s
           });
     Some (run_callback E WM_EVENT_STA_DISCONNECTED param s)
   }"

definition on_start_ap :: "esp_oracle \<Rightarrow> wm \<Rightarrow> wm option" where
  "on_start_ap E s = do {
     s \<leftarrow> esp_error_check E (Wifi_Set_Mode WIFI_MODE_APSTA) s;
     let s = act E (Http_App_Start True) (act E Http_App_Stop s);
     let s = act E Dns_Server_Start s;
     Some (run_callback E WM_ORDER_START_AP No_Param s)
   }"

definition on_stop_ap :: "esp_oracle \<Rightarrow> wm \<Rightarrow> wm option" where
  "on_stop_ap E s =
     (if WIFI_CONNECTED_BIT \<in> bits s then
        (let s = act E (Wifi_Set_Mode WIFI_MODE_STA) s;
             s = act E Dns_Server_Stop s;
             s = act E (Http_App_Start False) (act E Http_App_Stop s)
         in Some (run_callback E WM_ORDER_STOP_AP No_Param s))
      else Some s)"

definition on_sta_got_ip :: "esp_oracle \<Rightarrow> u32 \<Rightarrow> wm \<Rightarrow> wm option" where
  "on_sta_got_ip E ip s = do {
     let uxBits = bits s;
     let s = clear_bit REQUEST_STA_CONNECT_BIT s;
     s \<leftarrow> wifi_manager_safe_update_sta_ip_string E ip s;
     s \<leftarrow> (if REQUEST_RESTORE_STA_BIT \<in> uxBits then Some (clear_bit REQUEST_RESTORE_STA_BIT s)
          else do { (_, s) \<leftarrow> wifi_manager_save_sta_config E s; Some s });
     let s = s\<lparr>retries := 0\<rparr>;
     (ok, s) \<leftarrow> refresh_status E UPDATE_CONNECTION_OK s;
     if \<not> ok then None else do {
       let s = act E Dns_Server_Stop s;
       s \<leftarrow> (if AP_STARTED_BIT \<in> uxBits then
               if 0 < SHUTDOWN_AP_TICKS then Some (act E (Timer_Start Shutdown_Ap_Timer) s)
               else wifi_manager_send_message WM_ORDER_STOP_AP No_Param s
             else Some s);
       Some (run_callback E WM_EVENT_STA_GOT_IP (Got_Ip ip) s)
     }
   }"

definition on_disconnect_sta :: "esp_oracle \<Rightarrow> wm \<Rightarrow> wm option" where
  "on_disconnect_sta E s = do {
     s \<leftarrow> esp_error_check E Wifi_Disconnect (set_bit REQUEST_DISCONNECT_BIT s);
     Some (run_callback E WM_ORDER_DISCONNECT_STA No_Param s)
   }"

text \<open>The switch of the main loop.  An event without its data would be a NULL dereference.\<close>

definition wifi_manager_message :: "esp_oracle \<Rightarrow> queue_message \<Rightarrow> wm \<Rightarrow> wm option" where
  "wifi_manager_message E msg s =
     (case msg of (code, param) \<Rightarrow>
       (case code of
          WM_EVENT_SCAN_DONE \<Rightarrow> (case param of Scan_Status status \<Rightarrow> on_scan_done E status s | _ \<Rightarrow> None)
        | WM_ORDER_START_WIFI_SCAN \<Rightarrow> on_start_wifi_scan E s
        | WM_ORDER_LOAD_AND_RESTORE_STA \<Rightarrow> on_load_and_restore_sta E s
        | WM_ORDER_CONNECT_STA \<Rightarrow> on_connect_sta E param s
        | WM_EVENT_STA_DISCONNECTED \<Rightarrow>
            (case param of Disconnect_Reason r \<Rightarrow> on_sta_disconnected E param s | _ \<Rightarrow> None)
        | WM_ORDER_START_AP \<Rightarrow> on_start_ap E s
        | WM_ORDER_STOP_AP \<Rightarrow> on_stop_ap E s
        | WM_EVENT_STA_GOT_IP \<Rightarrow> (case param of Got_Ip ip \<Rightarrow> on_sta_got_ip E ip s | _ \<Rightarrow> None)
        | WM_ORDER_DISCONNECT_STA \<Rightarrow> on_disconnect_sta E s
        | _ \<Rightarrow> Some s))"

definition wifi_manager_round :: "esp_oracle \<Rightarrow> wm \<Rightarrow> wm option" where
  "wifi_manager_round E s =
     (case queue s of [] \<Rightarrow> None | msg # q \<Rightarrow> wifi_manager_message E msg (s\<lparr>queue := q\<rparr>))"

section \<open>What the parts leave alone\<close>

text \<open>The calls that steer the radio, the timers and the two servers.\<close>

fun steers :: "esp_call \<Rightarrow> bool" where
  "steers (Wifi_Set_Mode m) = True"
| "steers (Wifi_Set_Sta_Config c) = True"
| "steers Wifi_Start = True"
| "steers Wifi_Connect = True"
| "steers Wifi_Disconnect = True"
| "steers Wifi_Scan_Start = True"
| "steers Wifi_Scan_Stop = True"
| "steers (Timer_Start t) = True"
| "steers (Timer_Stop t) = True"
| "steers (Http_App_Start lru) = True"
| "steers Http_App_Stop = True"
| "steers Dns_Server_Start = True"
| "steers Dns_Server_Stop = True"
| "steers c = False"

definition orders :: "wm \<Rightarrow> esp_call list" where
  "orders s = filter steers (calls s)"

lemma orders_call [simp]:
  "orders (snd (call E c s)) = orders s @ (if steers c then [c] else [])"
  "orders (act E c s) = orders s @ (if steers c then [c] else [])"
  by (simp_all add: orders_def)

lemma orders_update [simp]:
  "orders (s\<lparr>queue := q\<rparr>) = orders s" "orders (s\<lparr>bits := b\<rparr>) = orders s" "orders (s\<lparr>retries := r\<rparr>) = orders s"
  "orders (s\<lparr>config_sta := c\<rparr>) = orders s" "orders (s\<lparr>ip_info_json := j\<rparr>) = orders s"
  "orders (s\<lparr>sta_ip := j\<rparr>) = orders s" "orders (s\<lparr>wifi_settings_var := v\<rparr>) = orders s"
  "orders (set_bit w s) = orders s" "orders (clear_bit w s) = orders s"
  by (simp_all add: orders_def set_bit_def clear_bit_def)

text \<open>
  A part is quiet when it steers nothing, changes only texts and configuration, keeps
  the sizes of the texts, and ends holding the mutexes of the texts as at its start.
\<close>

definition quiet :: "esp_oracle \<Rightarrow> wm \<Rightarrow> wm \<Rightarrow> bool" where
  "quiet E s s' \<longleftrightarrow>
     orders s' = orders s \<and> queue s' = queue s \<and> bits s' = bits s \<and> retries s' = retries s \<and> ap_num s' = ap_num s
     \<and> accessp_records s' = accessp_records s \<and> accessp_json s' = accessp_json s
     \<and> mutexes s' = mutexes s \<and> callbacks s' = callbacks s \<and> wifi_handler_set s' = wifi_handler_set s
     \<and> length (ip_info_json s') = length (ip_info_json s) \<and> length (sta_ip s') = length (sta_ip s)
     \<and> (config_sta s' = None \<longrightarrow> config_sta s = None)
     \<and> held E Json_Mutex s' = held E Json_Mutex s \<and> held E Sta_Ip_Mutex s' = held E Sta_Ip_Mutex s"

lemma quiet_refl [simp]: "quiet E s s"
  by (simp add: quiet_def)

lemma quiet_trans: "quiet E s s' \<Longrightarrow> quiet E s' s'' \<Longrightarrow> quiet E s s''"
  by (simp add: quiet_def)

text \<open>Calls that are no semaphore calls.\<close>

fun plain_call :: "esp_call \<Rightarrow> bool" where
  "plain_call (Sem_Take m t) = False"
| "plain_call (Sem_Give m) = False"
| "plain_call c = True"

lemma held_plain: "plain_call c \<Longrightarrow> held E m (snd (call E c s)) = held E m s"
  by (cases c) (simp_all add: held_call)

lemma held_act: "plain_call c \<Longrightarrow> held E m (act E c s) = held E m s"
  by (simp add: act_def held_plain)

lemma held_give: "held E m (act E (Sem_Give m') s) = held E m s - of_bool (m' = m)"
  by (simp add: act_def held_call)

lemma quiet_call: "plain_call c \<Longrightarrow> \<not> steers c \<Longrightarrow> quiet E s s' \<Longrightarrow> quiet E s (snd (call E c s'))"
  by (simp add: quiet_def held_plain)

lemma quiet_act: "plain_call c \<Longrightarrow> \<not> steers c \<Longrightarrow> quiet E s s' \<Longrightarrow> quiet E s (act E c s')"
  by (simp add: quiet_def held_act)

lemma quiet_nvs: "quiet E s s' \<Longrightarrow> quiet E s (nvs_sync_unlock E s')"
  by (simp add: quiet_def nvs_sync_unlock_def held_give)

lemma take_mutex_cases:
  assumes "take_mutex E m t s = Some (ok, s')"
  obtains (taken) "ok" "s' = snd (call E (Sem_Take m t) s)" "held E m s' = held E m s + 1"
      "\<And>m'. m' \<noteq> m \<Longrightarrow> held E m' s' = held E m' s"
  | (refused) "\<not> ok" "s' = s \<or> s' = snd (call E (Sem_Take m t) s)" "\<And>m'. held E m' s' = held E m' s"
  using assms
  by (cases ok; cases "m \<in> mutexes s") (auto simp: take_mutex_def Let_def split_beta held_call split: if_splits)

lemma nvs_lock_quiet:
  assumes "nvs_sync_lock E t s = Some (ok, s')"
  shows "quiet E s s'"
  using assms unfolding nvs_sync_lock_def by (cases rule: take_mutex_cases) (auto simp: quiet_def)

lemmas quiet_steps = quiet_call quiet_act quiet_nvs

lemma save_ssid_quiet:
  "case save_ssid E cfg s of Inl res \<Rightarrow> quiet E s (snd res) | Inr (ch, tmp, s') \<Rightarrow> quiet E s s'"
  by (simp add: save_ssid_def Let_def split_beta nvs_get_bytes_frame quiet_steps)

lemma save_password_quiet:
  "case save_password E cfg ch tmp s of Inl res \<Rightarrow> quiet E s (snd res) | Inr (ch, s') \<Rightarrow> quiet E s s'"
  by (simp add: save_password_def Let_def split_beta nvs_get_bytes_frame quiet_steps)

lemma save_settings_quiet:
  "case save_settings E ch s of Inl res \<Rightarrow> quiet E s (snd res) | Inr (ch, err, s') \<Rightarrow> quiet E s s'"
  by (simp add: save_settings_def Let_def split_beta nvs_get_settings_frame quiet_steps)

lemma save_finish_quiet: "quiet E s (snd (save_finish E ch err s))"
  by (simp add: save_finish_def Let_def split_beta quiet_steps)

lemma save_locked_quiet: "quiet E s (snd (save_locked E cfg s))"
proof -
  let ?s1 = "snd (call E (Nvs_Open True) s)"
  have q1: "quiet E s ?s1" by (simp add: quiet_steps)
  show ?thesis
  proof (cases "r_err (fst (call E (Nvs_Open True) s)) = ESP_OK")
    case False
    then show ?thesis using q1 by (simp add: save_locked_def split_beta quiet_nvs)
  next
    case opened: True
    consider (fail) res where "save_ssid E cfg ?s1 = Inl res"
      | (more) ch tmp s2 where "save_ssid E cfg ?s1 = Inr (ch, tmp, s2)" by (cases "save_ssid E cfg ?s1") auto
    then show ?thesis
    proof cases
      case fail
      with opened save_ssid_quiet [of E ?s1 cfg] quiet_trans [OF q1] show ?thesis by (simp add: save_locked_def split_beta)
    next
      case 2: more
      with save_ssid_quiet [of E ?s1 cfg] quiet_trans [OF q1] have q2: "quiet E s s2" by simp
      consider (fail) res where "save_password E cfg ch tmp s2 = Inl res"
        | (more) ch3 s3 where "save_password E cfg ch tmp s2 = Inr (ch3, s3)"
        by (cases "save_password E cfg ch tmp s2") auto
      then show ?thesis
      proof cases
        case fail
        with 2 opened save_password_quiet [of E s2 cfg ch tmp] quiet_trans [OF q2] show ?thesis
          by (simp add: save_locked_def split_beta)
      next
        case 3: more
        with save_password_quiet [of E s2 cfg ch tmp] quiet_trans [OF q2] have q3: "quiet E s s3" by simp
        consider (fail) res where "save_settings E ch3 s3 = Inl res"
          | (more) ch4 err s4 where "save_settings E ch3 s3 = Inr (ch4, err, s4)"
          by (cases "save_settings E ch3 s3") auto
        then show ?thesis
        proof cases
          case fail
          with 2 3 opened save_settings_quiet [of E s3 ch3] quiet_trans [OF q3] show ?thesis
            by (simp add: save_locked_def split_beta)
        next
          case 4: more
          with save_settings_quiet [of E s3 ch3] quiet_trans [OF q3] have "quiet E s s4" by simp
          from quiet_trans [OF this save_finish_quiet] 2 3 4 opened show ?thesis
            by (simp add: save_locked_def split_beta)
        qed
      qed
    qed
  qed
qed

lemma save_quiet:
  assumes "wifi_manager_save_sta_config E s = Some (err, s')"
  shows "quiet E s s'"
  using assms nvs_lock_quiet [of E None s] save_locked_quiet quiet_trans
  by (auto simp: wifi_manager_save_sta_config_def split: option.splits if_splits) (metis snd_conv)

lemma quiet_config: "quiet E s s' \<Longrightarrow> quiet E s (s'\<lparr>config_sta := Some c\<rparr>)"
  by (simp add: quiet_def)

lemma quiet_settings: "quiet E s s' \<Longrightarrow> quiet E s (s'\<lparr>wifi_settings_var := v\<rparr>)"
  by (simp add: quiet_def)

lemma fetch_locked_quiet: "quiet E s (snd (fetch_locked E s))"
  by (simp add: fetch_locked_def Let_def split_beta nvs_get_bytes_frame nvs_get_settings_frame
      quiet_steps quiet_config quiet_settings)

lemma fetch_quiet:
  assumes "wifi_manager_fetch_wifi_sta_config E s = Some (ok, s')"
  shows "quiet E s s'"
  using assms nvs_lock_quiet [of E None s] fetch_locked_quiet quiet_trans
  by (auto simp: wifi_manager_fetch_wifi_sta_config_def split: if_splits) (metis snd_conv)

lemma ip_info_texts_quiet: "ip_info_texts E urc s = Some (ips, s') \<Longrightarrow> quiet E s s'"
  by (auto simp: ip_info_texts_def esp_ip4addr_ntoa_def Let_def split_beta quiet_steps split: if_splits)

lemma length_json_print:
  "json_print_string (Some inp) (Some b) off = Some (r, Some b') \<Longrightarrow> length b' = length b"
  by (auto simp: json_print_string_eq split: if_splits)

lemma length_snprintf: "c_snprintf b off n t = Some b' \<Longrightarrow> length b' = length b"
  by (auto simp: c_snprintf_def split: if_splits dest: buf_write_length)

lemma length_strcpy: "c_strcpy b t = Some b' \<Longrightarrow> length b' = length b"
  by (auto simp: c_strcpy_def dest: buf_write_length)

lemma quiet_ip_info: "quiet E s s' \<Longrightarrow> length b = length (ip_info_json s) \<Longrightarrow> quiet E s (s'\<lparr>ip_info_json := b\<rparr>)"
  by (simp add: quiet_def)

lemma quiet_sta_ip: "quiet E s s' \<Longrightarrow> length b = length (sta_ip s) \<Longrightarrow> quiet E s (s'\<lparr>sta_ip := b\<rparr>)"
  by (simp add: quiet_def)

lemma json_print_Some_buffer:
  "json_print_string (Some inp) (Some b) off = Some (r, ob) \<Longrightarrow> ob \<noteq> None"
  by (auto simp: json_print_string_eq split: if_splits)

lemma clear_ip_info_quiet: "wifi_manager_clear_ip_info_json s = Some s' \<Longrightarrow> quiet E s s'"
  by (auto simp: wifi_manager_clear_ip_info_json_def intro!: quiet_ip_info dest: length_strcpy)

lemma generate_ip_info_quiet:
  assumes "wifi_manager_generate_ip_info_json E urc s = Some s'"
  shows "quiet E s s'"
proof (cases "config_sta s")
  case None
  with assms show ?thesis by (simp add: wifi_manager_generate_ip_info_json_def clear_ip_info_quiet)
next
  case (Some c)
  with assms show ?thesis
    by (auto simp: wifi_manager_generate_ip_info_json_def Let_def
        intro!: quiet_ip_info
        dest!: ip_info_texts_quiet length_snprintf length_json_print length_strcpy buf_write_length)
qed

lemma refresh_quiet:
  assumes "refresh_status E urc s = Some (ok, s')"
  shows "quiet E s s'"
proof -
  obtain b s1 where l: "take_mutex E Json_Mutex None s = Some (b, s1)"
    using assms by (auto simp: refresh_status_def wifi_manager_lock_json_buffer_def)
  show ?thesis
    using l
  proof (cases rule: take_mutex_cases)
    case taken
    then obtain s2 where s2: "wifi_manager_generate_ip_info_json E urc s1 = Some s2" "s' = act E (Sem_Give Json_Mutex) s2"
      using assms l by (auto simp: refresh_status_def wifi_manager_lock_json_buffer_def wifi_manager_unlock_json_buffer_def)
    with generate_ip_info_quiet [OF s2(1)] taken show ?thesis by (auto simp: quiet_def held_give)
  next
    case refused
    with assms l show ?thesis by (auto simp: refresh_status_def wifi_manager_lock_json_buffer_def quiet_def)
  qed
qed

lemma update_sta_ip_quiet:
  assumes "wifi_manager_safe_update_sta_ip_string E ip s = Some s'"
  shows "quiet E s s'"
proof -
  obtain b s1 where l: "take_mutex E Sta_Ip_Mutex None s = Some (b, s1)"
    using assms by (auto simp: wifi_manager_safe_update_sta_ip_string_def wifi_manager_lock_sta_ip_string_def)
  show ?thesis
    using l
  proof (cases rule: take_mutex_cases)
    case taken
    then obtain x where x: "c_strcpy (sta_ip s1) (fst (esp_ip4addr_ntoa E ip s1)) = Some x"
        "s' = act E (Sem_Give Sta_Ip_Mutex) ((snd (call E (Ip_Ntoa ip) s1))\<lparr>sta_ip := x\<rparr>)"
      using assms l
      by (auto simp: wifi_manager_safe_update_sta_ip_string_def wifi_manager_lock_sta_ip_string_def
          wifi_manager_unlock_sta_ip_string_def esp_ip4addr_ntoa_def Let_def split_beta)
    with taken length_strcpy [OF x(1)] show ?thesis by (auto simp: quiet_def held_give held_plain)
  next
    case refused
    with assms l show ?thesis
      by (auto simp: wifi_manager_safe_update_sta_ip_string_def wifi_manager_lock_sta_ip_string_def quiet_def)
  qed
qed

section \<open>Steps and invariant\<close>

text \<open>
  One step: an event, a timer, a request of the web server or the application, a new
  configuration from the web server, or the manager's task handling its next message.
\<close>

inductive wm_step :: "esp_oracle \<Rightarrow> wm \<Rightarrow> wm \<Rightarrow> bool" for E where
  event: "wifi_manager_event_handler E ev s = Some s' \<Longrightarrow> wm_step E s s'"
| retry_timer: "wifi_manager_timer_retry_cb E s = Some s' \<Longrightarrow> wm_step E s s'"
| shutdown_timer: "wifi_manager_timer_shutdown_ap_cb E s = Some s' \<Longrightarrow> wm_step E s s'"
| scan: "wifi_manager_scan_async s = Some s' \<Longrightarrow> wm_step E s s'"
| disconnect: "wifi_manager_disconnect_async s = Some s' \<Longrightarrow> wm_step E s s'"
| connect: "wifi_manager_connect_async E s = Some s' \<Longrightarrow> wm_step E s s'"
| button: "change_state_wifi s = Some s' \<Longrightarrow> wm_step E s s'"
| configure: "length (cfg_ssid c) = 32 \<Longrightarrow> length (cfg_password c) = 64 \<Longrightarrow> wm_step E s (s\<lparr>config_sta := Some c\<rparr>)"
| message: "wifi_manager_round E s = Some s' \<Longrightarrow> wm_step E s s'"

inductive wm_reachable :: "esp_oracle \<Rightarrow> wm \<Rightarrow> wm \<Rightarrow> bool" for E s0 where
  init: "wm_reachable E s0 s0"
| step: "wm_reachable E s0 s \<Longrightarrow> wm_step E s s' \<Longrightarrow> wm_reachable E s0 s'"

inductive_cases wm_stepE: "wm_step E s s'"

fun message_ok :: "queue_message \<Rightarrow> bool" where
  "message_ok (WM_EVENT_SCAN_DONE, p) = (\<exists>n. p = Scan_Status n)"
| "message_ok (WM_EVENT_STA_DISCONNECTED, p) = (\<exists>r. p = Disconnect_Reason r)"
| "message_ok (WM_EVENT_STA_GOT_IP, p) = (\<exists>ip. p = Got_Ip ip)"
| "message_ok (c, p) = True"

definition wm_ok :: "esp_oracle \<Rightarrow> wm \<Rightarrow> bool" where
  "wm_ok E s \<longleftrightarrow>
     retries s \<le> WIFI_MANAGER_MAX_RETRY_START_AP \<and> length (queue s) \<le> WM_QUEUE_LENGTH
     \<and> list_all message_ok (queue s)
     \<and> length (accessp_json s) = accessp_json_size \<and> length (ip_info_json s) = JSON_IP_INFO_SIZE
     \<and> length (sta_ip s) = IP4ADDR_STRLEN_MAX \<and> config_sta s \<noteq> None
     \<and> length (accessp_records s) = MAX_AP_NUM \<and> ap_num s \<le> MAX_AP_NUM
     \<and> held E Json_Mutex s = 0 \<and> held E Sta_Ip_Mutex s = 0"

lemma quiet_ok: "quiet E s s' \<Longrightarrow> wm_ok E s \<Longrightarrow> wm_ok E s'"
  by (auto simp: quiet_def wm_ok_def)

lemma ok_act: "plain_call c \<Longrightarrow> wm_ok E s \<Longrightarrow> wm_ok E (act E c s)"
  by (simp add: wm_ok_def held_act)

lemma ok_call: "plain_call c \<Longrightarrow> wm_ok E s \<Longrightarrow> wm_ok E (snd (call E c s))"
  by (simp add: wm_ok_def held_plain)

lemma ok_bits: "wm_ok E s \<Longrightarrow> wm_ok E (set_bit b s)" "wm_ok E s \<Longrightarrow> wm_ok E (clear_bit b s)"
  by (simp_all add: wm_ok_def set_bit_def clear_bit_def)

lemma ok_config: "wm_ok E s \<Longrightarrow> wm_ok E (s\<lparr>config_sta := Some c\<rparr>)"
  by (simp add: wm_ok_def)

lemma ok_retries: "wm_ok E s \<Longrightarrow> r \<le> WIFI_MANAGER_MAX_RETRY_START_AP \<Longrightarrow> wm_ok E (s\<lparr>retries := r\<rparr>)"
  by (simp add: wm_ok_def)

lemma ok_send:
  assumes "wifi_manager_send_message c p s = Some s'" "wm_ok E s" "message_ok (c, p)"
  shows "wm_ok E s'"
  using assms by (auto simp: wifi_manager_send_message_def wm_ok_def split: if_splits)

lemma ok_check:
  assumes "esp_error_check E c s = Some s'" "plain_call c" "wm_ok E s"
  shows "wm_ok E s'"
  using assms ok_call by (auto simp: esp_error_check_def split_beta split: if_splits)

lemma ok_callback: "wm_ok E s \<Longrightarrow> wm_ok E (run_callback E c p s)"
  by (simp add: run_callback_def ok_act)

lemma ok_set_sta_config: "set_sta_config E s = Some s' \<Longrightarrow> wm_ok E s \<Longrightarrow> wm_ok E s'"
  by (auto simp: set_sta_config_def split: option.splits intro: ok_check)

lemmas ok_intros = ok_act ok_call ok_bits ok_config ok_retries ok_callback

text \<open>The scan result: the list and its text keep their sizes.\<close>

lemma fold_length:
  "(\<And>x a. length (f x a) = length a) \<Longrightarrow> length (fold f xs a) = length a"
  by (induction xs arbitrary: a) auto

lemma length_filter_inner [simp]: "length (filter_inner i j l) = length l"
  by (simp add: filter_inner_def Let_def)

lemma length_filter_outer [simp]: "length (filter_outer n i l) = length l"
  by (simp add: filter_outer_def fold_length)

lemma reorder_fold:
  "fold (reorder_step n) xs (l, f, k) = (l', f', k') \<Longrightarrow> length l' = length l \<and> k' \<le> k"
proof (induction xs arbitrary: l f k)
  case (Cons x xs)
  obtain l1 f1 k1 where r: "reorder_step n x (l, f, k) = (l1, f1, k1)" by (cases "reorder_step n x (l, f, k)")
  then have "length l1 = length l \<and> k1 \<le> k"
    by (auto simp: reorder_step_def Let_def split: if_splits option.splits)
  with Cons r show ?case by fastforce
qed simp

lemma filter_unique_length:
  assumes "wifi_manager_filter_unique l n = (l', n')"
  shows "length l' = length l" "n' \<le> n"
  using assms reorder_fold [of n "[0..<n]"]
  by (auto simp: wifi_manager_filter_unique_def Let_def fold_length split: prod.splits)

lemma length_strcat: "c_strcat b t = Some b' \<Longrightarrow> length b' = length b"
  by (auto simp: c_strcat_def dest: buf_write_length)

lemma access_points_loop_length:
  "access_points_loop i n aps b = Some b' \<Longrightarrow> length b' = length b"
proof (induction aps arbitrary: i b)
  case (Cons ap aps)
  from Cons.prems obtain b1 off r b2 o1 b3 where
      "c_strcat b ''{\"ssid\":'' = Some b1"
      "json_print_string (Some (ap_ssid ap)) (Some b1) off = Some (r, Some b2)"
      "c_strcat b2 (cstr o1) = Some b3" "access_points_loop (Suc i) n aps b3 = Some b'"
    by (auto simp: access_points_loop.simps)
  then show ?case using Cons.IH [of "Suc i" b3] length_strcat length_json_print by metis
qed (simp add: access_points_loop.simps)

lemma access_points_json_length:
  "wifi_manager_generate_acess_points_json r n b = Some b' \<Longrightarrow> length b' = length b"
  by (auto simp: wifi_manager_generate_acess_points_json_def dest!: access_points_loop_length length_strcpy)

text \<open>Each message keeps the invariant; so do the steps of the other tasks.\<close>

lemma ok_refresh_access_points:
  assumes "wm_ok E s" "refresh_access_points E s = Some s'"
  shows "wm_ok E s'"
proof -
  obtain ok s2 where l: "take_mutex E Json_Mutex (Some 100) s = Some (ok, s2)"
    using assms(2) by (auto simp: refresh_access_points_def wifi_manager_lock_json_buffer_def)
  show ?thesis
    using l
  proof (cases rule: take_mutex_cases)
    case taken
    obtain f n where f: "wifi_manager_filter_unique (accessp_records s2) (ap_num s2) = (f, n)" by fastforce
    with assms(2) l taken(1) obtain j where j: "wifi_manager_generate_acess_points_json f n (accessp_json s2) = Some j"
      and s': "s' = act E (Sem_Give Json_Mutex) (s2\<lparr>accessp_records := f, ap_num := n, accessp_json := j\<rparr>)"
      by (auto simp: refresh_access_points_def wifi_manager_lock_json_buffer_def wifi_manager_unlock_json_buffer_def)
    show ?thesis
      unfolding s' using assms(1) taken(2-4) filter_unique_length [OF f] access_points_json_length [OF j]
      by (auto simp: wm_ok_def held_give)
  next
    case refused
    with assms l have "s' = s2" by (simp add: refresh_access_points_def wifi_manager_lock_json_buffer_def)
    with refused assms(1) show ?thesis by (auto simp: wm_ok_def)
  qed
qed

lemma ok_scan_done:
  assumes "wm_ok E s" "on_scan_done E status s = Some s'"
  shows "wm_ok E s'"
proof (cases "status = 0")
  case False
  with assms show ?thesis by (auto simp: on_scan_done_def intro: ok_intros)
next
  case True
  let ?r = "call E (Wifi_Scan_Get_Ap_Records MAX_AP_NUM) (s\<lparr>ap_num := MAX_AP_NUM\<rparr>)"
  define aps where "aps = take MAX_AP_NUM (r_aps (fst ?r))"
  define s1 where "s1 = (snd ?r)\<lparr>ap_num := length aps, accessp_records := aps @ drop (length aps) (accessp_records s)\<rparr>"
  have s1: "wm_ok E s1" using assms(1) by (auto simp: wm_ok_def held_plain s1_def aps_def min_def)
  obtain s2 where "refresh_access_points E s1 = Some s2"
      "s' = run_callback E WM_EVENT_SCAN_DONE (Scan_Status status) s2"
    using assms(2) True
    by (auto simp: on_scan_done_def Let_def split_beta s1_def aps_def split: if_splits)
  with ok_refresh_access_points [OF s1] ok_callback show ?thesis by blast
qed

lemma ok_start_scan: "on_start_wifi_scan E s = Some s' \<Longrightarrow> wm_ok E s \<Longrightarrow> wm_ok E s'"
  by (auto simp: on_start_wifi_scan_def Let_def intro!: ok_intros split: if_splits)

lemma ok_load_restore: "on_load_and_restore_sta E s = Some s' \<Longrightarrow> wm_ok E s \<Longrightarrow> wm_ok E s'"
  by (auto simp: on_load_and_restore_sta_def intro!: ok_intros split: if_splits
      dest!: fetch_quiet quiet_ok elim!: ok_send)

lemma ok_connect_sta: "on_connect_sta E p s = Some s' \<Longrightarrow> wm_ok E s \<Longrightarrow> wm_ok E s'"
  by (auto simp: on_connect_sta_def Let_def intro!: ok_intros split: if_splits
      elim!: ok_check ok_set_sta_config)

lemma ok_refresh: "refresh_status E urc s = Some (ok, s') \<Longrightarrow> wm_ok E s \<Longrightarrow> wm_ok E s'"
  by (rule quiet_ok [OF refresh_quiet])

lemma ok_update_sta_ip: "wifi_manager_safe_update_sta_ip_string E ip s = Some s' \<Longrightarrow> wm_ok E s \<Longrightarrow> wm_ok E s'"
  by (rule quiet_ok [OF update_sta_ip_quiet])

lemma ok_save: "wifi_manager_save_sta_config E s = Some (err, s') \<Longrightarrow> wm_ok E s \<Longrightarrow> wm_ok E s'"
  by (rule quiet_ok [OF save_quiet])

lemma ok_erase: "wm_ok E s \<Longrightarrow> wm_ok E (s\<lparr>config_sta := map_option (\<lambda>_. zero_config) (config_sta s)\<rparr>)"
  by (simp add: wm_ok_def)

lemma retry_below: "r < WIFI_MANAGER_MAX_RETRY_START_AP \<Longrightarrow> r + 1 \<le> WIFI_MANAGER_MAX_RETRY_START_AP" for r :: u8
  by (rule inc_le)

lemmas ok_elims = ok_refresh ok_update_sta_ip ok_save ok_send ok_check

lemma ok_sta_disconnected: "on_sta_disconnected E p s = Some s' \<Longrightarrow> wm_ok E s \<Longrightarrow> wm_ok E s'"
  by (auto simp: on_sta_disconnected_def Let_def split_beta intro!: ok_intros ok_erase retry_below split: if_splits
      elim!: ok_elims)

lemma ok_start_ap: "on_start_ap E s = Some s' \<Longrightarrow> wm_ok E s \<Longrightarrow> wm_ok E s'"
  by (auto simp: on_start_ap_def Let_def intro!: ok_intros elim!: ok_check)

lemma ok_stop_ap: "on_stop_ap E s = Some s' \<Longrightarrow> wm_ok E s \<Longrightarrow> wm_ok E s'"
  by (auto simp: on_stop_ap_def Let_def intro!: ok_intros split: if_splits)

lemma ok_got_ip: "on_sta_got_ip E ip s = Some s' \<Longrightarrow> wm_ok E s \<Longrightarrow> wm_ok E s'"
  by (auto simp: on_sta_got_ip_def Let_def intro!: ok_intros split: if_splits elim!: ok_elims)

lemma ok_disconnect_sta: "on_disconnect_sta E s = Some s' \<Longrightarrow> wm_ok E s \<Longrightarrow> wm_ok E s'"
  by (auto simp: on_disconnect_sta_def intro!: ok_intros elim!: ok_check)

lemmas ok_handlers = ok_scan_done ok_start_scan ok_load_restore ok_connect_sta ok_sta_disconnected ok_start_ap
  ok_stop_ap ok_got_ip ok_disconnect_sta

lemma ok_message: "wifi_manager_message E msg s = Some s' \<Longrightarrow> wm_ok E s \<Longrightarrow> wm_ok E s'"
  by (auto simp: wifi_manager_message_def split: prod.splits message_code.splits message_param.splits
      intro: ok_handlers)

lemma ok_round:
  assumes "wifi_manager_round E s = Some s'" "wm_ok E s"
  shows "wm_ok E s'"
proof -
  obtain msg q where q: "queue s = msg # q" using assms(1) by (auto simp: wifi_manager_round_def split: list.splits)
  with assms(2) have "wm_ok E (s\<lparr>queue := q\<rparr>)" by (auto simp: wm_ok_def)
  with ok_message assms(1) q show ?thesis by (fastforce simp: wifi_manager_round_def)
qed

lemma ok_event: "wifi_manager_event_handler E ev s = Some s' \<Longrightarrow> wm_ok E s \<Longrightarrow> wm_ok E s'"
  by (auto simp: wifi_manager_event_handler_def wifi_manager_ip_event_def Let_def split: if_splits wifi_event.splits
      intro!: ok_intros elim!: ok_send)

lemma ok_connect_async:
  assumes "wifi_manager_connect_async E s = Some s'" "wm_ok E s"
  shows "wm_ok E s'"
proof -
  obtain ok s1 where l: "take_mutex E Json_Mutex None s = Some (ok, s1)"
    using assms(1) by (auto simp: wifi_manager_connect_async_def wifi_manager_lock_json_buffer_def)
  obtain s2 where s2: "wifi_manager_send_message WM_ORDER_CONNECT_STA (Request CONNECTION_REQUEST_USER) s2 = Some s'"
      "if ok then \<exists>s3. wifi_manager_clear_ip_info_json s1 = Some s3 \<and> s2 = act E (Sem_Give Json_Mutex) s3 else s2 = s1"
    using assms(1) l
    by (auto simp: wifi_manager_connect_async_def wifi_manager_lock_json_buffer_def wifi_manager_unlock_json_buffer_def
        split: if_splits)
  have "wm_ok E s2"
    using l
  proof (cases rule: take_mutex_cases)
    case taken
    with s2(2) obtain s3 where "wifi_manager_clear_ip_info_json s1 = Some s3" "s2 = act E (Sem_Give Json_Mutex) s3"
      by auto
    with clear_ip_info_quiet [of s1 s3 E] taken assms(2) show ?thesis by (auto simp: wm_ok_def quiet_def held_give)
  next
    case refused
    with s2(2) assms(2) show ?thesis by (auto simp: wm_ok_def)
  qed
  with ok_send [OF s2(1)] show ?thesis by simp
qed

lemma ok_step: "wm_step E s s' \<Longrightarrow> wm_ok E s \<Longrightarrow> wm_ok E s'"
  by (elim wm_stepE)
    (auto simp: wifi_manager_timer_retry_cb_def wifi_manager_timer_shutdown_ap_cb_def wifi_manager_scan_async_def
      wifi_manager_disconnect_async_def change_state_wifi_def
      intro: ok_event ok_connect_async ok_round ok_config elim!: ok_send intro!: ok_intros)

lemma ok_reachable: "wm_reachable E s0 s \<Longrightarrow> wm_ok E s0 \<Longrightarrow> wm_ok E s"
  by (induction rule: wm_reachable.induct) (auto dest: ok_step)

end
