(* ===== verification/Wifi_Link.thy ===== *)
theory Wifi_Link
  imports Wifi_Manager
begin

text \<open>
  The life of the connection: from the start of the manager on every reachable state is well
  formed, and the decisions of the manager (retry, start the access point, give up) refine
  a small automaton of the connection.
\<close>

section \<open>From the start\<close>

lemma act_create_mutex:
  "calls (create_mutex E m s) = calls s @ [Mutex_Create m]" "queue (create_mutex E m s) = queue s"
  "accessp_records (create_mutex E m s) = accessp_records s" "accessp_json (create_mutex E m s) = accessp_json s"
  "ip_info_json (create_mutex E m s) = ip_info_json s" "sta_ip (create_mutex E m s) = sta_ip s"
  "config_sta (create_mutex E m s) = config_sta s" "ap_num (create_mutex E m s) = ap_num s"
  by (simp_all add: create_mutex_def Let_def split_beta)

lemma held_create_mutex: "held E m' (create_mutex E m s) = held E m' s"
  by (simp add: held_def act_create_mutex taken_append)

lemma held_nvs_create: "held E m (snd (nvs_sync_create E s)) = held E m s" "ap_num (snd (nvs_sync_create E s)) = ap_num s"
  by (simp_all add: nvs_sync_create_def Let_def split_beta held_plain)

lemma start_ok:
  assumes "wifi_manager_start E s0 = Some s" "calls s0 = []" "ap_num s0 \<le> MAX_AP_NUM"
  shows "wm_ok E (s\<lparr>retries := 0\<rparr>)"
proof -
  let ?s1 = "create_mutex E Json_Mutex ((snd (nvs_sync_create E (act E Nvs_Flash_Init s0)))\<lparr>queue := []\<rparr>)"
  obtain j s2 s3 where j: "wifi_manager_clear_access_points_json (replicate accessp_json_size NUL) = Some j"
    and s2: "wifi_manager_clear_ip_info_json (?s1\<lparr>accessp_records := replicate MAX_AP_NUM zero_ap, accessp_json := j,
         ip_info_json := replicate JSON_IP_INFO_SIZE NUL\<rparr>) = Some s2"
    and s3: "wifi_manager_safe_update_sta_ip_string E 0 ((create_mutex E Sta_Ip_Mutex (s2\<lparr>config_sta := Some zero_config,
         callbacks := {}\<rparr>))\<lparr>sta_ip := replicate IP4ADDR_STRLEN_MAX NUL\<rparr>) = Some s3"
    and s: "s = act E Task_Create (act E (Timer_Create Shutdown_Ap_Timer SHUTDOWN_AP_TICKS)
         (act E (Timer_Create Retry_Timer RETRY_TICKS) (s3\<lparr>bits := {}\<rparr>)))"
    using assms(1)
    by (auto simp: wifi_manager_start_def Let_def split_beta split: if_splits)
  have "held E m s0 = 0" for m using assms(2) by (simp add: held_def)
  then have "wm_ok E (s3\<lparr>retries := 0\<rparr>)"
    using clear_ip_info_quiet [OF s2, of E] update_sta_ip_quiet [OF s3] j assms(3)
    by (auto simp: quiet_def wm_ok_def act_create_mutex held_create_mutex held_nvs_create held_act
        wifi_manager_clear_access_points_json_def dest: length_strcpy)
  then show ?thesis
    by (simp add: s wm_ok_def held_act)
qed

lemma init_ok:
  assumes "wifi_manager_init E s = Some s'" "wm_ok E (s\<lparr>retries := 0\<rparr>)"
  shows "wm_ok E s'"
  using assms
  by (auto simp: wifi_manager_init_def Let_def ap_config_call_def intro!: ok_intros elim!: ok_check ok_send split: if_splits)

text \<open>
  C4: From the start on, whatever events, timers, requests and messages occur in whatever order
  and whatever ESP-IDF answers, the counter of lost connections stays at most 3, the queue has at most its 3
  messages, the list of access points has its 15 records and its two texts, the status and the
  address keep the sizes of their heap blocks, and no step ends holding the mutex of the texts
  or of the address.
\<close>

theorem wifi_manager_invariant:
  assumes "wifi_manager_start E s0 = Some s1" "wifi_manager_init E s1 = Some s2" "wm_reachable E s2 s"
    and "calls s0 = []" "ap_num s0 \<le> MAX_AP_NUM"
  shows "retries s \<le> 3 \<and> length (queue s) \<le> 3 \<and> ap_num s \<le> length (accessp_records s)
    \<and> length (accessp_records s) = 15 \<and> length (accessp_json s) = 1489 \<and> length (ip_info_json s) = 159
    \<and> length (sta_ip s) = 16 \<and> config_sta s \<noteq> None \<and> held E Json_Mutex s = 0 \<and> held E Sta_Ip_Mutex s = 0"
proof -
  have "wm_ok E s" using start_ok init_ok ok_reachable assms by blast
  then show ?thesis
    by (simp add: wm_ok_def WIFI_MANAGER_MAX_RETRY_START_AP_def WM_QUEUE_LENGTH_def MAX_AP_NUM_def
        accessp_json_size_def JSON_ONE_APP_SIZE_def JSON_IP_INFO_SIZE_def IP4ADDR_STRLEN_MAX_def)
qed

text \<open>An oracle that answers every call with success, and the state before the start.\<close>

definition all_well :: esp_oracle where
  "all_well h c = \<lparr>r_err = ESP_OK, r_flag = True, r_blocks = False, r_blob = Bytes [], r_aps = [],
     r_ips = (0, 0, 0), r_text = ''0.0.0.0''\<rparr>"

definition unstarted :: wm where
  "unstarted = \<lparr>calls = [], queue = [], bits = {}, retries = 0, ap_num = 0, accessp_records = [], accessp_json = [],
     ip_info_json = [], sta_ip = [], config_sta = None, wifi_settings_var = zero_settings, mutexes = {},
     callbacks = {}, wifi_handler_set = True\<rparr>"

lemma sizes: "4 < accessp_json_size" "4 < JSON_IP_INFO_SIZE" "7 < IP4ADDR_STRLEN_MAX" "0 < WM_QUEUE_LENGTH"
  by (simp_all add: accessp_json_size_def MAX_AP_NUM_def JSON_ONE_APP_SIZE_def JSON_IP_INFO_SIZE_def
      IP4ADDR_STRLEN_MAX_def WM_QUEUE_LENGTH_def)

lemma all_well_call: "E = all_well \<Longrightarrow> r_err (fst (call E c s)) = ESP_OK" "E = all_well \<Longrightarrow> r_flag (fst (call E c s))"
    "E = all_well \<Longrightarrow> \<not> r_blocks (fst (call E c s))" "E = all_well \<Longrightarrow> r_text (fst (call E c s)) = ''0.0.0.0''"
  by (simp_all add: call_def all_well_def)

lemma all_well_check: "esp_error_check all_well c s = Some (act all_well c s)"
  by (simp add: esp_error_check_def split_beta all_well_call act_def)

lemma all_well_start:
  "\<exists>s1 s2. wifi_manager_start all_well unstarted = Some s1 \<and> wifi_manager_init all_well s1 = Some s2
    \<and> queue s2 = [(WM_ORDER_LOAD_AND_RESTORE_STA, No_Param)] \<and> wifi_handler_set s2 \<and> bits s2 = {}"
  using sizes
  by (simp add: wifi_manager_start_def wifi_manager_init_def Let_def split_beta nvs_sync_create_def all_well_check
      all_well_call unstarted_def create_mutex_def wifi_manager_clear_access_points_json_def c_strcpy_eq
      wifi_manager_clear_ip_info_json_def
      wifi_manager_safe_update_sta_ip_string_def wifi_manager_lock_sta_ip_string_def take_mutex_def esp_ip4addr_ntoa_def
      wifi_manager_unlock_sta_ip_string_def wifi_manager_send_message_def)

theorem wifi_manager_invariant_witness:
  "\<exists>s1 s2 s. wifi_manager_start all_well unstarted = Some s1 \<and> wifi_manager_init all_well s1 = Some s2
    \<and> wm_reachable all_well s2 s \<and> AP_STARTED_BIT \<in> bits s \<and> retries s \<le> 3 \<and> length (queue s) \<le> 3
    \<and> held all_well Json_Mutex s = 0"
proof -
  obtain s1 s2 where s: "wifi_manager_start all_well unstarted = Some s1" "wifi_manager_init all_well s1 = Some s2"
      "wifi_handler_set s2"
    using all_well_start by blast
  let ?s = "set_bit AP_STARTED_BIT (act all_well (Wifi_Handler WIFI_EVENT_AP_START) s2)"
  have "wm_step all_well s2 ?s"
    by (rule wm_step.event [where ev = WIFI_EVENT_AP_START]) (simp add: wifi_manager_event_handler_def wifi_manager_ip_event_def s)
  then have r: "wm_reachable all_well s2 ?s"
    by (blast intro: wm_reachable.intros)
  have "calls unstarted = []" "ap_num unstarted \<le> MAX_AP_NUM" by (simp_all add: unstarted_def)
  from wifi_manager_invariant [OF s(1,2) r this] s r show ?thesis by (auto simp: set_bit_def)
qed

section \<open>What a message may carry\<close>

text \<open>
  C32: The parameter of a message is untyped; the handlers of the three events cast it and read through
  it.  In every reachable state a queued event carries the data of its own event, so no handler
  reads a NULL pointer or the data of another event, and the next message is handled by its handler.
\<close>

theorem queued_messages_typed:
  assumes "wifi_manager_start E s0 = Some s1" "wifi_manager_init E s1 = Some s2" "wm_reachable E s2 s"
    and "calls s0 = []" "ap_num s0 \<le> MAX_AP_NUM" and "(code, param) \<in> set (queue s)"
  shows "(case code of
      WM_EVENT_SCAN_DONE \<Rightarrow> \<exists>n. param = Scan_Status n \<and> wifi_manager_message E (code, param) s = on_scan_done E n s
    | WM_EVENT_STA_DISCONNECTED \<Rightarrow> \<exists>r. param = Disconnect_Reason r
        \<and> wifi_manager_message E (code, param) s = on_sta_disconnected E (Disconnect_Reason r) s
    | WM_EVENT_STA_GOT_IP \<Rightarrow> \<exists>ip. param = Got_Ip ip \<and> wifi_manager_message E (code, param) s = on_sta_got_ip E ip s
    | _ \<Rightarrow> True)"
proof -
  have "wm_ok E s" using start_ok init_ok ok_reachable assms(1-5) by blast
  then have "message_ok (code, param)" using assms(6) by (auto simp: wm_ok_def list_all_iff)
  then show ?thesis by (auto simp: wifi_manager_message_def split: message_code.split)
qed

theorem queued_messages_typed_witness:
  "\<exists>s1 s2 s. wifi_manager_start all_well unstarted = Some s1 \<and> wifi_manager_init all_well s1 = Some s2
    \<and> wm_reachable all_well s2 s \<and> (WM_EVENT_SCAN_DONE, Scan_Status 0) \<in> set (queue s)
    \<and> wifi_manager_message all_well (WM_EVENT_SCAN_DONE, Scan_Status 0) s = on_scan_done all_well 0 s"
proof -
  obtain s1 s2 where s: "wifi_manager_start all_well unstarted = Some s1" "wifi_manager_init all_well s1 = Some s2"
      "queue s2 = [(WM_ORDER_LOAD_AND_RESTORE_STA, No_Param)]" "wifi_handler_set s2"
    using all_well_start by blast
  obtain s3 where s3: "wifi_manager_event_handler all_well (WIFI_EVENT_SCAN_DONE 0) s2 = Some s3"
      "(WM_EVENT_SCAN_DONE, Scan_Status 0) \<in> set (queue s3)"
    using s by (simp add: wifi_manager_event_handler_def wifi_manager_ip_event_def Let_def wifi_manager_send_message_def WM_QUEUE_LENGTH_def clear_bit_def)
  then have r: "wm_reachable all_well s2 s3"
    by (blast intro: wm_reachable.intros wm_step.event)
  have "calls unstarted = []" "ap_num unstarted \<le> MAX_AP_NUM" by (simp_all add: unstarted_def)
  from queued_messages_typed [OF s(1,2) r this s3(2)] s s3 r show ?thesis by auto
qed

section \<open>Losing the connection\<close>

text \<open>The automaton of the connection: what a lost connection means, and what is done about it.\<close>

record link =
  user_request :: bool
  user_disconnect :: bool
  losses :: nat
  ap_on :: bool

datatype decision = Attempt_Failed | Left_By_User | Retry | Retry_And_Start_Ap

definition link_lost :: "link \<Rightarrow> decision \<times> link" where
  "link_lost l =
     (if user_request l then (Attempt_Failed, l\<lparr>user_request := False\<rparr>)
      else if user_disconnect l then (Left_By_User, l\<lparr>user_disconnect := False\<rparr>)
      else if ap_on l then (Retry, l)
      else if losses l < 3 then (Retry, l\<lparr>losses := losses l + 1\<rparr>)
      else (Retry_And_Start_Ap, l\<lparr>losses := 0\<rparr>))"

definition link_of :: "wm \<Rightarrow> link" where
  "link_of s = \<lparr>user_request = REQUEST_STA_CONNECT_BIT \<in> bits s, user_disconnect = REQUEST_DISCONNECT_BIT \<in> bits s,
     losses = unat (retries s), ap_on = AP_STARTED_BIT \<in> bits s\<rparr>"

definition retries_of :: "decision \<Rightarrow> esp_call list" where
  "retries_of d = (if d = Retry \<or> d = Retry_And_Start_Ap then [Timer_Start Retry_Timer] else [])"

definition messages_of :: "decision \<Rightarrow> queue_message list" where
  "messages_of d = (if d = Left_By_User \<or> d = Retry_And_Start_Ap then [(WM_ORDER_START_AP, No_Param)] else [])"

lemma unat_retry:
  fixes r :: u8
  shows "r < 3 \<Longrightarrow> unat (r + 1) = Suc (unat r)" "r < 3 \<longleftrightarrow> unat r < 3"
  by (simp_all add: word_less_nat_alt unat_arith_simps)

lemma run_callback_frame [simp]:
  "bits (run_callback E c p s) = bits s" "queue (run_callback E c p s) = queue s" "retries (run_callback E c p s) = retries s"
  "orders (run_callback E c p s) = orders s"
  by (simp_all add: run_callback_def)

lemma send_message_frame:
  "wifi_manager_send_message c p s = Some s' \<Longrightarrow>
    bits s' = bits s \<and> queue s' = queue s @ [(c, p)] \<and> retries s' = retries s \<and> orders s' = orders s"
  by (auto simp: wifi_manager_send_message_def split: if_splits)

text \<open>The message handler in three parts: bookkeeping, the decision, the callback.\<close>

definition same_link :: "wm \<Rightarrow> wm \<Rightarrow> bool" where
  "same_link s s' \<longleftrightarrow> bits s' = bits s \<and> queue s' = queue s \<and> retries s' = retries s \<and> orders s' = orders s
    \<and> wifi_handler_set s' = wifi_handler_set s"

lemma quiet_frame: "quiet E s s' \<Longrightarrow> same_link s s'"
  by (simp add: quiet_def same_link_def)

lemmas quiet_parts = refresh_quiet [THEN quiet_frame, unfolded same_link_def]
  save_quiet [THEN quiet_frame, unfolded same_link_def] update_sta_ip_quiet [THEN quiet_frame, unfolded same_link_def]

lemma bits_set_clear [simp]:
  "bits (clear_bit b s) = bits s - {b}" "bits (set_bit b s) = insert b (bits s)"
  "queue (clear_bit b s) = queue s" "queue (set_bit b s) = queue s"
  "retries (clear_bit b s) = retries s" "retries (set_bit b s) = retries s"
  by (simp_all add: clear_bit_def set_bit_def)

lemma sta_disconnected_refines_eq:
  assumes "on_sta_disconnected E p s = Some s'"
  defines "d \<equiv> fst (link_lost (link_of s))"
  shows "link_of s' = snd (link_lost (link_of s))" "queue s' = queue s @ messages_of d"
    "orders s' = orders s @ retries_of d \<or> orders s' = orders s @ Timer_Stop Shutdown_Ap_Timer # retries_of d"
proof -
  obtain s1 where s1: "wifi_manager_safe_update_sta_ip_string E 0 (clear_bit ORDER_STA s) = Some s1"
    using assms(1) by (auto simp: on_sta_disconnected_def)
  let ?c = "call E (Timer_Is_Active Shutdown_Ap_Timer) s1"
  define s2 where "s2 = (if r_flag (fst ?c) then act E (Timer_Stop Shutdown_Ap_Timer) (snd ?c) else snd ?c)"
  have s2: "bits s2 = bits s - {ORDER_STA}" "queue s2 = queue s" "retries s2 = retries s"
      "orders s2 = orders s \<or> orders s2 = orders s @ [Timer_Stop Shutdown_Ap_Timer]"
    using quiet_parts(3) [OF s1] by (simp_all add: s2_def)
  note unfold = on_sta_disconnected_def Let_def split_beta s2_def [symmetric]
  have "link_of s' = snd (link_lost (link_of s)) \<and> queue s' = queue s @ messages_of d \<and> orders s' = orders s2 @ retries_of d"
  proof (cases "user_request (link_of s)")
    case True
    then show ?thesis
      using assms(1) s1 s2 unfolding d_def
      by (auto simp: unfold link_lost_def link_of_def messages_of_def retries_of_def dest!: quiet_parts)
  next
    case no_request: False
    show ?thesis
    proof (cases "user_disconnect (link_of s)")
      case True
      with no_request show ?thesis
        using assms(1) s1 s2 unfolding d_def
        by (auto simp: unfold link_lost_def link_of_def messages_of_def retries_of_def dest!: quiet_parts send_message_frame)
    next
      case no_disconnect: False
      obtain ok s3 where s3: "refresh_status E UPDATE_LOST_CONNECTION s2 = Some (ok, s3)"
        using assms(1) s1 s2 no_request no_disconnect by (auto simp: unfold link_of_def)
      let ?s4 = "clear_bit REQUEST_RESTORE_STA_BIT (act E (Timer_Start Retry_Timer) s3)"
      define x where "x = (if AP_STARTED_BIT \<notin> bits s
          then (if retries ?s4 < WIFI_MANAGER_MAX_RETRY_START_AP then Some (?s4\<lparr>retries := retries ?s4 + 1\<rparr>)
                else wifi_manager_send_message WM_ORDER_START_AP No_Param (?s4\<lparr>retries := 0\<rparr>))
          else Some ?s4)"
      have s4: "bits ?s4 = bits s - {ORDER_STA} - {REQUEST_RESTORE_STA_BIT}" "queue ?s4 = queue s" "retries ?s4 = retries s"
          "orders ?s4 = orders s2 @ [Timer_Start Retry_Timer]"
        using quiet_parts(1) [OF s3] s2 by simp_all
      obtain s5 where s5: "x = Some s5" "s' = run_callback E WM_EVENT_STA_DISCONNECTED p s5"
        using assms(1) s1 s2(1) s3 no_request no_disconnect
        by (auto simp del: bits_set_clear(5,6) simp: unfold link_of_def x_def)
      consider (on) "AP_STARTED_BIT \<in> bits s" | (retry) "AP_STARTED_BIT \<notin> bits s" "unat (retries s) < 3"
        | (start) "AP_STARTED_BIT \<notin> bits s" "\<not> unat (retries s) < 3" by blast
      then show ?thesis
      proof cases
        case on
        with s5 have "s' = run_callback E WM_EVENT_STA_DISCONNECTED p ?s4" by (simp add: x_def)
        with s4 on no_request no_disconnect show ?thesis
          by (simp add: d_def link_lost_def link_of_def messages_of_def retries_of_def)
      next
        case retry
        with s5 s4(3) have "s' = run_callback E WM_EVENT_STA_DISCONNECTED p (?s4\<lparr>retries := retries s + 1\<rparr>)"
          by (simp add: x_def WIFI_MANAGER_MAX_RETRY_START_AP_def unat_retry(2))
        with s4 retry no_request no_disconnect unat_retry(1) [of "retries s"] show ?thesis
          by (simp add: d_def link_lost_def link_of_def messages_of_def retries_of_def unat_retry(2))
      next
        case start
        with s5 s4(3) have "wifi_manager_send_message WM_ORDER_START_AP No_Param (?s4\<lparr>retries := 0\<rparr>) = Some s5"
          by (simp add: x_def WIFI_MANAGER_MAX_RETRY_START_AP_def unat_retry(2))
        from send_message_frame [OF this] s5(2) s4 start no_request no_disconnect show ?thesis
          by (simp add: d_def link_lost_def link_of_def messages_of_def retries_of_def)
      qed
    qed
  qed
  with s2(4) show "link_of s' = snd (link_lost (link_of s))" "queue s' = queue s @ messages_of d"
    "orders s' = orders s @ retries_of d \<or> orders s' = orders s @ Timer_Stop Shutdown_Ap_Timer # retries_of d"
    by auto
qed

text \<open>
  C5: Handling a disconnection refines the automaton of the connection: the request bits, the
  counter and the access point bit change as the automaton says; exactly the order to start the access point is
  posted, when the user left or the fourth loss in a row is due; and of all calls that steer
  the radio, the timers and the servers, exactly the retry timer is started, when the automaton
  retries (the shutdown timer may be stopped before).
\<close>

theorem sta_disconnected_refines:
  assumes "on_sta_disconnected E p s = Some s'"
  shows "case link_lost (link_of s) of (d, l') \<Rightarrow>
    link_of s' = l' \<and> queue s' = queue s @ messages_of d
    \<and> (orders s' = orders s @ retries_of d \<or> orders s' = orders s @ Timer_Stop Shutdown_Ap_Timer # retries_of d)"
  using sta_disconnected_refines_eq [OF assms] by (simp add: split_beta)

text \<open>The handler comes to its end when nobody holds the mutexes and the name fits the status text.\<close>

definition mutexes_free :: "esp_oracle \<Rightarrow> bool" where
  "mutexes_free E \<longleftrightarrow> (\<forall>h m t. taken E m [] h \<le> 0 \<longrightarrow> \<not> r_blocks (E h (Sem_Take m t)))"

definition name_fits :: "wm \<Rightarrow> bool" where
  "name_fits s = (case config_sta s of None \<Rightarrow> False | Some c \<Rightarrow> length (status_prefix c) < JSON_IP_INFO_SIZE)"

lemma take_mutex_returns:
  assumes "mutexes_free E" "held E m s = 0"
  shows "\<exists>ok s'. take_mutex E m t s = Some (ok, s') \<and> config_sta s' = config_sta s
    \<and> ip_info_json s' = ip_info_json s \<and> sta_ip s' = sta_ip s"
  using assms by (auto simp: take_mutex_def split_beta fst_call mutexes_free_def held_def)

lemma wm_ok_held: "wm_ok E s \<Longrightarrow> held E Json_Mutex s = 0" "wm_ok E s \<Longrightarrow> held E Sta_Ip_Mutex s = 0"
  by (simp_all add: wm_ok_def)

lemma update_sta_ip_returns:
  assumes "mutexes_free E" "wm_ok E s"
  shows "\<exists>s'. wifi_manager_safe_update_sta_ip_string E ip s = Some s' \<and> config_sta s' = config_sta s"
proof -
  obtain ok s1 where "take_mutex E Sta_Ip_Mutex None s = Some (ok, s1)" "config_sta s1 = config_sta s" "sta_ip s1 = sta_ip s"
    using take_mutex_returns [OF assms(1) wm_ok_held(2) [OF assms(2)]] by blast
  with assms(2) show ?thesis
    by (simp add: wifi_manager_safe_update_sta_ip_string_def wifi_manager_lock_sta_ip_string_def esp_ip4addr_ntoa_def
        wifi_manager_unlock_sta_ip_string_def c_strcpy_eq Let_def split_beta wm_ok_def IP4ADDR_STRLEN_MAX_def
        min_def)
qed

lemma refresh_returns:
  assumes "mutexes_free E" "wm_ok E s" "name_fits s" "urc \<noteq> UPDATE_CONNECTION_OK"
  shows "\<exists>ok s'. refresh_status E urc s = Some (ok, s') \<and> config_sta s' = config_sta s"
proof -
  obtain ok s1 where l: "take_mutex E Json_Mutex None s = Some (ok, s1)" "config_sta s1 = config_sta s"
      "ip_info_json s1 = ip_info_json s"
    using take_mutex_returns [OF assms(1) wm_ok_held(1) [OF assms(2)]] by blast
  obtain c where c: "config_sta s1 = Some c" "length (status_prefix c) < JSON_IP_INFO_SIZE"
    using assms(3) l(2) by (auto simp: name_fits_def split: option.splits)
  have "ip_info_texts E urc s1 = Some ((''0'', ''0'', ''0''), s1)" using assms(4) by (simp add: ip_info_texts_def)
  from status_json_eq [OF _ c this] l assms(2) c show ?thesis
    by (cases ok) (auto simp: refresh_status_def wifi_manager_lock_json_buffer_def wifi_manager_unlock_json_buffer_def wm_ok_def)
qed

text \<open>A connection lost without a request of the user.\<close>

lemma lost_returns:
  assumes E: "mutexes_free E" and ok: "wm_ok E s" and fits: "name_fits s"
    and room: "length (queue s) < WM_QUEUE_LENGTH"
    and no: "\<not> user_request (link_of s)" "\<not> user_disconnect (link_of s)"
  shows "\<exists>s'. on_sta_disconnected E p s = Some s' \<and> config_sta s' = config_sta s \<and> wifi_handler_set s' = wifi_handler_set s"
proof -
  obtain s1 where s1: "wifi_manager_safe_update_sta_ip_string E 0 (clear_bit ORDER_STA s) = Some s1"
      "config_sta s1 = config_sta s"
    using update_sta_ip_returns [OF E ok_bits(2) [OF ok]] by (auto simp: clear_bit_def)
  let ?c = "call E (Timer_Is_Active Shutdown_Ap_Timer) s1"
  define s2 where "s2 = (if r_flag (fst ?c) then act E (Timer_Stop Shutdown_Ap_Timer) (snd ?c) else snd ?c)"
  have s2: "bits s2 = bits s - {ORDER_STA}" "queue s2 = queue s" "config_sta s2 = config_sta s"
      "wifi_handler_set s2 = wifi_handler_set s"
    using quiet_parts(3) [OF s1(1)] s1(2) by (simp_all add: s2_def) (simp_all add: clear_bit_def)
  have "wm_ok E s2"
    using ok_update_sta_ip [OF s1(1) ok_bits(2) [OF ok]] by (simp add: s2_def ok_act ok_call)
  moreover have "name_fits s2" using fits s2(3) by (simp add: name_fits_def)
  ultimately obtain b s3 where s3: "refresh_status E UPDATE_LOST_CONNECTION s2 = Some (b, s3)" "config_sta s3 = config_sta s"
    using refresh_returns [OF E, of s2 UPDATE_LOST_CONNECTION] s2(3) by auto
  have q: "queue s3 = queue s" "wifi_handler_set s3 = wifi_handler_set s" using quiet_parts(1) [OF s3(1)] s2 by simp_all
  show ?thesis
    using no room s1 s2 s3 q
    by (simp add: on_sta_disconnected_def Let_def split_beta s2_def [symmetric] link_of_def wifi_manager_send_message_def)
      (simp add: run_callback_def clear_bit_def)
qed

lemma same_configuration:
  "wifi_handler_set (run_callback E c p s) = wifi_handler_set s" "config_sta (run_callback E c p s) = config_sta s"
  by (simp_all add: run_callback_def)

text \<open>The connection is lost again and again: the event, then the message it posts.\<close>

fun lost_connections :: "esp_oracle \<Rightarrow> u8 \<Rightarrow> nat \<Rightarrow> wm \<Rightarrow> wm option" where
  "lost_connections E r 0 s = Some s"
| "lost_connections E r (Suc n) s = do {
     s \<leftarrow> wifi_manager_event_handler E (WIFI_EVENT_STA_DISCONNECTED r) s;
     s \<leftarrow> wifi_manager_round E s;
     lost_connections E r n s
   }"

definition alone :: "esp_oracle \<Rightarrow> wm \<Rightarrow> bool" where
  "alone E s \<longleftrightarrow> wm_ok E s \<and> name_fits s \<and> wifi_handler_set s \<and> \<not> user_request (link_of s)
     \<and> \<not> user_disconnect (link_of s) \<and> \<not> ap_on (link_of s)"

lemma loss_step:
  assumes "mutexes_free E" "alone E s" "queue s = []"
  obtains s1 s' where "wifi_manager_event_handler E (WIFI_EVENT_STA_DISCONNECTED r) s = Some s1" "wifi_manager_round E s1 = Some s'"
    "link_of s' = snd (link_lost (link_of s))" "queue s' = messages_of (fst (link_lost (link_of s)))" "alone E s'"
proof -
  define s1 where "s1 = clear_bit SCAN_BIT (clear_bit WIFI_CONNECTED_BIT (act E (Wifi_Handler (WIFI_EVENT_STA_DISCONNECTED r)) s))"
  have s1: "link_of s1 = link_of s" "queue s1 = []" "wm_ok E s1" "wifi_handler_set s1" "config_sta s1 = config_sta s"
    using assms by (auto simp: s1_def link_of_def alone_def clear_bit_def wm_ok_def held_act)
  let ?m = "(WM_EVENT_STA_DISCONNECTED, Disconnect_Reason r)"
  have e: "wifi_manager_event_handler E (WIFI_EVENT_STA_DISCONNECTED r) s = Some (s1\<lparr>queue := [?m]\<rparr>)"
    using assms s1 by (simp add: wifi_manager_event_handler_def wifi_manager_ip_event_def alone_def s1_def Let_def wifi_manager_send_message_def WM_QUEUE_LENGTH_def)
  have q: "s1\<lparr>queue := []\<rparr> = s1" using s1(2) by simp
  have f: "name_fits s1" "\<not> user_request (link_of s1)" "\<not> user_disconnect (link_of s1)" "length (queue s1) < WM_QUEUE_LENGTH"
    using assms(2) s1 by (simp_all add: alone_def name_fits_def WM_QUEUE_LENGTH_def)
  obtain s' where s': "on_sta_disconnected E (Disconnect_Reason r) s1 = Some s'" "config_sta s' = config_sta s1"
      "wifi_handler_set s' = wifi_handler_set s1"
    using lost_returns [OF assms(1) s1(3) f(1,4,2,3)] by blast
  show thesis
  proof (rule that [OF e])
    show "wifi_manager_round E (s1\<lparr>queue := [?m]\<rparr>) = Some s'"
      by (simp add: wifi_manager_round_def wifi_manager_message_def q s')
    show l: "link_of s' = snd (link_lost (link_of s))" "queue s' = messages_of (fst (link_lost (link_of s)))"
      using sta_disconnected_refines_eq [OF s'(1)] s1 by simp_all
    show "alone E s'"
      using assms(2) ok_sta_disconnected [OF s'(1) s1(3)] s' s1 l
      by (simp add: alone_def name_fits_def link_lost_def)
  qed
qed

lemma losses_bound: "wm_ok E s \<Longrightarrow> losses (link_of s) \<le> 3"
  by (simp add: wm_ok_def link_of_def WIFI_MANAGER_MAX_RETRY_START_AP_def word_le_nat_alt)

lemma losses_add_up:
  assumes "mutexes_free E"
  shows "alone E s \<Longrightarrow> queue s = [] \<Longrightarrow> losses (link_of s) + n = 3 \<Longrightarrow>
    \<exists>s'. lost_connections E r (Suc n) s = Some s' \<and> queue s' = [(WM_ORDER_START_AP, No_Param)]
      \<and> losses (link_of s') = 0 \<and> alone E s'"
proof (induction n arbitrary: s)
  case 0
  from loss_step [OF assms 0(1,2), of r] obtain s1 s' where
      "wifi_manager_event_handler E (WIFI_EVENT_STA_DISCONNECTED r) s = Some s1" "wifi_manager_round E s1 = Some s'"
      "link_of s' = snd (link_lost (link_of s))" "queue s' = messages_of (fst (link_lost (link_of s)))" "alone E s'" .
  with 0 show ?case by (simp add: alone_def link_lost_def messages_of_def)
next
  case (Suc n)
  from loss_step [OF assms Suc.prems(1,2), of r] obtain s1 s' where s':
      "wifi_manager_event_handler E (WIFI_EVENT_STA_DISCONNECTED r) s = Some s1" "wifi_manager_round E s1 = Some s'"
      "link_of s' = snd (link_lost (link_of s))" "queue s' = messages_of (fst (link_lost (link_of s)))" "alone E s'" .
  with Suc.prems have "queue s' = []" "losses (link_of s') + n = 3"
    by (simp_all add: alone_def link_lost_def messages_of_def)
  with Suc.IH [OF s'(5)] s'(1,2) show ?case by simp
qed

lemma losses_before:
  assumes "mutexes_free E"
  shows "alone E s \<Longrightarrow> queue s = [] \<Longrightarrow> losses (link_of s) + n \<le> 3 \<Longrightarrow>
    \<exists>s'. lost_connections E r n s = Some s' \<and> queue s' = []"
proof (induction n arbitrary: s)
  case (Suc n)
  from loss_step [OF assms Suc.prems(1,2), of r] obtain s1 s' where s':
      "wifi_manager_event_handler E (WIFI_EVENT_STA_DISCONNECTED r) s = Some s1" "wifi_manager_round E s1 = Some s'"
      "link_of s' = snd (link_lost (link_of s))" "queue s' = messages_of (fst (link_lost (link_of s)))" "alone E s'" .
  with Suc.prems have "queue s' = []" "losses (link_of s') + n \<le> 3"
    by (simp_all add: alone_def link_lost_def messages_of_def)
  with Suc.IH [OF s'(5)] s'(1,2) show ?case by simp
qed simp

text \<open>
  C31: With the access point off, no request of the user pending and nobody holding the mutexes
  for ever, the manager orders the access point after exactly four lost connections in a row
  (fewer, if some were counted before), and not earlier; the counter is then 0 again.
\<close>

theorem access_point_after_four_losses:
  assumes "mutexes_free E" "alone E s" "queue s = []"
  shows "(\<exists>s'. lost_connections E r (4 - losses (link_of s)) s = Some s'
      \<and> queue s' = [(WM_ORDER_START_AP, No_Param)] \<and> losses (link_of s') = 0)
    \<and> (\<forall>n < 4 - losses (link_of s). \<exists>s'. lost_connections E r n s = Some s' \<and> queue s' = [])"
proof -
  have "losses (link_of s) \<le> 3" using assms(2) losses_bound [of E s] by (simp add: alone_def)
  then have n: "losses (link_of s) + (3 - losses (link_of s)) = 3" "4 - losses (link_of s) = Suc (3 - losses (link_of s))"
    by simp_all
  with losses_add_up [OF assms, of "3 - losses (link_of s)" r]
  have "\<exists>s'. lost_connections E r (4 - losses (link_of s)) s = Some s'
      \<and> queue s' = [(WM_ORDER_START_AP, No_Param)] \<and> losses (link_of s') = 0" by auto
  moreover have "\<exists>s'. lost_connections E r n s = Some s' \<and> queue s' = []" if "n < 4 - losses (link_of s)" for n
    using losses_before [OF assms, of n r] that n by simp
  ultimately show ?thesis by blast
qed

lemma all_well_free: "mutexes_free all_well"
  by (simp add: mutexes_free_def all_well_def)

definition bench_link :: wm where
  "bench_link = bench_wm\<lparr>accessp_records := replicate MAX_AP_NUM zero_ap\<rparr>"

lemma bench_link_alone: "alone all_well bench_link" "queue bench_link = []" "losses (link_of bench_link) = 0"
proof -
  have "cstr (sta_ssid_ptr (the (config_sta bench_link))) = ''lab''"
    by (simp add: bench_link_def bench_wm_def sta_ssid_ptr_def cstr_Cons)
  then have "length (status_prefix (the (config_sta bench_link))) < JSON_IP_INFO_SIZE"
    by (simp add: status_prefix_def length_json_string JSON_IP_INFO_SIZE_def json_escape_set_def)
  then show "alone all_well bench_link" "queue bench_link = []" "losses (link_of bench_link) = 0"
    by (simp_all add: alone_def link_of_def wm_ok_def name_fits_def bench_link_def bench_wm_def held_def
        accessp_json_size_def MAX_AP_NUM_def JSON_ONE_APP_SIZE_def JSON_IP_INFO_SIZE_def IP4ADDR_STRLEN_MAX_def)
qed

theorem access_point_after_four_losses_witness:
  "\<exists>s'. lost_connections all_well 200 (4 - losses (link_of bench_link)) bench_link = Some s'
    \<and> queue s' = [(WM_ORDER_START_AP, No_Param)] \<and> losses (link_of s') = 0"
  using access_point_after_four_losses [OF all_well_free bench_link_alone(1,2)] by blast

theorem sta_disconnected_refines_witness:
  "\<exists>s'. on_sta_disconnected all_well (Disconnect_Reason 200) bench_link = Some s'
    \<and> link_of s' = (link_of bench_link)\<lparr>losses := 1\<rparr> \<and> queue s' = []"
proof -
  have p: "wm_ok all_well bench_link" "name_fits bench_link" "\<not> user_request (link_of bench_link)"
      "\<not> user_disconnect (link_of bench_link)" "\<not> ap_on (link_of bench_link)" "losses (link_of bench_link) < 3"
      "length (queue bench_link) < WM_QUEUE_LENGTH" "queue bench_link = []"
    using bench_link_alone by (simp_all add: alone_def WM_QUEUE_LENGTH_def)
  obtain s' where s': "on_sta_disconnected all_well (Disconnect_Reason 200) bench_link = Some s'"
    using lost_returns [OF all_well_free p(1,2,7,3,4)] by blast
  from sta_disconnected_refines [OF s'] p s' bench_link_alone(3) show ?thesis
    by (auto simp: link_lost_def messages_of_def)
qed

section \<open>The queue\<close>

text \<open>A handler posts at most one message, and the message it handles has left the queue.\<close>

lemma check_frame:
  "esp_error_check E c s = Some s' \<Longrightarrow> queue s' = queue s \<and> bits s' = bits s \<and> retries s' = retries s
    \<and> orders s' = orders s @ (if steers c then [c] else []) \<and> config_sta s' = config_sta s"
  by (auto simp: esp_error_check_def split_beta split: if_splits)

lemma set_sta_config_frame:
  "set_sta_config E s = Some s' \<Longrightarrow> queue s' = queue s \<and> bits s' = bits s \<and> retries s' = retries s
    \<and> config_sta s' = config_sta s \<and> orders s' = orders s @ [Wifi_Set_Sta_Config (the (config_sta s))]"
  by (auto simp: set_sta_config_def split: option.splits dest: check_frame)

lemma take_mutex_same: "take_mutex E m t s = Some (ok, s') \<Longrightarrow> same_link s s'"
  by (cases "m \<in> mutexes s") (auto simp: take_mutex_def split_beta same_link_def split: if_splits)

lemma refresh_access_points_same: "refresh_access_points E s = Some s' \<Longrightarrow> same_link s s'"
  by (auto simp: refresh_access_points_def wifi_manager_lock_json_buffer_def wifi_manager_unlock_json_buffer_def
      same_link_def Let_def split_beta orders_def split: if_splits dest!: take_mutex_same)

lemma scan_done_queue: "on_scan_done E n s = Some s' \<Longrightarrow> queue s' = queue s \<and> bits s' = bits s"
  by (auto simp: on_scan_done_def Let_def split_beta same_link_def split: if_splits dest!: refresh_access_points_same)

lemma connect_sta_queue: "on_connect_sta E p s = Some s' \<Longrightarrow> queue s' = queue s"
  by (auto simp: on_connect_sta_def Let_def split: if_splits dest!: check_frame set_sta_config_frame)

lemmas load_quiet = fetch_quiet [THEN quiet_frame, unfolded same_link_def]

definition posts :: "wm \<Rightarrow> wm \<Rightarrow> bool" where
  "posts s s' \<longleftrightarrow> queue s' = queue s \<or> (\<exists>m. queue s' = queue s @ [m])"

lemma load_restore_posts: "on_load_and_restore_sta E s = Some s' \<Longrightarrow> posts s s'"
  by (auto simp: on_load_and_restore_sta_def posts_def split: if_splits dest!: load_quiet send_message_frame)

lemma got_ip_posts: "on_sta_got_ip E ip s = Some s' \<Longrightarrow> posts s s'"
  by (auto simp: on_sta_got_ip_def Let_def posts_def split: if_splits dest!: quiet_parts send_message_frame)

lemma disconnected_posts: "on_sta_disconnected E p s = Some s' \<Longrightarrow> posts s s'"
  using sta_disconnected_refines_eq(2) [of E p s s'] by (simp add: posts_def messages_of_def split: if_splits)

lemma message_posts: "wifi_manager_message E msg s = Some s' \<Longrightarrow> posts s s'"
  by (auto simp: wifi_manager_message_def split: prod.splits message_code.splits message_param.splits
      intro: load_restore_posts got_ip_posts disconnected_posts)
    (auto simp: posts_def on_start_wifi_scan_def on_start_ap_def on_stop_ap_def on_disconnect_sta_def Let_def
      split: if_splits dest!: scan_done_queue connect_sta_queue check_frame)

text \<open>
  A round of the manager never lengthens its own queue: it takes one message and posts at
  most one.  What fills the queue are the other tasks.
\<close>

theorem round_keeps_queue_short:
  assumes "wifi_manager_round E s = Some s'"
  shows "\<exists>msg q. queue s = msg # q \<and> (queue s' = q \<or> (\<exists>m. queue s' = q @ [m])) \<and> length (queue s') \<le> length (queue s)"
proof -
  obtain msg q where q: "queue s = msg # q" using assms by (auto simp: wifi_manager_round_def split: list.splits)
  with assms message_posts [of E msg "s\<lparr>queue := q\<rparr>" s'] show ?thesis
    by (auto simp: wifi_manager_round_def posts_def)
qed

text \<open>
  When the other tasks have filled the queue while the manager handles a disconnection it must answer with an order
  to start the access point, the manager waits without time limit for room in the queue that only
  it empties: the handler never returns.
\<close>

theorem full_queue_deadlock:
  assumes "wm_ok E s" "length (queue s) = WM_QUEUE_LENGTH"
    and "fst (link_lost (link_of s)) \<in> {Left_By_User, Retry_And_Start_Ap}"
  shows "on_sta_disconnected E p s = None"
proof (rule ccontr)
  assume "on_sta_disconnected E p s \<noteq> None"
  then obtain s' where s': "on_sta_disconnected E p s = Some s'" by auto
  have "length (queue s') = Suc WM_QUEUE_LENGTH"
    using sta_disconnected_refines_eq(2) [OF s'] assms(2,3) by (auto simp: messages_of_def)
  moreover have "length (queue s') \<le> WM_QUEUE_LENGTH"
    using ok_sta_disconnected [OF s' assms(1)] by (simp add: wm_ok_def)
  ultimately show False by simp
qed

theorem full_queue_deadlock_witness:
  "on_sta_disconnected all_well (Disconnect_Reason 8)
     (bench_link\<lparr>queue := replicate 3 (WM_ORDER_START_WIFI_SCAN, No_Param), bits := {REQUEST_DISCONNECT_BIT}\<rparr>) = None"
  by (rule full_queue_deadlock)
    (use bench_link_alone(1) in \<open>simp_all add: alone_def wm_ok_def WM_QUEUE_LENGTH_def link_lost_def link_of_def numeral_3_eq_3\<close>)

theorem round_keeps_queue_short_witness:
  "\<exists>s'. wifi_manager_round all_well (bench_link\<lparr>queue := [(WM_ORDER_STOP_AP, No_Param), (WM_ORDER_START_AP, No_Param)]\<rparr>) = Some s'
    \<and> length (queue s') \<le> 2"
proof -
  let ?s = "bench_link\<lparr>queue := [(WM_ORDER_STOP_AP, No_Param), (WM_ORDER_START_AP, No_Param)]\<rparr>"
  have "wifi_manager_round all_well ?s = Some (bench_link\<lparr>queue := [(WM_ORDER_START_AP, No_Param)]\<rparr>)"
    by (simp add: wifi_manager_round_def wifi_manager_message_def on_stop_ap_def bench_link_def bench_wm_def)
  with round_keeps_queue_short [OF this] show ?thesis by auto
qed

section \<open>Scanning, connecting, being connected\<close>

text \<open>No scan begins, and a scan under way stays marked.\<close>

definition keeps_scan :: "wm \<Rightarrow> wm \<Rightarrow> bool" where
  "keeps_scan s s' \<longleftrightarrow> (SCAN_BIT \<in> bits s \<longrightarrow> SCAN_BIT \<in> bits s'
     \<and> count_list (orders s') Wifi_Scan_Start = count_list (orders s) Wifi_Scan_Start)"

lemma ks_refl [simp]: "keeps_scan s s"
  by (simp add: keeps_scan_def)

lemma ks_trans: "keeps_scan s0 s \<Longrightarrow> keeps_scan s s' \<Longrightarrow> keeps_scan s0 s'"
  by (auto simp: keeps_scan_def)

lemma ks_intros:
  "c \<noteq> Wifi_Scan_Start \<Longrightarrow> keeps_scan s0 s \<Longrightarrow> keeps_scan s0 (act E c s)"
  "c \<noteq> Wifi_Scan_Start \<Longrightarrow> keeps_scan s0 s \<Longrightarrow> keeps_scan s0 (snd (call E c s))"
  "keeps_scan s0 s \<Longrightarrow> keeps_scan s0 (set_bit b s)"
  "b \<noteq> SCAN_BIT \<Longrightarrow> keeps_scan s0 s \<Longrightarrow> keeps_scan s0 (clear_bit b s)"
  "keeps_scan s0 s \<Longrightarrow> keeps_scan s0 (s\<lparr>retries := r\<rparr>)"
  "keeps_scan s0 s \<Longrightarrow> keeps_scan s0 (s\<lparr>queue := q\<rparr>)"
  "keeps_scan s0 s \<Longrightarrow> keeps_scan s0 (s\<lparr>config_sta := k\<rparr>)"
  "keeps_scan s0 s \<Longrightarrow> keeps_scan s0 (s\<lparr>ap_num := n\<rparr>)"
  "keeps_scan s0 s \<Longrightarrow> keeps_scan s0 (s\<lparr>accessp_records := l\<rparr>)"
  "keeps_scan s0 s \<Longrightarrow> keeps_scan s0 (run_callback E m p s)"
  by (auto simp: keeps_scan_def) (simp_all add: orders_def)

lemma ks_same: "same_link s s' \<Longrightarrow> keeps_scan s0 s \<Longrightarrow> keeps_scan s0 s'"
  by (auto simp: keeps_scan_def same_link_def)

lemma ks_send: "wifi_manager_send_message c p s = Some s' \<Longrightarrow> keeps_scan s0 s \<Longrightarrow> keeps_scan s0 s'"
  by (auto simp: keeps_scan_def dest!: send_message_frame)

lemma ks_check: "esp_error_check E c s = Some s' \<Longrightarrow> c \<noteq> Wifi_Scan_Start \<Longrightarrow> keeps_scan s0 s \<Longrightarrow> keeps_scan s0 s'"
  by (auto simp: keeps_scan_def dest!: check_frame)

lemma ks_set_sta: "set_sta_config E s = Some s' \<Longrightarrow> keeps_scan s0 s \<Longrightarrow> keeps_scan s0 s'"
  by (auto simp: keeps_scan_def dest!: set_sta_config_frame)

lemmas ks_elims = ks_send ks_check ks_set_sta
  ks_same [OF quiet_frame [OF refresh_quiet]] ks_same [OF quiet_frame [OF save_quiet]]
  ks_same [OF quiet_frame [OF fetch_quiet]] ks_same [OF quiet_frame [OF update_sta_ip_quiet]]
  ks_same [OF refresh_access_points_same] ks_same [OF take_mutex_same]
  ks_same [OF quiet_frame [OF clear_ip_info_quiet]]

lemma start_scan_keeps_scan: "on_start_wifi_scan E s = Some s' \<Longrightarrow> keeps_scan s s' \<and> SCAN_BIT \<in> bits s'"
  by (auto simp: on_start_wifi_scan_def Let_def keeps_scan_def split: if_splits)

lemma message_keeps_scan: "wifi_manager_message E msg s = Some s' \<Longrightarrow> keeps_scan s s'"
  by (auto simp: wifi_manager_message_def start_scan_keeps_scan split: prod.splits message_code.splits message_param.splits)
    (auto simp: on_scan_done_def on_load_and_restore_sta_def on_connect_sta_def on_sta_disconnected_def on_start_ap_def
      on_stop_ap_def on_sta_got_ip_def on_disconnect_sta_def Let_def split_beta intro!: ks_intros elim!: ks_elims split: if_splits)

text \<open>The two events that end a scan.\<close>

definition scan_over :: "esp_oracle \<Rightarrow> wm \<Rightarrow> wm \<Rightarrow> bool" where
  "scan_over E s s' \<longleftrightarrow> (\<exists>n. wifi_manager_event_handler E (WIFI_EVENT_SCAN_DONE n) s = Some s')
     \<or> (\<exists>r. wifi_manager_event_handler E (WIFI_EVENT_STA_DISCONNECTED r) s = Some s')"

lemma event_keeps_scan:
  assumes "wifi_manager_event_handler E ev s = Some s'" "\<not> scan_over E s s'"
  shows "keeps_scan s s'"
  using assms
  by (cases ev) (auto simp: wifi_manager_event_handler_def wifi_manager_ip_event_def scan_over_def Let_def split: if_splits intro!: ks_intros elim!: ks_elims)

lemma round_keeps_scan: "wifi_manager_round E s = Some s' \<Longrightarrow> keeps_scan s s'"
  using message_keeps_scan ks_trans ks_intros(6) [OF ks_refl]
  by (auto simp: wifi_manager_round_def split: list.splits) blast

lemma step_keeps_scan: "wm_step E s s' \<Longrightarrow> \<not> scan_over E s s' \<Longrightarrow> keeps_scan s s'"
  by (elim wm_stepE)
    (auto simp: wifi_manager_timer_retry_cb_def wifi_manager_timer_shutdown_ap_cb_def wifi_manager_scan_async_def
      wifi_manager_disconnect_async_def change_state_wifi_def wifi_manager_connect_async_def wifi_manager_lock_json_buffer_def
      wifi_manager_unlock_json_buffer_def
      intro: event_keeps_scan round_keeps_scan intro!: ks_intros elim!: ks_elims split: if_splits)

lemma steps_keep_scan:
  "(\<lambda>a b. wm_step E a b \<and> \<not> scan_over E a b)\<^sup>*\<^sup>* s s' \<Longrightarrow> keeps_scan s s'"
  by (induction rule: rtranclp_induct) (auto intro: ks_trans step_keeps_scan)

text \<open>
  C33: The order to scan marks a scan as under way before it asks the driver, and does not look at
  the driver's answer.  When the driver refuses (no scan, so no event that ends it), every
  later order to scan is ignored: whatever happens, no scan is started until a disconnection.
\<close>

theorem refused_scan_blocks_scans:
  assumes "on_start_wifi_scan E s0 = Some s"
    and "(\<lambda>a b. wm_step E a b \<and> \<not> scan_over E a b)\<^sup>*\<^sup>* s s'"
  shows "SCAN_BIT \<in> bits s' \<and> count_list (orders s') Wifi_Scan_Start = count_list (orders s) Wifi_Scan_Start"
  using start_scan_keeps_scan [OF assms(1)] steps_keep_scan [OF assms(2)] by (simp add: keeps_scan_def)

text \<open>A driver that refuses to scan, and a page that asks for a scan twice.\<close>

definition refuses_scans :: esp_oracle where
  "refuses_scans h c = (if c = Wifi_Scan_Start then (all_well h c)\<lparr>r_err := 0x3006\<rparr> else all_well h c)"

theorem refused_scan_blocks_scans_witness:
  "\<exists>s s1 s'. on_start_wifi_scan refuses_scans bench_link = Some s \<and> count_list (orders s) Wifi_Scan_Start = 1
    \<and> wifi_manager_scan_async s = Some s1 \<and> wifi_manager_round refuses_scans s1 = Some s'
    \<and> SCAN_BIT \<in> bits s' \<and> count_list (orders s') Wifi_Scan_Start = 1"
proof -
  let ?s = "act refuses_scans Wifi_Scan_Start (set_bit SCAN_BIT bench_link)"
  let ?s1 = "?s\<lparr>queue := [(WM_ORDER_START_WIFI_SCAN, No_Param)]\<rparr>"
  have s: "on_start_wifi_scan refuses_scans bench_link = Some ?s"
    by (simp add: on_start_wifi_scan_def bench_link_def bench_wm_def run_callback_def)
      (simp add: set_bit_def)
  have s1: "wifi_manager_scan_async ?s = Some ?s1"
    by (simp add: wifi_manager_scan_async_def wifi_manager_send_message_def WM_QUEUE_LENGTH_def bench_link_def bench_wm_def)
  have r: "wifi_manager_round refuses_scans ?s1 = Some (?s1\<lparr>queue := []\<rparr>)"
    by (simp add: wifi_manager_round_def wifi_manager_message_def on_start_wifi_scan_def run_callback_def)
      (simp add: set_bit_def bench_link_def bench_wm_def)
  have n: "\<not> scan_over refuses_scans ?s ?s1" "\<not> scan_over refuses_scans ?s1 (?s1\<lparr>queue := []\<rparr>)"
    by (auto simp: scan_over_def wifi_manager_event_handler_def wifi_manager_ip_event_def Let_def wifi_manager_send_message_def split: if_splits)
      (simp_all add: bench_link_def bench_wm_def clear_bit_def set_bit_def act_def call_def)
  define R where "R = (\<lambda>a b. wm_step refuses_scans a b \<and> \<not> scan_over refuses_scans a b)"
  have "R ?s ?s1" "R ?s1 (?s1\<lparr>queue := []\<rparr>)"
    unfolding R_def using n wm_step.scan [OF s1] wm_step.message [OF r] by blast+
  then have "R\<^sup>*\<^sup>* ?s (?s1\<lparr>queue := []\<rparr>)"
    by (rule converse_rtranclp_into_rtranclp [OF _ r_into_rtranclp])
  note kept = refused_scan_blocks_scans [OF s this [unfolded R_def]]
  have "count_list (orders ?s) Wifi_Scan_Start = 1" by (simp add: orders_def bench_link_def bench_wm_def set_bit_def)
  with kept s s1 r show ?thesis by (intro exI conjI) auto
qed

lemma sta_got_ip_eq:
  assumes "on_sta_got_ip E ip s = Some s'"
  shows "retries s' = 0" "bits s' = bits s - {REQUEST_STA_CONNECT_BIT, REQUEST_RESTORE_STA_BIT}" "queue s' = queue s"
    "orders s' = orders s @ Dns_Server_Stop # (if AP_STARTED_BIT \<in> bits s then [Timer_Start Shutdown_Ap_Timer] else [])"
proof -
  obtain s1 where s1: "wifi_manager_safe_update_sta_ip_string E ip (clear_bit REQUEST_STA_CONNECT_BIT s) = Some s1"
    using assms by (auto simp: on_sta_got_ip_def Let_def)
  define x where "x = (if REQUEST_RESTORE_STA_BIT \<in> bits s then Some (clear_bit REQUEST_RESTORE_STA_BIT s1)
      else do { (_, s1) \<leftarrow> wifi_manager_save_sta_config E s1; Some s1 })"
  obtain s2 where s2: "x = Some s2"
    using assms s1 by (auto simp: on_sta_got_ip_def Let_def x_def)
  have f2: "bits s2 = bits s - {REQUEST_STA_CONNECT_BIT, REQUEST_RESTORE_STA_BIT}" "queue s2 = queue s" "orders s2 = orders s"
  proof -
    have f1: "bits s1 = bits s - {REQUEST_STA_CONNECT_BIT}" "queue s1 = queue s" "orders s1 = orders s"
      using quiet_parts(3) [OF s1] by simp_all
    show "bits s2 = bits s - {REQUEST_STA_CONNECT_BIT, REQUEST_RESTORE_STA_BIT}" "queue s2 = queue s" "orders s2 = orders s"
    proof (atomize (full), cases "REQUEST_RESTORE_STA_BIT \<in> bits s")
      case True
      with s2 have "s2 = clear_bit REQUEST_RESTORE_STA_BIT s1" by (simp add: x_def)
      with f1 show "bits s2 = bits s - {REQUEST_STA_CONNECT_BIT, REQUEST_RESTORE_STA_BIT} \<and> queue s2 = queue s \<and> orders s2 = orders s"
        by auto
    next
      case False
      with s2 obtain err where "wifi_manager_save_sta_config E s1 = Some (err, s2)" by (auto simp: x_def)
      from quiet_parts(2) [OF this] f1 False
      show "bits s2 = bits s - {REQUEST_STA_CONNECT_BIT, REQUEST_RESTORE_STA_BIT} \<and> queue s2 = queue s \<and> orders s2 = orders s"
        by auto
    qed
  qed
  obtain s3 where s3: "refresh_status E UPDATE_CONNECTION_OK (s2\<lparr>retries := 0\<rparr>) = Some (True, s3)"
    using assms s1 s2 by (auto simp: on_sta_got_ip_def Let_def x_def [symmetric] split: if_splits)
  have s': "s' = run_callback E WM_EVENT_STA_GOT_IP (Got_Ip ip) (if AP_STARTED_BIT \<in> bits s
      then act E (Timer_Start Shutdown_Ap_Timer) (act E Dns_Server_Stop s3) else act E Dns_Server_Stop s3)"
    using assms s1 s2 s3 by (auto simp: on_sta_got_ip_def Let_def x_def [symmetric] SHUTDOWN_AP_TICKS_def split: if_splits)
  show "retries s' = 0" "bits s' = bits s - {REQUEST_STA_CONNECT_BIT, REQUEST_RESTORE_STA_BIT}" "queue s' = queue s"
    "orders s' = orders s @ Dns_Server_Stop # (if AP_STARTED_BIT \<in> bits s then [Timer_Start Shutdown_Ap_Timer] else [])"
    using quiet_parts(1) [OF s3] f2 by (simp_all add: s')
qed

text \<open>
  When the station got its address, the pending request and the counter of losses are
  cleared, the DNS server is ordered to stop, the configuration is saved unless it was
  restored, and the access point, if it is up, is scheduled to go down; nothing is posted and nothing else steered.
\<close>

theorem sta_got_ip_settles:
  assumes "on_sta_got_ip E ip s = Some s'"
  shows "link_of s' = (link_of s)\<lparr>user_request := False, losses := 0\<rparr>
    \<and> REQUEST_RESTORE_STA_BIT \<notin> bits s' \<and> queue s' = queue s
    \<and> orders s' = orders s @ Dns_Server_Stop # (if ap_on (link_of s) then [Timer_Start Shutdown_Ap_Timer] else [])"
  using sta_got_ip_eq [OF assms] by (simp add: link_of_def)

lemma all_well_refresh:
  assumes "wm_ok all_well s" "name_fits s" "Json_Mutex \<in> mutexes s"
  shows "\<exists>s'. refresh_status all_well UPDATE_CONNECTION_OK s = Some (True, s')"
proof -
  let ?s1 = "snd (call all_well (Sem_Take Json_Mutex None) s)"
  have l: "take_mutex all_well Json_Mutex None s = Some (True, ?s1)"
    using assms(3) by (simp add: take_mutex_def split_beta all_well_call)
  obtain c where c: "config_sta ?s1 = Some c" "length (status_prefix c) < JSON_IP_INFO_SIZE"
    using assms(2) by (auto simp: name_fits_def split: option.splits)
  obtain ips s2 where i: "ip_info_texts all_well UPDATE_CONNECTION_OK ?s1 = Some (ips, s2)"
    by (simp add: ip_info_texts_def split_beta all_well_call Let_def)
  have "length (ip_info_json ?s1) = JSON_IP_INFO_SIZE" using assms(1) by (simp add: wm_ok_def)
  from status_json_eq [OF this c i] l show ?thesis
    by (simp add: refresh_status_def wifi_manager_lock_json_buffer_def wifi_manager_unlock_json_buffer_def)
qed

text \<open>A state about to get its address after a restored connection, with the access point up.\<close>

theorem sta_got_ip_settles_witness:
  fixes s :: wm
  defines "s \<equiv> bench_link\<lparr>retries := 2, bits := {REQUEST_RESTORE_STA_BIT, AP_STARTED_BIT}\<rparr>"
  shows "\<exists>s'. on_sta_got_ip all_well 0x0101A8C0 s = Some s' \<and> losses (link_of s') = 0 \<and> queue s' = []
    \<and> orders s' = orders s @ [Dns_Server_Stop, Timer_Start Shutdown_Ap_Timer]"
proof -
  have ok: "wm_ok all_well (clear_bit REQUEST_STA_CONNECT_BIT s)" and fits: "name_fits s"
    using bench_link_alone(1) by (simp_all add: s_def alone_def wm_ok_def name_fits_def WIFI_MANAGER_MAX_RETRY_START_AP_def clear_bit_def)
  obtain s1 where s1: "wifi_manager_safe_update_sta_ip_string all_well 0x0101A8C0 (clear_bit REQUEST_STA_CONNECT_BIT s) = Some s1"
      "config_sta s1 = config_sta s"
    using update_sta_ip_returns [OF all_well_free ok] by (auto simp: clear_bit_def)
  note q = update_sta_ip_quiet [OF s1(1)]
  have bq: "bits s = {REQUEST_RESTORE_STA_BIT, AP_STARTED_BIT}" "queue s = []"
    using bench_link_alone(2) by (simp_all add: s_def)
  let ?s2 = "(clear_bit REQUEST_RESTORE_STA_BIT s1)\<lparr>retries := 0\<rparr>"
  have "wm_ok all_well s1" using ok_update_sta_ip [OF s1(1) ok] .
  then have "wm_ok all_well ?s2" "name_fits ?s2" "Json_Mutex \<in> mutexes ?s2"
    using fits s1(2) q
    by (simp_all add: wm_ok_def clear_bit_def name_fits_def quiet_def) (simp add: s_def bench_link_def bench_wm_def)
  from all_well_refresh [OF this] obtain s3 where s3: "refresh_status all_well UPDATE_CONNECTION_OK ?s2 = Some (True, s3)"
    by blast
  obtain s' where s': "on_sta_got_ip all_well 0x0101A8C0 s = Some s'"
    using s1(1) s3 bq by (simp add: on_sta_got_ip_def SHUTDOWN_AP_TICKS_def Let_def)
  from sta_got_ip_settles [OF s'] s' bq show ?thesis by (auto simp: link_of_def)
qed

section \<open>A connection the user asks for\<close>

lemma user_order_orders:
  assumes "on_connect_sta E (Request CONNECTION_REQUEST_USER) s = Some s'" "WIFI_CONNECTED_BIT \<in> bits s"
  shows "orders s' = orders s @ [Http_App_Stop, Wifi_Disconnect, Wifi_Set_Sta_Config (the (config_sta s)), Wifi_Start,
      Http_App_Start False]" "bits s' = insert REQUEST_STA_CONNECT_BIT (bits s)" "queue s' = queue s"
proof -
  let ?a = "act E Wifi_Disconnect (act E Http_App_Stop (set_bit REQUEST_STA_CONNECT_BIT s))"
  obtain s1 s2 where s1: "set_sta_config E ?a = Some s1" "esp_error_check E Wifi_Start s1 = Some s2"
      "s' = run_callback E WM_ORDER_CONNECT_STA No_Param (act E (Http_App_Start False) s2)"
  proof -
    obtain s1 s2 where s1: "set_sta_config E ?a = Some s1" "esp_error_check E Wifi_Start s1 = Some s2"
      using assms(1) by (auto simp: on_connect_sta_def Let_def)
    moreover have "WIFI_CONNECTED_BIT \<in> bits (act E (Http_App_Start False) s2)"
      using set_sta_config_frame [OF s1(1)] check_frame [OF s1(2)] assms(2) by simp
    ultimately have "s' = run_callback E WM_ORDER_CONNECT_STA No_Param (act E (Http_App_Start False) s2)"
      using assms(1) by (simp add: on_connect_sta_def Let_def)
    with s1 that show thesis by blast
  qed
  with set_sta_config_frame [OF s1(1)] check_frame [OF s1(2)] show
    "orders s' = orders s @ [Http_App_Stop, Wifi_Disconnect, Wifi_Set_Sta_Config (the (config_sta s)), Wifi_Start,
      Http_App_Start False]" "bits s' = insert REQUEST_STA_CONNECT_BIT (bits s)" "queue s' = queue s"
    by (simp_all add: set_bit_def)
qed

text \<open>
  A user who asks for another network while the station is connected does not get it.  With
  the station still marked connected, handling the order tears the connection down, writes the
  new configuration and restarts the radio and the server, but does not connect; and
  the disconnection that follows counts as the failed attempt of the user: no retry is started and no
  access point ordered.
\<close>

theorem user_request_while_connected_fails:
  assumes "on_connect_sta E (Request CONNECTION_REQUEST_USER) s = Some s1" "WIFI_CONNECTED_BIT \<in> bits s" "queue s = []"
    and "wifi_manager_event_handler E (WIFI_EVENT_STA_DISCONNECTED r) s1 = Some s2" "wifi_manager_round E s2 = Some s3"
  shows "Wifi_Connect \<notin> set (drop (length (orders s)) (orders s3)) \<and> Timer_Start Retry_Timer \<notin> set (drop (length (orders s)) (orders s3))
    \<and> queue s3 = [] \<and> \<not> user_request (link_of s3)"
proof -
  note o = user_order_orders [OF assms(1,2)]
  let ?m = "(WM_EVENT_STA_DISCONNECTED, Disconnect_Reason r)"
  define t where "t = clear_bit SCAN_BIT (clear_bit WIFI_CONNECTED_BIT (act E (Wifi_Handler (WIFI_EVENT_STA_DISCONNECTED r)) s1))"
  have t: "s2 = t\<lparr>queue := [?m]\<rparr>" "orders t = orders s1" "queue t = []"
      "bits t = insert REQUEST_STA_CONNECT_BIT (bits s) - {WIFI_CONNECTED_BIT, SCAN_BIT}"
    using assms(3,4) o by (auto simp: wifi_manager_event_handler_def wifi_manager_ip_event_def t_def Let_def wifi_manager_send_message_def split: if_splits)
  have "t\<lparr>queue := []\<rparr> = t" using t(3) by simp
  then have "on_sta_disconnected E (Disconnect_Reason r) t = Some s3"
    using assms(5) t(1) by (simp add: wifi_manager_round_def wifi_manager_message_def)
  note d = sta_disconnected_refines_eq [OF this]
  have "user_request (link_of t)" using t(4) by (simp add: link_of_def)
  then have l: "link_lost (link_of t) = (Attempt_Failed, (link_of t)\<lparr>user_request := False\<rparr>)"
    by (simp add: link_lost_def)
  from d(1,2) l t(3) have "queue s3 = []" "\<not> user_request (link_of s3)" by (simp_all add: messages_of_def)
  moreover from d(3) have "orders s3 = orders t \<or> orders s3 = orders t @ [Timer_Stop Shutdown_Ap_Timer]"
    by (simp add: l retries_of_def)
  ultimately show ?thesis unfolding t(2) o(1) by auto
qed

lemma failed_returns:
  assumes E: "mutexes_free E" and ok: "wm_ok E s" and fits: "name_fits s" and u: "user_request (link_of s)"
  shows "\<exists>s'. on_sta_disconnected E p s = Some s'"
proof -
  obtain s1 where s1: "wifi_manager_safe_update_sta_ip_string E 0 (clear_bit ORDER_STA s) = Some s1"
      "config_sta s1 = config_sta s"
    using update_sta_ip_returns [OF E ok_bits(2) [OF ok]] by (auto simp: clear_bit_def)
  let ?c = "call E (Timer_Is_Active Shutdown_Ap_Timer) s1"
  define s2 where "s2 = (if r_flag (fst ?c) then act E (Timer_Stop Shutdown_Ap_Timer) (snd ?c) else snd ?c)"
  have s2: "bits s2 = bits s - {ORDER_STA}" "config_sta s2 = config_sta s"
    using quiet_parts(3) [OF s1(1)] s1(2) by (simp_all add: s2_def)
  let ?s3 = "clear_bit REQUEST_STA_CONNECT_BIT s2"
  have "wm_ok E s2"
    using ok_update_sta_ip [OF s1(1) ok_bits(2) [OF ok]] by (simp add: s2_def ok_act ok_call)
  then have "wm_ok E ?s3" by (rule ok_bits)
  moreover have "name_fits ?s3" using fits s2(2) by (simp add: name_fits_def clear_bit_def)
  ultimately obtain b s4 where "refresh_status E UPDATE_FAILED_ATTEMPT ?s3 = Some (b, s4)"
    using refresh_returns [OF E, of ?s3 UPDATE_FAILED_ATTEMPT] by auto
  with s1 s2 u show ?thesis
    by (simp add: on_sta_disconnected_def Let_def split_beta s2_def [symmetric] link_of_def)
qed

theorem user_request_while_connected_fails_witness:
  fixes s :: wm
  defines "s \<equiv> bench_link\<lparr>bits := {WIFI_CONNECTED_BIT}\<rparr>"
  shows "\<exists>s1 s2 s3. on_connect_sta all_well (Request CONNECTION_REQUEST_USER) s = Some s1
    \<and> wifi_manager_event_handler all_well (WIFI_EVENT_STA_DISCONNECTED 8) s1 = Some s2 \<and> wifi_manager_round all_well s2 = Some s3
    \<and> Wifi_Connect \<notin> set (drop (length (orders s)) (orders s3)) \<and> queue s3 = []"
proof -
  let ?a = "act all_well Wifi_Start (act all_well (Wifi_Set_Sta_Config (the (config_sta s)))
      (act all_well Wifi_Disconnect (act all_well Http_App_Stop (set_bit REQUEST_STA_CONNECT_BIT s))))"
  obtain c where c: "config_sta s = Some c" "callbacks s = {}" "wifi_handler_set s" "bits s = {WIFI_CONNECTED_BIT}"
      "queue s = []"
    by (simp add: s_def bench_link_def bench_wm_def)
  have f: "config_sta (set_bit b t) = config_sta t" "callbacks (set_bit b t) = callbacks t"
      "config_sta (clear_bit b t) = config_sta t" "wifi_handler_set (set_bit b t) = wifi_handler_set t" for b t
    by (simp_all add: set_bit_def clear_bit_def)
  let ?s1 = "act all_well (Http_App_Start False) ?a"
  have s1: "on_connect_sta all_well (Request CONNECTION_REQUEST_USER) s = Some ?s1"
    using c by (simp add: on_connect_sta_def Let_def set_sta_config_def all_well_check run_callback_def f)
  let ?m = "(WM_EVENT_STA_DISCONNECTED, Disconnect_Reason 8)"
  let ?t = "clear_bit SCAN_BIT (clear_bit WIFI_CONNECTED_BIT (act all_well (Wifi_Handler (WIFI_EVENT_STA_DISCONNECTED 8)) ?s1))"
  have s2: "wifi_manager_event_handler all_well (WIFI_EVENT_STA_DISCONNECTED 8) ?s1 = Some (?t\<lparr>queue := [?m]\<rparr>)"
    using c by (simp add: wifi_manager_event_handler_def wifi_manager_ip_event_def Let_def f wifi_manager_send_message_def WM_QUEUE_LENGTH_def)
  have q: "?t\<lparr>queue := []\<rparr> = ?t" using c by simp
  have "wm_ok all_well s" "name_fits s"
    using bench_link_alone(1) by (simp_all add: s_def alone_def wm_ok_def name_fits_def)
  then have t: "wm_ok all_well ?t" "name_fits ?t" by (simp_all add: name_fits_def f ok_intros)
  have "user_request (link_of ?t)" by (simp add: link_of_def)
  from failed_returns [OF all_well_free t this, of "Disconnect_Reason 8"]
  obtain s3 where s3: "on_sta_disconnected all_well (Disconnect_Reason 8) ?t = Some s3" ..
  have r: "wifi_manager_round all_well (?t\<lparr>queue := [?m]\<rparr>) = Some s3"
    by (simp add: wifi_manager_round_def wifi_manager_message_def q s3)
  from user_request_while_connected_fails [OF s1 _ c(5) s2 r] c(4) s1 s2 r show ?thesis by auto
qed

section \<open>The flash mutex that is not given back\<close>



















end
