(* ===== verification/Http_App.thy ===== *)
theory Http_App
  imports Wifi_Link
begin

text \<open>
  The web server of the Wi-Fi manager (\<^verbatim>\<open>common/wifi_manager/src/http_app.c\<close>): its URLs on the heap,
  starting and stopping, and the handlers of GET, POST and DELETE, which read the texts of the
  manager under its mutexes and post its requests.

  A handler returns the calls that build its response, its result and the manager's state, or
  \<open>None\<close> when it does not come to its end: a wait without time limit, a NULL pointer read,
  memory that was never written.  The embedded files of the page are an argument.
\<close>

section \<open>Requests, responses, state\<close>

definition WEBAPP_LOCATION :: string where "WEBAPP_LOCATION = ''/''"
definition DEFAULT_AP_IP :: string where "DEFAULT_AP_IP = ''10.10.0.1''"
definition MAX_SSID_SIZE :: nat where "MAX_SSID_SIZE = 32"
definition MAX_PASSWORD_SIZE :: nat where "MAX_PASSWORD_SIZE = 64"

text \<open>A request as the library presents it: the URI and the headers, whose values may fail to be read.\<close>

record httpd_req =
  req_uri :: string
  req_hdrs :: "(string \<times> string) list"
  req_hdr_fails :: bool

definition httpd_req_get_hdr_value_len :: "httpd_req \<Rightarrow> string \<Rightarrow> nat" where
  "httpd_req_get_hdr_value_len r k = (case map_of (req_hdrs r) k of None \<Rightarrow> 0 | Some v \<Rightarrow> length v)"

definition httpd_req_get_hdr_value_str :: "httpd_req \<Rightarrow> string \<Rightarrow> string option" where
  "httpd_req_get_hdr_value_str r k = (if req_hdr_fails r then None else map_of (req_hdrs r) k)"

datatype resp_action = Set_Status string | Set_Type string | Set_Hdr string string | Send string

type_synonym handled = "resp_action list \<times> int \<times> wm"
type_synonym hook = "httpd_req \<Rightarrow> wm \<Rightarrow> handled option"

record web_files =
  index_html :: string
  code_js :: string
  style_css :: string

record http_app =
  httpd_handle :: bool
  http_root_url :: "string option"
  http_redirect_url :: "string option"
  http_js_url :: "string option"
  http_css_url :: "string option"
  http_connect_url :: "string option"
  http_ap_url :: "string option"
  http_status_url :: "string option"
  custom_get_httpd_uri_handler :: "hook option"
  custom_post_httpd_uri_handler :: "hook option"

datatype httpd_method = HTTP_GET | HTTP_POST | HTTP_DELETE | HTTP_OTHER

abbreviation ESP_ERR_INVALID_ARG :: int where "ESP_ERR_INVALID_ARG \<equiv> 0x102"

definition http_app_set_handler_hook :: "httpd_method \<Rightarrow> hook option \<Rightarrow> http_app \<Rightarrow> int \<times> http_app" where
  "http_app_set_handler_hook method handler h =
     (if method = HTTP_GET then (ESP_OK, h\<lparr>custom_get_httpd_uri_handler := handler\<rparr>)
      else if method = HTTP_POST then (ESP_OK, h\<lparr>custom_post_httpd_uri_handler := handler\<rparr>)
      else (ESP_ERR_INVALID_ARG, h))"

section \<open>Starting and stopping\<close>

text \<open>A URL on the heap: the block is as large as the code computes, the writes are checked.\<close>

definition http_app_generate_url :: "string \<Rightarrow> string option" where
  "http_app_generate_url page = do {
     let root_len = length WEBAPP_LOCATION;
     let url_sz = (root_len + 1) + (length page + 1);
     ret \<leftarrow> c_strcpy (replicate url_sz NUL) WEBAPP_LOCATION;
     ret \<leftarrow> c_strcat ret page;
     Some (cstr ret)
   }"

definition http_redirect_text :: "string option" where
  "http_redirect_text = do {
     let root_len = length WEBAPP_LOCATION;
     let redirect_sz = 22 + root_len + 1;
     b \<leftarrow> c_snprintf (replicate redirect_sz NUL) 0 redirect_sz
            (if root_len = 1 then ''http://'' @ DEFAULT_AP_IP else ''http://'' @ DEFAULT_AP_IP @ WEBAPP_LOCATION);
     Some (cstr b)
   }"

definition generate_urls :: "http_app \<Rightarrow> http_app option" where
  "generate_urls h = do {
     root \<leftarrow> c_strcpy (replicate (length WEBAPP_LOCATION + 1) NUL) WEBAPP_LOCATION;
     redirect \<leftarrow> http_redirect_text;
     js \<leftarrow> http_app_generate_url ''code.js'';
     css \<leftarrow> http_app_generate_url ''style.css'';
     connect \<leftarrow> http_app_generate_url ''connect.json'';
     ap \<leftarrow> http_app_generate_url ''ap.json'';
     status \<leftarrow> http_app_generate_url ''status.json'';
     Some (h\<lparr>http_root_url := Some (cstr root), http_redirect_url := Some redirect, http_js_url := Some js,
       http_css_url := Some css, http_connect_url := Some connect, http_ap_url := Some ap,
       http_status_url := Some status\<rparr>)
   }"

text \<open>\<open>err\<close> is the answer of \<^verbatim>\<open>httpd_start\<close>, which sets the handle on success.\<close>

definition http_app_start :: "int \<Rightarrow> http_app \<Rightarrow> http_app option" where
  "http_app_start err h =
     (if httpd_handle h then Some h
      else do {
        h \<leftarrow> (if http_root_url h = None then generate_urls h else Some h);
        Some (h\<lparr>httpd_handle := (err = ESP_OK)\<rparr>)
      })"

text \<open>Stopping: the URLs are freed first, then the server is stopped.\<close>

definition free_urls :: "http_app \<Rightarrow> http_app" where
  "free_urls h = h\<lparr>http_root_url := None, http_redirect_url := None, http_js_url := None, http_css_url := None,
     http_connect_url := None, http_ap_url := None, http_status_url := None\<rparr>"

definition http_app_stop :: "http_app \<Rightarrow> http_app" where
  "http_app_stop h = (if httpd_handle h then (free_urls h)\<lparr>httpd_handle := False\<rparr> else h)"

section \<open>Handlers\<close>

definition no_cache_json :: "resp_action list" where
  "no_cache_json = [Set_Status ''200 OK'', Set_Type ''application/json'',
     Set_Hdr ''Cache-Control'' ''no-store, no-cache, must-revalidate, max-age=0'', Set_Hdr ''Pragma'' ''no-cache'']"

definition failed_with :: "string \<Rightarrow> resp_action list" where
  "failed_with status = [Set_Status status, Send '''']"

definition http_server_delete_handler :: "httpd_req \<Rightarrow> http_app \<Rightarrow> wm \<Rightarrow> handled option" where
  "http_server_delete_handler r h s = do {
     connect_url \<leftarrow> http_connect_url h;
     if req_uri r = connect_url then do {
       s \<leftarrow> wifi_manager_disconnect_async s;
       Some (no_cache_json @ [Send ''''], ESP_OK, s)
     } else Some (failed_with ''404 Not Found'', ESP_OK, s)
   }"

text \<open>The credentials of the request, written into the zeroed configuration.\<close>

definition connect_config :: "httpd_req \<Rightarrow> sta_config option" where
  "connect_config r = do {
     ssid \<leftarrow> httpd_req_get_hdr_value_str r ''X-Custom-ssid'';
     password \<leftarrow> httpd_req_get_hdr_value_str r ''X-Custom-pwd'';
     ssid \<leftarrow> buf_write 0 ssid (cfg_ssid zero_config);
     password \<leftarrow> buf_write 0 password (cfg_password zero_config);
     Some \<lparr>cfg_ssid = ssid, cfg_password = password\<rparr>
   }"

definition run_hook :: "hook option \<Rightarrow> httpd_req \<Rightarrow> wm \<Rightarrow> handled option" where
  "run_hook f r s = (case f of None \<Rightarrow> Some (failed_with ''404 Not Found'', ESP_OK, s) | Some f \<Rightarrow> f r s)"

definition http_server_post_handler :: "esp_oracle \<Rightarrow> httpd_req \<Rightarrow> http_app \<Rightarrow> wm \<Rightarrow> handled option" where
  "http_server_post_handler E r h s = do {
     connect_url \<leftarrow> http_connect_url h;
     if req_uri r = connect_url then
       (let ssid_len = httpd_req_get_hdr_value_len r ''X-Custom-ssid'';
            password_len = httpd_req_get_hdr_value_len r ''X-Custom-pwd''
        in if ssid_len \<noteq> 0 \<and> ssid_len \<le> MAX_SSID_SIZE \<and> password_len \<noteq> 0 \<and> password_len \<le> MAX_PASSWORD_SIZE
        then do {
          cfg \<leftarrow> connect_config r;
          _ \<leftarrow> config_sta s;
          s \<leftarrow> wifi_manager_connect_async E (s\<lparr>config_sta := Some cfg\<rparr>);
          Some (no_cache_json @ [Send ''''], ESP_OK, s)
        } else Some (failed_with ''400 Bad Request'', ESP_OK, s))
     else run_hook (custom_post_httpd_uri_handler h) r s
   }"

fun strstr :: "string \<Rightarrow> string \<Rightarrow> bool" where
  "strstr [] n = (n = [])"
| "strstr (c # h) n = (take (length n) (c # h) = n \<or> strstr h n)"

text \<open>The text of the list and of the status; a scan is asked for with every look at the list.\<close>

definition http_get_ap_json :: "esp_oracle \<Rightarrow> wm \<Rightarrow> handled option" where
  "http_get_ap_json E s = do {
     (ok, s) \<leftarrow> wifi_manager_lock_json_buffer E (Some 10) s;
     (acts, s) \<leftarrow> (if ok then do {
         _ \<leftarrow> c_strlen (accessp_json s);
         Some (no_cache_json @ [Send (cstr (accessp_json s))], wifi_manager_unlock_json_buffer E s)
       } else Some (failed_with ''503 Service Unavailable'', s));
     s \<leftarrow> wifi_manager_scan_async s;
     Some (acts, ESP_OK, s)
   }"

definition http_get_status_json :: "esp_oracle \<Rightarrow> wm \<Rightarrow> handled option" where
  "http_get_status_json E s = do {
     (ok, s) \<leftarrow> wifi_manager_lock_json_buffer E (Some 10) s;
     if ok then
       if ip_info_json s \<noteq> [] then do {
         _ \<leftarrow> c_strlen (ip_info_json s);
         Some (no_cache_json @ [Send (cstr (ip_info_json s))], ESP_OK, wifi_manager_unlock_json_buffer E s)
       } else Some (failed_with ''503 Service Unavailable'', ESP_OK, s)
     else Some (failed_with ''503 Service Unavailable'', ESP_OK, s)
   }"

definition http_get_page :: "esp_oracle \<Rightarrow> web_files \<Rightarrow> httpd_req \<Rightarrow> http_app \<Rightarrow> wm \<Rightarrow> handled option" where
  "http_get_page E files r h s = do {
     root_url \<leftarrow> http_root_url h;
     if req_uri r = root_url
     then Some ([Set_Status ''200 OK'', Set_Type ''text/html'', Send (index_html files)], ESP_OK, s)
     else do {
       js_url \<leftarrow> http_js_url h;
       if req_uri r = js_url
       then Some ([Set_Status ''200 OK'', Set_Type ''text/javascript'', Send (code_js files)], ESP_OK, s)
       else do {
         css_url \<leftarrow> http_css_url h;
         if req_uri r = css_url
         then Some ([Set_Status ''200 OK'', Set_Type ''text/css'',
                Set_Hdr ''Cache-Control'' ''public, max-age=31536000'', Send (style_css files)], ESP_OK, s)
         else do {
           ap_url \<leftarrow> http_ap_url h;
           if req_uri r = ap_url then http_get_ap_json E s
           else do {
             status_url \<leftarrow> http_status_url h;
             if req_uri r = status_url then http_get_status_json E s
             else run_hook (custom_get_httpd_uri_handler h) r s
           }
         }
       }
     }
   }"

text \<open>
  The host of the request: a header that cannot be read counts as empty.  The mutex of the
  address is given back whether it was taken or not.
\<close>

definition request_host :: "httpd_req \<Rightarrow> string option" where
  "request_host r =
     (if httpd_req_get_hdr_value_len r ''Host'' + 1 > 1
      then (case httpd_req_get_hdr_value_str r ''Host'' of None \<Rightarrow> Some [] | Some v \<Rightarrow> Some v)
      else None)"

definition http_server_get_handler ::
    "esp_oracle \<Rightarrow> web_files \<Rightarrow> httpd_req \<Rightarrow> http_app \<Rightarrow> wm \<Rightarrow> handled option" where
  "http_server_get_handler E files r h s = do {
     let host = request_host r;
     (_, s) \<leftarrow> wifi_manager_lock_sta_ip_string E None s;
     access_from_sta_ip \<leftarrow> (case host of None \<Rightarrow> Some False
         | Some host \<Rightarrow> do { _ \<leftarrow> c_strlen (sta_ip s); Some (strstr host (cstr (sta_ip s))) });
     let s = wifi_manager_unlock_sta_ip_string E s;
     case host of
       Some host \<Rightarrow>
         (if \<not> strstr host DEFAULT_AP_IP \<and> \<not> access_from_sta_ip
          then do {
            redirect_url \<leftarrow> http_redirect_url h;
            Some ([Set_Status ''302 Found'', Set_Hdr ''Location'' redirect_url, Send []], ESP_OK, s)
          } else http_get_page E files r h s)
     | None \<Rightarrow> http_get_page E files r h s
   }"

section \<open>The URLs are there while the server runs\<close>

definition urls_ready :: "http_app \<Rightarrow> bool" where
  "urls_ready h \<longleftrightarrow> http_root_url h = Some ''/'' \<and> http_redirect_url h = Some ''http://10.10.0.1''
     \<and> http_js_url h = Some ''/code.js'' \<and> http_css_url h = Some ''/style.css''
     \<and> http_connect_url h = Some ''/connect.json'' \<and> http_ap_url h = Some ''/ap.json''
     \<and> http_status_url h = Some ''/status.json''"

lemma generate_url_eq: "NUL \<notin> set page \<Longrightarrow> http_app_generate_url page = Some (CHR ''/'' # page)"
  by (simp add: http_app_generate_url_def WEBAPP_LOCATION_def c_strcpy_eq c_strcat_def c_strlen_def cstr_Cons buf_write_def)

lemma generate_urls_ready: "\<exists>h'. generate_urls h = Some h' \<and> urls_ready h' \<and> httpd_handle h' = httpd_handle h"
  by (simp add: generate_urls_def generate_url_eq http_redirect_text_def urls_ready_def WEBAPP_LOCATION_def
      DEFAULT_AP_IP_def c_strcpy_eq c_snprintf_def buf_write_def cstr_Cons)

inductive http_step :: "http_app \<Rightarrow> http_app \<Rightarrow> bool" where
  start: "http_app_start err h = Some h' \<Longrightarrow> http_step h h'"
| stop: "http_step h (http_app_stop h)"
| hook: "http_app_set_handler_hook m f h = (err, h') \<Longrightarrow> http_step h h'"

inductive_cases http_stepE: "http_step h h'"

definition http_ok :: "http_app \<Rightarrow> bool" where
  "http_ok h \<longleftrightarrow> (httpd_handle h \<or> http_root_url h \<noteq> None \<longrightarrow> urls_ready h)"

lemma urls_ready_update [simp]:
  "urls_ready (h\<lparr>httpd_handle := b\<rparr>) = urls_ready h"
  "urls_ready (h\<lparr>custom_get_httpd_uri_handler := f\<rparr>) = urls_ready h"
  "urls_ready (h\<lparr>custom_post_httpd_uri_handler := f\<rparr>) = urls_ready h"
  by (simp_all add: urls_ready_def)

lemma http_start_ok:
  assumes "http_ok h"
  shows "\<exists>h'. http_app_start err h = Some h' \<and> http_ok h' \<and> (httpd_handle h' \<or> err \<noteq> ESP_OK)"
proof (cases "httpd_handle h \<or> http_root_url h \<noteq> None")
  case True
  with assms show ?thesis by (auto simp: http_app_start_def http_ok_def)
next
  case False
  with generate_urls_ready [of h] show ?thesis by (auto simp: http_app_start_def http_ok_def)
qed

lemma http_stop_ok: "http_ok (http_app_stop h) = (httpd_handle h \<or> http_ok h)"
  by (simp add: http_app_stop_def free_urls_def http_ok_def)

lemma http_hook_ok: "http_app_set_handler_hook m f h = (err, h') \<Longrightarrow> http_ok h' = http_ok h"
  by (auto simp: http_app_set_handler_hook_def http_ok_def split: if_splits)

lemma http_start_keeps: "http_app_start err h = Some h' \<Longrightarrow> http_ok h \<Longrightarrow> http_ok h'"
  using http_start_ok [of h err] by simp

lemma http_step_ok: "http_step h h' \<Longrightarrow> http_ok h \<Longrightarrow> http_ok h'"
  by (erule http_stepE) (simp_all add: http_start_keeps http_stop_ok http_hook_ok)

lemma http_steps_ok: "http_step\<^sup>*\<^sup>* h h' \<Longrightarrow> http_ok h \<Longrightarrow> http_ok h'"
  by (induction rule: rtranclp_induct) (auto intro: http_step_ok)

text \<open>
  C12: However often the server is started and stopped, and whatever \<^verbatim>\<open>httpd_start\<close> answers: while
  the server runs all its seven URLs are there, each the root followed by the name of its page, so no
  handler compares with a NULL pointer; and a start never writes beyond the blocks of the URLs.
\<close>

theorem http_urls_ready:
  assumes "http_step\<^sup>*\<^sup>* h0 h" "\<not> httpd_handle h0" "http_root_url h0 = None"
  shows "(httpd_handle h \<longrightarrow> urls_ready h) \<and> (\<exists>h'. http_app_start err h = Some h')"
proof -
  have "http_ok h" using http_steps_ok [OF assms(1)] assms(2,3) by (simp add: http_ok_def)
  with http_start_ok [OF this, of err] show ?thesis by (auto simp: http_ok_def)
qed

definition http_unstarted :: http_app where
  "http_unstarted = \<lparr>httpd_handle = False, http_root_url = None, http_redirect_url = None, http_js_url = None,
     http_css_url = None, http_connect_url = None, http_ap_url = None, http_status_url = None,
     custom_get_httpd_uri_handler = None, custom_post_httpd_uri_handler = None\<rparr>"

text \<open>A start that fails, then one that does not.\<close>

theorem http_urls_ready_witness:
  "\<exists>h1 h. http_app_start ESP_FAIL http_unstarted = Some h1 \<and> http_app_start ESP_OK h1 = Some h
    \<and> httpd_handle h \<and> urls_ready h"
proof -
  obtain h1 where h1: "http_app_start ESP_FAIL http_unstarted = Some h1"
    using http_start_ok [of http_unstarted ESP_FAIL] by (auto simp: http_ok_def http_unstarted_def)
  then have s1: "http_step\<^sup>*\<^sup>* http_unstarted h1" by (blast intro: http_step.start)
  have u: "\<not> httpd_handle http_unstarted" "http_root_url http_unstarted = None" by (simp_all add: http_unstarted_def)
  from http_urls_ready [OF s1 u, of ESP_OK] obtain h where h: "http_app_start ESP_OK h1 = Some h" by blast
  then have s2: "http_step\<^sup>*\<^sup>* http_unstarted h" using s1 by (meson http_step.start rtranclp.rtrancl_into_rtrancl)
  have "httpd_handle h" using h by (auto simp: http_app_start_def split: if_splits)
  with http_urls_ready [OF s2 u, of ESP_OK] h1 h show ?thesis by blast
qed
section \<open>Serving\<close>

text \<open>Taking the mutex of the address, reading the address, giving it back.\<close>

lemma sta_ip_access:
  assumes "mutexes_free E" "wm_ok E s"
  obtains ok s1 where "wifi_manager_lock_sta_ip_string E None s = Some (ok, s1)" "sta_ip s1 = sta_ip s" "same_link s s1"
    "config_sta s1 = config_sta s" "ip_info_json s1 = ip_info_json s"
  using take_mutex_returns [OF assms(1) wm_ok_held(2) [OF assms(2)]] take_mutex_same
  unfolding wifi_manager_lock_sta_ip_string_def by blast

text \<open>
  The captive portal: whatever page is asked for, a request whose Host names neither the access point's
  address nor the station's is redirected to the access point, and neither posts a message
  nor changes a text.
\<close>

theorem http_get_captive:
  assumes "urls_ready h" "request_host r = Some host" "\<not> strstr host ''10.10.0.1''" "\<not> strstr host (cstr (sta_ip s))"
    and "mutexes_free E" "wm_ok E s" "NUL \<in> set (sta_ip s)"
  shows "\<exists>s'. http_server_get_handler E files r h s =
      Some ([Set_Status ''302 Found'', Set_Hdr ''Location'' ''http://10.10.0.1'', Send []], ESP_OK, s')
    \<and> queue s' = queue s \<and> bits s' = bits s \<and> config_sta s' = config_sta s \<and> ip_info_json s' = ip_info_json s"
proof -
  obtain ok s1 where s1: "wifi_manager_lock_sta_ip_string E None s = Some (ok, s1)" "sta_ip s1 = sta_ip s" "same_link s s1"
      "config_sta s1 = config_sta s" "ip_info_json s1 = ip_info_json s"
    using sta_ip_access [OF assms(5,6)] .
  have "c_strlen (sta_ip s1) = Some (length (cstr (sta_ip s)))" using s1(2) assms(7) by (simp add: c_strlen_def)
  with s1 assms(1-4) show ?thesis
    by (simp add: http_server_get_handler_def Let_def DEFAULT_AP_IP_def urls_ready_def wifi_manager_unlock_sta_ip_string_def
        same_link_def)
qed

definition bench_web :: http_app where
  "bench_web = (free_urls http_unstarted)\<lparr>httpd_handle := True, http_root_url := Some ''/'',
     http_redirect_url := Some ''http://10.10.0.1'', http_js_url := Some ''/code.js'', http_css_url := Some ''/style.css'',
     http_connect_url := Some ''/connect.json'', http_ap_url := Some ''/ap.json'', http_status_url := Some ''/status.json''\<rparr>"

lemma bench_web_ready: "urls_ready bench_web"
  by (simp add: bench_web_def urls_ready_def)

theorem http_get_captive_witness:
  "\<exists>s'. http_server_get_handler all_well \<lparr>index_html = ''page'', code_js = [], style_css = []\<rparr>
        \<lparr>req_uri = ''/status.json'', req_hdrs = [(''Host'', ''example.org'')], req_hdr_fails = False\<rparr> bench_web
        (bench_link\<lparr>sta_ip := ''192.168.1.7'' @ replicate 5 NUL\<rparr>) =
      Some ([Set_Status ''302 Found'', Set_Hdr ''Location'' ''http://10.10.0.1'', Send []], ESP_OK, s')
    \<and> queue s' = []"
proof -
  let ?s = "bench_link\<lparr>sta_ip := ''192.168.1.7'' @ replicate 5 NUL\<rparr>"
  have "wm_ok all_well ?s" using bench_link_alone(1) by (simp add: alone_def wm_ok_def IP4ADDR_STRLEN_MAX_def)
  then show ?thesis
    using http_get_captive [OF bench_web_ready, of
        "\<lparr>req_uri = ''/status.json'', req_hdrs = [(''Host'', ''example.org'')], req_hdr_fails = False\<rparr>" "''example.org''" ?s all_well
        "\<lparr>index_html = ''page'', code_js = [], style_css = []\<rparr>"] bench_link_alone(2)
    by (auto simp: request_host_def httpd_req_get_hdr_value_len_def httpd_req_get_hdr_value_str_def all_well_free cstr_Cons)
qed

text \<open>Asking to connect: the manager's text is cleared and the message posted.\<close>

lemma connect_async_returns:
  assumes "mutexes_free E" "wm_ok E s" "length (queue s) < WM_QUEUE_LENGTH"
  shows "\<exists>s'. wifi_manager_connect_async E s = Some s' \<and> config_sta s' = config_sta s
    \<and> queue s' = queue s @ [(WM_ORDER_CONNECT_STA, Request CONNECTION_REQUEST_USER)]"
proof -
  obtain ok s1 where l: "take_mutex E Json_Mutex None s = Some (ok, s1)" "config_sta s1 = config_sta s"
      "ip_info_json s1 = ip_info_json s"
    using take_mutex_returns [OF assms(1) wm_ok_held(1) [OF assms(2)]] by blast
  have q: "queue s1 = queue s" using take_mutex_same [OF l(1)] by (simp add: same_link_def)
  have "4 < length (ip_info_json s1)" using l(3) assms(2) sizes by (simp add: wm_ok_def)
  then show ?thesis
    using l q assms(3)
    by (simp add: wifi_manager_connect_async_def wifi_manager_lock_json_buffer_def wifi_manager_clear_ip_info_json_def
        c_strcpy_eq wifi_manager_unlock_json_buffer_def wifi_manager_send_message_def)
qed

text \<open>
  C20: POST /connect.json with a name of 1 to 32 and a password of 1 to 64 characters: the
  configuration becomes exactly these, padded with NUL bytes, one order to connect on behalf of
  the user is posted, and the answer is 200.
\<close>

theorem http_post_connect:
  assumes "urls_ready h" "req_uri r = ''/connect.json''" "\<not> req_hdr_fails r"
    and "map_of (req_hdrs r) ''X-Custom-ssid'' = Some ssid" "map_of (req_hdrs r) ''X-Custom-pwd'' = Some pwd"
    and "length ssid \<in> {1..32}" "length pwd \<in> {1..64}"
    and "mutexes_free E" "wm_ok E s" "length (queue s) < WM_QUEUE_LENGTH"
  shows "\<exists>s'. http_server_post_handler E r h s = Some (no_cache_json @ [Send []], ESP_OK, s')
    \<and> config_sta s' = Some \<lparr>cfg_ssid = ssid @ replicate (32 - length ssid) NUL,
          cfg_password = pwd @ replicate (64 - length pwd) NUL\<rparr>
    \<and> queue s' = queue s @ [(WM_ORDER_CONNECT_STA, Request CONNECTION_REQUEST_USER)]"
proof -
  let ?c = "\<lparr>cfg_ssid = ssid @ replicate (32 - length ssid) NUL, cfg_password = pwd @ replicate (64 - length pwd) NUL\<rparr>"
  have c: "connect_config r = Some ?c"
    using assms(3-7) by (simp add: connect_config_def httpd_req_get_hdr_value_str_def buf_write_def zero_config_def)
  obtain c0 where c0: "config_sta s = Some c0" using assms(9) by (auto simp: wm_ok_def)
  from connect_async_returns [OF assms(8) ok_config [OF assms(9)], of ?c] obtain s' where
      "wifi_manager_connect_async E (s\<lparr>config_sta := Some ?c\<rparr>) = Some s'" "config_sta s' = Some ?c"
      "queue s' = queue s @ [(WM_ORDER_CONNECT_STA, Request CONNECTION_REQUEST_USER)]"
    using assms(10) by auto
  then show ?thesis
    using assms(1,2,4-7) c c0
    by (simp add: http_server_post_handler_def urls_ready_def httpd_req_get_hdr_value_len_def MAX_SSID_SIZE_def
        MAX_PASSWORD_SIZE_def Let_def) auto
qed

theorem http_post_connect_witness:
  "\<exists>s'. http_server_post_handler all_well \<lparr>req_uri = ''/connect.json'',
        req_hdrs = [(''X-Custom-ssid'', ''home''), (''X-Custom-pwd'', ''12345678'')], req_hdr_fails = False\<rparr> bench_web bench_link =
      Some (no_cache_json @ [Send []], ESP_OK, s')
    \<and> config_sta s' = Some \<lparr>cfg_ssid = ''home'' @ replicate (32 - 4) NUL, cfg_password = ''12345678'' @ replicate (64 - 8) NUL\<rparr>
    \<and> queue s' = [(WM_ORDER_CONNECT_STA, Request CONNECTION_REQUEST_USER)]"
proof -
  let ?r = "\<lparr>req_uri = ''/connect.json'', req_hdrs = [(''X-Custom-ssid'', ''home''), (''X-Custom-pwd'', ''12345678'')],
      req_hdr_fails = False\<rparr>"
  have s: "wm_ok all_well bench_link" "length (queue bench_link) < WM_QUEUE_LENGTH" "queue bench_link = []"
    using bench_link_alone by (simp_all add: alone_def WM_QUEUE_LENGTH_def)
  show ?thesis
    using http_post_connect [OF bench_web_ready, of ?r "''home''" "''12345678''" all_well bench_link] all_well_free s
    by simp
qed

section \<open>The server and the manager together\<close>

text \<open>A part of the server keeps the invariant of the manager and posts at most one message.\<close>

definition serves :: "esp_oracle \<Rightarrow> wm \<Rightarrow> wm \<Rightarrow> bool" where
  "serves E s s' \<longleftrightarrow> wm_ok E s' \<and> (queue s' = queue s \<or> (\<exists>m. queue s' = queue s @ [m]))"

lemma serves_refl: "wm_ok E s \<Longrightarrow> serves E s s"
  by (simp add: serves_def)

lemma serves_send: "wifi_manager_send_message c p s = Some s' \<Longrightarrow> message_ok (c, p) \<Longrightarrow> wm_ok E s \<Longrightarrow> serves E s s'"
  using send_message_frame [of c p s s'] ok_send [of c p s s' E] by (simp add: serves_def)

lemma json_lock_unlock:
  assumes "wifi_manager_lock_json_buffer E t s = Some (ok, s1)" "wm_ok E s"
  shows "wm_ok E (if ok then wifi_manager_unlock_json_buffer E s1 else s1)" "queue s1 = queue s"
    "length (ip_info_json s1) = JSON_IP_INFO_SIZE"
  using assms(1) unfolding wifi_manager_lock_json_buffer_def
  by (cases rule: take_mutex_cases;
      use assms(2) in \<open>auto simp: wm_ok_def held_give wifi_manager_unlock_json_buffer_def\<close>)+

lemma status_serves: "http_get_status_json E s = Some (acts, err, s') \<Longrightarrow> wm_ok E s \<Longrightarrow> serves E s s'"
  using json_lock_unlock [of E "Some 10" s] sizes(2)
  by (auto simp: http_get_status_json_def serves_def wifi_manager_unlock_json_buffer_def split: if_splits) fastforce+

lemma ap_list_serves:
  assumes "http_get_ap_json E s = Some (acts, err, s')" "wm_ok E s"
  shows "serves E s s'"
proof -
  obtain ok s1 where l: "wifi_manager_lock_json_buffer E (Some 10) s = Some (ok, s1)"
    using assms(1) by (auto simp: http_get_ap_json_def)
  let ?s2 = "if ok then wifi_manager_unlock_json_buffer E s1 else s1"
  have "wifi_manager_scan_async ?s2 = Some s'"
    using assms(1) l by (auto simp: http_get_ap_json_def split: if_splits)
  then have "serves E ?s2 s'"
    using serves_send [of WM_ORDER_START_WIFI_SCAN No_Param] json_lock_unlock(1) [OF l assms(2)]
    by (simp add: wifi_manager_scan_async_def)
  moreover have "queue ?s2 = queue s"
    using json_lock_unlock(2) [OF l assms(2)] by (simp add: wifi_manager_unlock_json_buffer_def)
  ultimately show ?thesis by (simp add: serves_def)
qed

definition no_hooks :: "http_app \<Rightarrow> bool" where
  "no_hooks h \<longleftrightarrow> custom_get_httpd_uri_handler h = None \<and> custom_post_httpd_uri_handler h = None"

lemma page_serves:
  assumes "http_get_page E files r h s = Some (acts, err, s')" "wm_ok E s" "no_hooks h"
  shows "serves E s s'"
  using assms
  by (auto simp: http_get_page_def no_hooks_def run_hook_def intro: serves_refl ap_list_serves status_serves split: if_splits)

text \<open>A wait without time limit ends with the mutex taken, if it ends.\<close>

definition waits_for_ever :: "esp_oracle \<Rightarrow> bool" where
  "waits_for_ever E \<longleftrightarrow> (\<forall>h m. r_flag (E h (Sem_Take m None)))"

lemma get_serves:
  assumes "http_server_get_handler E files r h s = Some (acts, err, s')" "wm_ok E s" "no_hooks h"
    and "waits_for_ever E" "Sta_Ip_Mutex \<in> mutexes s"
  shows "serves E s s'"
proof -
  obtain ok s1 where l: "take_mutex E Sta_Ip_Mutex None s = Some (ok, s1)"
    using assms(1) by (auto simp: http_server_get_handler_def Let_def wifi_manager_lock_sta_ip_string_def)
  then have "ok"
    using assms(4,5) by (auto simp: take_mutex_def split_beta fst_call waits_for_ever_def split: if_splits)
  let ?s2 = "wifi_manager_unlock_sta_ip_string E s1"
  have s2: "wm_ok E ?s2" "queue ?s2 = queue s"
    using l by (cases rule: take_mutex_cases; use assms(2) \<open>ok\<close> in
      \<open>auto simp: wm_ok_def held_give wifi_manager_unlock_sta_ip_string_def\<close>)+
  have "s' = ?s2 \<or> http_get_page E files r h ?s2 = Some (acts, err, s')"
    using assms(1) l
    by (auto simp: http_server_get_handler_def Let_def wifi_manager_lock_sta_ip_string_def split: option.splits if_splits)
  with s2 page_serves [of E files r h ?s2 acts err s'] assms(3) show ?thesis by (auto simp: serves_def)
qed

lemma post_serves:
  assumes "http_server_post_handler E r h s = Some (acts, err, s')" "wm_ok E s" "no_hooks h"
  shows "serves E s s'"
proof (cases "\<exists>cfg. wifi_manager_connect_async E (s\<lparr>config_sta := Some cfg\<rparr>) = Some s'")
  case True
  then obtain cfg where cfg: "wifi_manager_connect_async E (s\<lparr>config_sta := Some cfg\<rparr>) = Some s'" ..
  then have "wm_ok E s'" using ok_connect_async ok_config [OF assms(2)] by blast
  moreover have "queue s' = queue s @ [(WM_ORDER_CONNECT_STA, Request CONNECTION_REQUEST_USER)]"
    using cfg
    by (auto simp: wifi_manager_connect_async_def wifi_manager_lock_json_buffer_def wifi_manager_unlock_json_buffer_def
        wifi_manager_clear_ip_info_json_def same_link_def split: if_splits dest!: take_mutex_same send_message_frame)
  ultimately show ?thesis by (simp add: serves_def)
next
  case False
  with assms have "s' = s"
    by (auto simp: http_server_post_handler_def run_hook_def no_hooks_def Let_def split: if_splits)
  with assms(2) show ?thesis by (simp add: serves_refl)
qed

lemma delete_serves: "http_server_delete_handler r h s = Some (acts, err, s') \<Longrightarrow> wm_ok E s \<Longrightarrow> serves E s s'"
  by (auto simp: http_server_delete_handler_def wifi_manager_disconnect_async_def intro: serves_refl serves_send split: if_splits)

text \<open>
  C26: Server and manager together: a request served between two steps of the manager, whichever
  method and URI, leaves the manager's invariant: no mutex stays taken, the texts keep their
  sizes, and at most one message is posted, with the data its handler expects.
\<close>

theorem http_keeps_manager:
  assumes "wm_ok E s" "no_hooks h" "waits_for_ever E" "Sta_Ip_Mutex \<in> mutexes s"
    and "http_server_get_handler E files r h s = Some (acts, err, s')
      \<or> http_server_post_handler E r h s = Some (acts, err, s') \<or> http_server_delete_handler r h s = Some (acts, err, s')"
  shows "wm_ok E s' \<and> (queue s' = queue s \<or> (\<exists>m. queue s' = queue s @ [m]))"
proof -
  have "serves E s s'"
    using assms(5)
    by (elim disjE get_serves [OF _ assms(1,2,3,4)] post_serves [OF _ assms(1,2)] delete_serves [OF _ assms(1)])
  then show ?thesis by (simp add: serves_def)
qed

theorem http_keeps_manager_witness:
  "\<exists>s'. http_server_delete_handler \<lparr>req_uri = ''/connect.json'', req_hdrs = [], req_hdr_fails = False\<rparr> bench_web bench_link =
      Some (no_cache_json @ [Send []], ESP_OK, s') \<and> wm_ok all_well s'"
proof -
  let ?r = "\<lparr>req_uri = ''/connect.json'', req_hdrs = [], req_hdr_fails = False\<rparr>"
  have s: "wm_ok all_well bench_link" "queue bench_link = []" using bench_link_alone by (simp_all add: alone_def)
  obtain s' where d: "http_server_delete_handler ?r bench_web bench_link = Some (no_cache_json @ [Send []], ESP_OK, s')"
    using s(2) by (simp add: http_server_delete_handler_def bench_web_def wifi_manager_disconnect_async_def
        wifi_manager_send_message_def WM_QUEUE_LENGTH_def)
  have "no_hooks bench_web" "waits_for_ever all_well" "Sta_Ip_Mutex \<in> mutexes bench_link"
    by (simp_all add: no_hooks_def bench_web_def http_unstarted_def free_urls_def waits_for_ever_def all_well_def bench_link_def bench_wm_def)
  from http_keeps_manager [OF s(1) this] d show ?thesis by blast
qed

text \<open>
  While the server is being stopped its URLs are already freed: a request that is still served
  compares with a NULL pointer.
\<close>

lemma request_during_stop:
  "http_server_delete_handler r (free_urls h) s = None" "http_server_post_handler E r (free_urls h) s = None"
  "http_get_page E files r (free_urls h) s = None"
  by (simp_all add: http_server_delete_handler_def http_server_post_handler_def http_get_page_def free_urls_def)

end
