(* ===== verification/I2cdev.thy ===== *)
theory I2cdev
  imports Prelude
begin

text \<open>
  The I2C device layer (\<^verbatim>\<open>common/i2cdev/i2cdev.c\<close>): one mutex and one cached driver configuration
  per port, one mutex per device, and transfers that take the port's mutex, install the driver when
  the configuration has changed, set the bus timeout and run one command link.

  The I2C driver and FreeRTOS are an oracle: what a call answers is any function of the calls made
  before (\<open>trace\<close>).  A result \<open>None\<close> stands for undefined behaviour or a failed assertion: an
  index beyond the array of ports, a semaphore that was never created.  Pointers that may be NULL are
  options; a buffer is the list of its bytes, so that its size is the length of the list.
  The target is the ESP32 and the mutexes are compiled in (\<^verbatim>\<open>sdkconfig\<close>).
\<close>

section \<open>Calls\<close>

record i2c_config =
  master_mode :: bool
  sda_io_num :: int
  scl_io_num :: int
  sda_pullup_en :: bool
  scl_pullup_en :: bool
  clk_speed :: u32

text \<open>The operations a command link is built from.\<close>

datatype i2c_op = Start | Write_Byte u8 | Write "u8 list" | Read_Last_Nack nat | Stop

datatype bus_call =
    Create_Port_Mutex nat | Delete_Port_Mutex nat | Take_Port nat | Give_Port nat
  | Create_Dev_Mutex | Delete_Dev_Mutex | Take_Dev | Give_Dev
  | Driver_Delete nat | Param_Config nat i2c_config | Driver_Install nat
  | Get_Timeout nat | Set_Timeout nat u32 | Cmd_Begin nat "i2c_op list" | Task_Delay u32

record bus_resp =
  b_err :: int
  b_ok :: bool
  b_value :: int
  b_data :: "u8 list"

text \<open>The oracle and the longest stretch time, a register width of the chip.\<close>

record bus =
  ask :: "bus_call list \<Rightarrow> bus_call \<Rightarrow> bus_resp"
  I2CDEV_MAX_STRETCH_TIME :: u32

abbreviation ESP_OK :: int where "ESP_OK \<equiv> 0"
abbreviation ESP_FAIL :: int where "ESP_FAIL \<equiv> -1"
abbreviation ESP_ERR_INVALID_ARG :: int where "ESP_ERR_INVALID_ARG \<equiv> 0x102"
abbreviation ESP_ERR_TIMEOUT :: int where "ESP_ERR_TIMEOUT \<equiv> 0x107"

section \<open>State\<close>

record i2c_port_state =
  lock :: bool
  config :: i2c_config
  installed :: bool

record i2c_state =
  trace :: "bus_call list"
  states :: "i2c_port_state list"

record i2c_dev =
  port :: nat
  cfg :: i2c_config
  addr :: u8
  mutex :: bool
  timeout_ticks :: u32

definition zero_i2c_config :: i2c_config where
  "zero_i2c_config = \<lparr>master_mode = False, sda_io_num = 0, scl_io_num = 0, sda_pullup_en = False,
     scl_pullup_en = False, clk_speed = 0\<rparr>"

definition zero_port_state :: i2c_port_state where
  "zero_port_state = \<lparr>lock = False, config = zero_i2c_config, installed = False\<rparr>"

definition bus_do :: "bus \<Rightarrow> bus_call \<Rightarrow> 'a i2c_state_scheme \<Rightarrow> bus_resp \<times> 'a i2c_state_scheme" where
  "bus_do B c s = (ask B (trace s) c, s\<lparr>trace := trace s @ [c]\<rparr>)"

definition bus_act :: "bus \<Rightarrow> bus_call \<Rightarrow> 'a i2c_state_scheme \<Rightarrow> 'a i2c_state_scheme" where
  "bus_act B c s = snd (bus_do B c s)"

section \<open>Results\<close>

text \<open>
  An operation gives its error code and the state.  \<open>ret\<close> builds the value of a function that
  returns early.
\<close>

type_synonym 'a i2c_result = "(int \<times> 'a i2c_state_scheme) option"

definition esp_call :: "bus \<Rightarrow> bus_call \<Rightarrow> 'a i2c_state_scheme \<Rightarrow> int \<times> 'a i2c_state_scheme" where
  "esp_call B c s = (let (r, s) = bus_do B c s in (b_err r, s))"

definition SEMAPHORE_TAKE :: "(int \<Rightarrow> 'a i2c_state_scheme \<Rightarrow> 'r option) \<Rightarrow> bus \<Rightarrow> nat
    \<Rightarrow> ('a i2c_state_scheme \<Rightarrow> 'r option) \<Rightarrow> 'a i2c_state_scheme \<Rightarrow> 'r option" where
  "SEMAPHORE_TAKE ret B p k s =
     (if p < length (states s) \<and> lock (states s ! p)
      then (let (r, s) = bus_do B (Take_Port p) s in if b_ok r then k s else ret ESP_ERR_TIMEOUT s)
      else None)"

definition SEMAPHORE_GIVE :: "(int \<Rightarrow> 'a i2c_state_scheme \<Rightarrow> 'r option) \<Rightarrow> bus \<Rightarrow> nat
    \<Rightarrow> ('a i2c_state_scheme \<Rightarrow> 'r option) \<Rightarrow> 'a i2c_state_scheme \<Rightarrow> 'r option" where
  "SEMAPHORE_GIVE ret B p k s =
     (if p < length (states s) \<and> lock (states s ! p)
      then (let (r, s) = bus_do B (Give_Port p) s in if b_ok r then k s else ret ESP_FAIL s)
      else None)"

abbreviation ret_err :: "int \<Rightarrow> 'a i2c_state_scheme \<Rightarrow> 'a i2c_result" where
  "ret_err e s \<equiv> Some (e, s)"

section \<open>Start and end\<close>

definition set_port :: "nat \<Rightarrow> (i2c_port_state \<Rightarrow> i2c_port_state) \<Rightarrow> 'a i2c_state_scheme \<Rightarrow> 'a i2c_state_scheme" where
  "set_port p f s = s\<lparr>states := (states s)[p := f (states s ! p)]\<rparr>"

text \<open>The \<open>for\<close> loops over the ports, from the given one on.\<close>

function create_locks :: "bus \<Rightarrow> nat \<Rightarrow> 'a i2c_state_scheme \<Rightarrow> int \<times> 'a i2c_state_scheme" where
  "create_locks B i s =
     (if i < length (states s)
      then (let (r, s) = bus_do B (Create_Port_Mutex i) s in
            if b_ok r then create_locks B (i + 1) (set_port i (lock_update (\<lambda>_. True)) s) else (ESP_FAIL, s))
      else (ESP_OK, s))"
  by pat_completeness auto
termination
  by (relation "measure (\<lambda>(B, i, s). length (states s) - i)") (auto simp: bus_do_def set_port_def)

definition i2cdev_init :: "bus \<Rightarrow> 'a i2c_state_scheme \<Rightarrow> int \<times> 'a i2c_state_scheme" where
  "i2cdev_init B s = create_locks B 0 (s\<lparr>states := map (\<lambda>_. zero_port_state) (states s)\<rparr>)"

definition delete_lock :: "bus \<Rightarrow> nat \<Rightarrow> 'a i2c_state_scheme \<Rightarrow> 'a i2c_state_scheme" where
  "delete_lock B i s = set_port i (lock_update (\<lambda>_. False)) (bus_act B (Delete_Port_Mutex i) s)"

fun done_ports :: "bus \<Rightarrow> nat list \<Rightarrow> 'a i2c_state_scheme \<Rightarrow> 'a i2c_result" where
  "done_ports B [] s = Some (ESP_OK, s)"
| "done_ports B (i # is) s =
     (if \<not> lock (states s ! i) then done_ports B is s
      else if installed (states s ! i)
      then SEMAPHORE_TAKE ret_err B i (\<lambda>s.
             SEMAPHORE_GIVE ret_err B i (\<lambda>s. done_ports B is (delete_lock B i s))
               (set_port i (installed_update (\<lambda>_. False)) (bus_act B (Driver_Delete i) s))) s
      else done_ports B is (delete_lock B i s))"

definition i2cdev_done :: "bus \<Rightarrow> 'a i2c_state_scheme \<Rightarrow> 'a i2c_result" where
  "i2cdev_done B s = done_ports B [0..<length (states s)] s"

section \<open>The mutex of a device\<close>

definition i2c_dev_create_mutex :: "bus \<Rightarrow> i2c_dev option \<Rightarrow> 'a i2c_state_scheme \<Rightarrow> int \<times> i2c_dev option \<times> 'a i2c_state_scheme" where
  "i2c_dev_create_mutex B dev s =
     (case dev of
        None \<Rightarrow> (ESP_ERR_INVALID_ARG, None, s)
      | Some d \<Rightarrow> (let (r, s) = bus_do B Create_Dev_Mutex s; d = d\<lparr>mutex := b_ok r\<rparr>
                   in (if mutex d then ESP_OK else ESP_FAIL, Some d, s)))"

definition i2c_dev_delete_mutex :: "bus \<Rightarrow> i2c_dev option \<Rightarrow> 'a i2c_state_scheme \<Rightarrow> 'a i2c_result" where
  "i2c_dev_delete_mutex B dev s =
     (case dev of
        None \<Rightarrow> Some (ESP_ERR_INVALID_ARG, s)
      | Some d \<Rightarrow> (if mutex d then Some (ESP_OK, bus_act B Delete_Dev_Mutex s) else None))"

definition i2c_dev_take_mutex :: "bus \<Rightarrow> i2c_dev option \<Rightarrow> 'a i2c_state_scheme \<Rightarrow> 'a i2c_result" where
  "i2c_dev_take_mutex B dev s =
     (case dev of
        None \<Rightarrow> Some (ESP_ERR_INVALID_ARG, s)
      | Some d \<Rightarrow> (if mutex d
                   then (let (r, s) = bus_do B Take_Dev s in Some (if b_ok r then ESP_OK else ESP_ERR_TIMEOUT, s))
                   else None))"

definition i2c_dev_give_mutex :: "bus \<Rightarrow> i2c_dev option \<Rightarrow> 'a i2c_state_scheme \<Rightarrow> 'a i2c_result" where
  "i2c_dev_give_mutex B dev s =
     (case dev of
        None \<Rightarrow> Some (ESP_ERR_INVALID_ARG, s)
      | Some d \<Rightarrow> (if mutex d
                   then (let (r, s) = bus_do B Give_Dev s in Some (if b_ok r then ESP_OK else ESP_FAIL, s))
                   else None))"

section \<open>The driver of a port\<close>

definition cfg_equal :: "i2c_config \<Rightarrow> i2c_config \<Rightarrow> bool" where
  "cfg_equal a b \<longleftrightarrow> scl_io_num a = scl_io_num b \<and> sda_io_num a = sda_io_num b \<and> clk_speed a = clk_speed b
     \<and> scl_pullup_en a = scl_pullup_en b \<and> sda_pullup_en a = sda_pullup_en b"

definition reinstall :: "bus \<Rightarrow> i2c_dev \<Rightarrow> 'a i2c_state_scheme \<Rightarrow> int \<times> 'a i2c_state_scheme" where
  "reinstall B dev s =
     (let temp = (cfg dev)\<lparr>master_mode := True\<rparr>;
          s = (if installed (states s ! port dev) then bus_act B (Driver_Delete (port dev)) s else s);
          (res, s) = esp_call B (Param_Config (port dev) temp) s
      in if res \<noteq> ESP_OK then (res, s)
      else (let (res, s) = esp_call B (Driver_Install (port dev)) s
            in if res \<noteq> ESP_OK then (res, s)
            else (ESP_OK, set_port (port dev) (\<lambda>q. q\<lparr>installed := True, config := temp\<rparr>) s)))"

definition set_ticks :: "bus \<Rightarrow> i2c_dev \<Rightarrow> 'a i2c_state_scheme \<Rightarrow> int \<times> 'a i2c_state_scheme" where
  "set_ticks B dev s =
     (let (r, s) = bus_do B (Get_Timeout (port dev)) s
      in if b_err r \<noteq> ESP_OK then (b_err r, s)
      else (let ticks = (if timeout_ticks dev \<noteq> 0 then timeout_ticks dev else I2CDEV_MAX_STRETCH_TIME B)
            in if ticks \<noteq> word_of_int (b_value r) then esp_call B (Set_Timeout (port dev) ticks) s else (ESP_OK, s)))"

definition i2c_setup_port :: "bus \<Rightarrow> i2c_dev \<Rightarrow> 'a i2c_state_scheme \<Rightarrow> int \<times> 'a i2c_state_scheme" where
  "i2c_setup_port B dev s =
     (if length (states s) \<le> port dev then (ESP_ERR_INVALID_ARG, s)
      else (let (res, s) = (if \<not> cfg_equal (cfg dev) (config (states s ! port dev)) then reinstall B dev s else (ESP_OK, s))
            in if res \<noteq> ESP_OK then (res, s) else set_ticks B dev s))"

section \<open>Transfers\<close>

definition i2c_dev_probe :: "bus \<Rightarrow> i2c_dev option \<Rightarrow> bool \<Rightarrow> 'a i2c_state_scheme \<Rightarrow> 'a i2c_result" where
  "i2c_dev_probe B dev reading s =
     (case dev of
        None \<Rightarrow> Some (ESP_ERR_INVALID_ARG, s)
      | Some d \<Rightarrow> SEMAPHORE_TAKE ret_err B (port d) (\<lambda>s.
          let (res, s) = i2c_setup_port B d s;
              (res, s) = (if res = ESP_OK
                          then esp_call B (Cmd_Begin (port d)
                                 [Start, Write_Byte (push_bit 1 (addr d) OR (if reading then 1 else 0)), Stop]) s
                          else (res, s))
          in SEMAPHORE_GIVE ret_err B (port d) (\<lambda>s. Some (res, s)) s) s)"

text \<open>The bytes a command reads replace the front of the caller's buffer.\<close>

definition fill :: "u8 list \<Rightarrow> u8 list \<Rightarrow> u8 list" where
  "fill b d = take (length b) d @ drop (length d) b"

definition read_ops :: "i2c_dev \<Rightarrow> u8 list \<Rightarrow> nat \<Rightarrow> i2c_op list" where
  "read_ops d out_data in_size =
     (if out_data \<noteq> [] then [Start, Write_Byte (push_bit 1 (addr d)), Write out_data] else [])
     @ [Start, Write_Byte (push_bit 1 (addr d) OR 1), Read_Last_Nack in_size, Stop]"

definition i2c_dev_read :: "bus \<Rightarrow> i2c_dev option \<Rightarrow> u8 list \<Rightarrow> u8 list \<Rightarrow> 'a i2c_state_scheme
    \<Rightarrow> (int \<times> u8 list \<times> 'a i2c_state_scheme) option" where
  "i2c_dev_read B dev out_data in_data s =
     (case dev of
        None \<Rightarrow> Some (ESP_ERR_INVALID_ARG, in_data, s)
      | Some d \<Rightarrow>
          if in_data = [] then Some (ESP_ERR_INVALID_ARG, in_data, s)
          else SEMAPHORE_TAKE (\<lambda>e s. Some (e, in_data, s)) B (port d) (\<lambda>s.
            let (res, s) = i2c_setup_port B d s;
                (res, b, s) = (if res = ESP_OK
                   then (let (r, s) = bus_do B (Cmd_Begin (port d) (read_ops d out_data (length in_data))) s
                         in (b_err r, fill in_data (b_data r), s))
                   else (res, in_data, s))
            in SEMAPHORE_GIVE (\<lambda>e s. Some (e, b, s)) B (port d) (\<lambda>s. Some (res, b, s)) s) s)"

definition write_ops :: "i2c_dev \<Rightarrow> u8 list \<Rightarrow> u8 list \<Rightarrow> i2c_op list" where
  "write_ops d out_reg out_data =
     [Start, Write_Byte (push_bit 1 (addr d))] @ (if out_reg \<noteq> [] then [Write out_reg] else []) @ [Write out_data, Stop]"

definition i2c_dev_write :: "bus \<Rightarrow> i2c_dev option \<Rightarrow> u8 list \<Rightarrow> u8 list \<Rightarrow> 'a i2c_state_scheme \<Rightarrow> 'a i2c_result" where
  "i2c_dev_write B dev out_reg out_data s =
     (case dev of
        None \<Rightarrow> Some (ESP_ERR_INVALID_ARG, s)
      | Some d \<Rightarrow>
          if out_data = [] then Some (ESP_ERR_INVALID_ARG, s)
          else SEMAPHORE_TAKE ret_err B (port d) (\<lambda>s.
            let (res, s) = i2c_setup_port B d s;
                (res, s) = (if res = ESP_OK
                            then esp_call B (Cmd_Begin (port d) (write_ops d out_reg out_data)) s
                            else (res, s))
            in SEMAPHORE_GIVE ret_err B (port d) (\<lambda>s. Some (res, s)) s) s)"

definition i2c_dev_read_reg :: "bus \<Rightarrow> i2c_dev option \<Rightarrow> u8 \<Rightarrow> u8 list \<Rightarrow> 'a i2c_state_scheme
    \<Rightarrow> (int \<times> u8 list \<times> 'a i2c_state_scheme) option" where
  "i2c_dev_read_reg B dev reg in_data s = i2c_dev_read B dev [reg] in_data s"

definition i2c_dev_write_reg :: "bus \<Rightarrow> i2c_dev option \<Rightarrow> u8 \<Rightarrow> u8 list \<Rightarrow> 'a i2c_state_scheme \<Rightarrow> 'a i2c_result" where
  "i2c_dev_write_reg B dev reg out_data s = i2c_dev_write B dev [reg] out_data s"

section \<open>Who holds a mutex\<close>

text \<open>
  The balance of a mutex over a trace: the successful takes less the gives.  A section between a
  take and a give leaves it as it was; the contract holds for the mutex of a port and for that of
  a device.  A give counts whatever it answers: the kernel refuses it only to a task that does not hold the mutex.
\<close>

fun balance_rev :: "bus \<Rightarrow> bus_call \<Rightarrow> bus_call \<Rightarrow> bus_call list \<Rightarrow> int" where
  "balance_rev B tk gv [] = 0"
| "balance_rev B tk gv (c # r) = balance_rev B tk gv r
     + (if c = tk then (if b_ok (ask B (rev r) c) then 1 else 0) else if c = gv then -1 else 0)"

definition balance :: "bus \<Rightarrow> bus_call \<Rightarrow> bus_call \<Rightarrow> bus_call list \<Rightarrow> int" where
  "balance B tk gv l = balance_rev B tk gv (rev l)"

lemma balance_Nil [simp]: "balance B tk gv [] = 0"
  by (simp add: balance_def)

lemma balance_snoc [simp]:
  "balance B tk gv (l @ [c]) = balance B tk gv l
     + (if c = tk then (if b_ok (ask B l c) then 1 else 0) else if c = gv then -1 else 0)"
  by (simp add: balance_def)

abbreviation port_held :: "bus \<Rightarrow> nat \<Rightarrow> 'a i2c_state_scheme \<Rightarrow> int" where
  "port_held B p s \<equiv> balance B (Take_Port p) (Give_Port p) (trace s)"

abbreviation dev_held :: "bus \<Rightarrow> 'a i2c_state_scheme \<Rightarrow> int" where
  "dev_held B s \<equiv> balance B Take_Dev Give_Dev (trace s)"

locale mutex_section =
  fixes held :: "'s \<Rightarrow> int"
    and tk :: "'s \<Rightarrow> bool \<times> 's"
    and gv :: "'s \<Rightarrow> bool \<times> 's"
  assumes taken: "tk s = (ok, s') \<Longrightarrow> held s' = held s + (if ok then 1 else 0)"
    and given: "gv s = (ok, s') \<Longrightarrow> held s' = held s - 1"
begin

lemma refused: "tk s = (False, s') \<Longrightarrow> held s' = held s"
  by (simp add: taken)

lemma section_balanced:
  "tk s = (True, s1) \<Longrightarrow> held s2 = held s1 \<Longrightarrow> gv s2 = (ok, s3) \<Longrightarrow> held s3 = held s"
  using taken [of s True s1] given [of s2 ok s3] by simp

end

definition sem :: "bus \<Rightarrow> bus_call \<Rightarrow> 'a i2c_state_scheme \<Rightarrow> bool \<times> 'a i2c_state_scheme" where
  "sem B c s = (b_ok (ask B (trace s) c), bus_act B c s)"

interpretation port_mutex: mutex_section "port_held B p" "sem B (Take_Port p)" "sem B (Give_Port p)"
  by unfold_locales (auto simp: sem_def bus_act_def bus_do_def)

interpretation dev_mutex: mutex_section "dev_held B" "sem B Take_Dev" "sem B Give_Dev"
  by unfold_locales (auto simp: sem_def bus_act_def bus_do_def)

section \<open>What an operation leaves as it was\<close>

text \<open>
  \<open>balanced\<close>: no mutex is held more or less than before, and the ports keep their mutexes.  \<open>quiet_calls\<close>:
  only calls to the I2C driver were added.
\<close>

definition balanced :: "bus \<Rightarrow> 'a i2c_state_scheme \<Rightarrow> 'a i2c_state_scheme \<Rightarrow> bool" where
  "balanced B s s' \<longleftrightarrow> (\<forall>p. port_held B p s' = port_held B p s) \<and> dev_held B s' = dev_held B s
     \<and> map lock (states s') = map lock (states s) \<and> i2c_state.more s' = i2c_state.more s"

lemma balanced_refl [simp, intro]: "balanced B s s"
  by (simp add: balanced_def)

lemma balanced_trans [trans]: "balanced B s s' \<Longrightarrow> balanced B s' s'' \<Longrightarrow> balanced B s s''"
  by (simp add: balanced_def)

text \<open>The device's mutex never moves inside a transfer, so its share is separate.\<close>

fun driver_call :: "bus_call \<Rightarrow> bool" where
  "driver_call (Driver_Delete _) = True"
| "driver_call (Param_Config _ _) = True"
| "driver_call (Driver_Install _) = True"
| "driver_call (Get_Timeout _) = True"
| "driver_call (Set_Timeout _ _) = True"
| "driver_call (Cmd_Begin _ _) = True"
| "driver_call (Task_Delay _) = True"
| "driver_call _ = False"

lemma balanced_act: "driver_call c \<Longrightarrow> balanced B s (bus_act B c s)"
  by (auto simp: balanced_def bus_act_def bus_do_def)

lemma balanced_esp_call: "driver_call c \<Longrightarrow> balanced B s (snd (esp_call B c s))"
  by (auto simp: balanced_def esp_call_def bus_do_def)

lemma balanced_bus_do: "driver_call c \<Longrightarrow> balanced B s (snd (bus_do B c s))"
  by (auto simp: balanced_def bus_do_def)

lemma balanced_set_port: "(\<And>q. lock (f q) = lock q) \<Longrightarrow> balanced B s (set_port p f s)"
  by (cases "p < length (states s)") (auto simp: balanced_def set_port_def map_update list_update_same_conv list_update_beyond)

lemma balanced_reinstall: "balanced B s (snd (reinstall B d s))"
proof -
  let ?s1 = "if installed (states s ! port d) then bus_act B (Driver_Delete (port d)) s else s"
  let ?c = "Param_Config (port d) ((cfg d)\<lparr>master_mode := True\<rparr>)"
  let ?s2 = "snd (esp_call B ?c ?s1)"
  let ?s3 = "snd (esp_call B (Driver_Install (port d)) ?s2)"
  have 1: "balanced B s ?s1" by (simp add: balanced_act)
  have 2: "balanced B s ?s2" by (rule balanced_trans [OF 1]) (simp add: balanced_esp_call)
  have 3: "balanced B s ?s3" by (rule balanced_trans [OF 2]) (simp add: balanced_esp_call)
  have 4: "balanced B s (set_port (port d) (\<lambda>q. q\<lparr>installed := True, config := (cfg d)\<lparr>master_mode := True\<rparr>\<rparr>) ?s3)"
    by (rule balanced_trans [OF 3]) (simp add: balanced_set_port)
  show ?thesis
    by (cases "esp_call B ?c ?s1"; cases "esp_call B (Driver_Install (port d)) ?s2")
      (use 2 3 4 in \<open>simp add: reinstall_def Let_def split: if_splits\<close>)
qed

lemma balanced_set_ticks: "balanced B s (snd (set_ticks B d s))"
  by (auto simp: set_ticks_def Let_def split_beta intro: balanced_trans [OF balanced_bus_do balanced_esp_call] balanced_bus_do)

lemma balanced_setup: "balanced B s (snd (i2c_setup_port B d s))"
  by (auto simp: i2c_setup_port_def Let_def split_beta intro: balanced_trans balanced_reinstall balanced_set_ticks)

text \<open>A section of a transfer: what lies between take and give is balanced.\<close>

lemma balanced_section:
  assumes "b_ok (ask B (trace s) (Take_Port p))" "balanced B (bus_act B (Take_Port p) s) s2"
  shows "balanced B s (bus_act B (Give_Port p) s2)"
  using assms by (auto simp: balanced_def bus_act_def bus_do_def)

lemma balanced_refused:
  "\<not> b_ok (ask B (trace s) (Take_Port p)) \<Longrightarrow> balanced B s (bus_act B (Take_Port p) s)"
  by (auto simp: balanced_def bus_act_def bus_do_def)

lemmas balanced_intros = balanced_section balanced_refused balanced_setup
  balanced_trans [OF balanced_setup balanced_esp_call] balanced_trans [OF balanced_setup balanced_bus_do]

lemma bus_do_conv: "bus_do B c s = (ask B (trace s) c, bus_act B c s)"
  by (simp add: bus_act_def bus_do_def)

lemma take_give:
  "SEMAPHORE_TAKE ret B p k s =
     (if p < length (states s) \<and> lock (states s ! p)
      then (if b_ok (ask B (trace s) (Take_Port p)) then k (bus_act B (Take_Port p) s)
            else ret ESP_ERR_TIMEOUT (bus_act B (Take_Port p) s)) else None)"
  "SEMAPHORE_GIVE ret B p k s =
     (if p < length (states s) \<and> lock (states s ! p)
      then (if b_ok (ask B (trace s) (Give_Port p)) then k (bus_act B (Give_Port p) s)
            else ret ESP_FAIL (bus_act B (Give_Port p) s)) else None)"
  by (simp_all add: SEMAPHORE_TAKE_def SEMAPHORE_GIVE_def bus_do_conv)

lemma balanced_probe: "i2c_dev_probe B dev r s = Some (e, s') \<Longrightarrow> balanced B s s'"
  by (auto simp: i2c_dev_probe_def take_give Let_def split_beta intro!: balanced_intros split: option.splits if_splits)

lemma balanced_write: "i2c_dev_write B dev reg out s = Some (e, s') \<Longrightarrow> balanced B s s'"
  by (auto simp: i2c_dev_write_def take_give Let_def split_beta intro!: balanced_intros split: option.splits if_splits)

lemma balanced_read: "i2c_dev_read B dev out b s = Some (e, b', s') \<Longrightarrow> balanced B s s'"
  by (auto simp: i2c_dev_read_def take_give Let_def split_beta intro!: balanced_intros split: option.splits if_splits)

lemma read_length: "i2c_dev_read B dev out b s = Some (e, b', s') \<Longrightarrow> length b' = length b"
  by (auto simp: i2c_dev_read_def take_give fill_def Let_def split_beta split: option.splits if_splits)

section \<open>Properties\<close>

text \<open>The transfers as clients make them, and a sequence of them by several devices.\<close>

datatype transfer = Probe bool | Read_Bytes "u8 list" "u8 list" | Write_Bytes "u8 list" "u8 list"

fun run_transfer :: "bus \<Rightarrow> i2c_dev option \<times> transfer \<Rightarrow> 'a i2c_state_scheme \<Rightarrow> 'a i2c_result" where
  "run_transfer B (dev, Probe r) s = i2c_dev_probe B dev r s"
| "run_transfer B (dev, Read_Bytes out b) s = map_option (\<lambda>(e, b, s). (e, s)) (i2c_dev_read B dev out b s)"
| "run_transfer B (dev, Write_Bytes reg out) s = i2c_dev_write B dev reg out s"

fun run_transfers :: "bus \<Rightarrow> (i2c_dev option \<times> transfer) list \<Rightarrow> 'a i2c_state_scheme \<Rightarrow> 'a i2c_state_scheme option" where
  "run_transfers B [] s = Some s"
| "run_transfers B (t # ts) s = do { (e, s) \<leftarrow> run_transfer B t s; run_transfers B ts s }"

lemma balanced_transfer: "run_transfer B t s = Some (e, s') \<Longrightarrow> balanced B s s'"
  by (cases "(B, t, s)" rule: run_transfer.cases) (auto dest: balanced_probe balanced_read balanced_write)

lemma balanced_transfers: "run_transfers B ts s = Some s' \<Longrightarrow> balanced B s s'"
proof (induction ts arbitrary: s)
  case (Cons t ts)
  then obtain e s1 where 1: "run_transfer B t s = Some (e, s1)" and 2: "run_transfers B ts s1 = Some s'"
    by auto
  from balanced_trans [OF balanced_transfer [OF 1] Cons.IH [OF 2]] show ?case .
qed simp

text \<open>
  C13: No transfer keeps the mutex of its port: after any sequence of transfers, by any devices,
  whatever the driver and the semaphores answered, every mutex is held exactly as often as before.
\<close>

theorem transfers_give_ports_back:
  assumes "run_transfers B ts s = Some s'"
  shows "port_held B p s' = port_held B p s"
  using balanced_transfers [OF assms] by (simp add: balanced_def)

definition bench_bus :: bus where
  "bench_bus = \<lparr>ask = \<lambda>l c. \<lparr>b_err = 0, b_ok = True, b_value = 7, b_data = [0x61]\<rparr>, I2CDEV_MAX_STRETCH_TIME = 7\<rparr>"

definition bench_dev :: i2c_dev where
  "bench_dev = \<lparr>port = 0, cfg = zero_i2c_config\<lparr>sda_io_num := 21, scl_io_num := 22, clk_speed := 1000000\<rparr>,
     addr = 0x77, mutex = True, timeout_ticks = 0\<rparr>"

definition bench_state :: i2c_state where
  "bench_state = \<lparr>trace = [], states = [zero_port_state\<lparr>lock := True\<rparr>]\<rparr>"

lemmas bench_defs = bench_bus_def bench_dev_def bench_state_def zero_i2c_config_def zero_port_state_def

lemmas transfer_defs = i2c_dev_read_reg_def i2c_dev_read_def i2c_dev_write_def i2c_dev_write_reg_def i2c_dev_probe_def
  SEMAPHORE_TAKE_def SEMAPHORE_GIVE_def i2c_setup_port_def reinstall_def set_ticks_def esp_call_def bus_act_def bus_do_def
  set_port_def cfg_equal_def read_ops_def write_ops_def fill_def

theorem transfers_give_ports_back_witness:
  "(\<exists>s'. run_transfers bench_bus [(Some bench_dev, Probe True), (None, Probe False)] bench_state = Some s'
     \<and> port_held bench_bus 0 s' = port_held bench_bus 0 bench_state)"
proof -
  obtain s' where r: "run_transfers bench_bus [(Some bench_dev, Probe True), (None, Probe False)] bench_state = Some s'"
    by (simp add: transfer_defs bench_defs Let_def)
  from transfers_give_ports_back [OF r] r show ?thesis by blast
qed

text \<open>The calls between take and give of a transfer that reached the bus.\<close>

lemma esp_call_trace [simp]: "trace (snd (esp_call B c s)) = trace s @ [c]" "fst (esp_call B c s) = b_err (ask B (trace s) c)"
  by (simp_all add: esp_call_def bus_do_def)

lemma bus_do_simps [simp]: "trace (bus_act B c s) = trace s @ [c]" "states (bus_act B c s) = states s"
  "i2c_state.more (bus_act B c s) = i2c_state.more s"
  by (simp_all add: bus_act_def bus_do_def)

lemma set_port_trace [simp]: "trace (set_port p f s) = trace s"
  by (simp add: set_port_def)

text \<open>The calls that prepare the driver of a port, which neither take nor give a mutex nor transfer.\<close>

fun setup_call :: "nat \<Rightarrow> bus_call \<Rightarrow> bool" where
  "setup_call p (Driver_Delete q) = (q = p)"
| "setup_call p (Param_Config q _) = (q = p)"
| "setup_call p (Driver_Install q) = (q = p)"
| "setup_call p (Get_Timeout q) = (q = p)"
| "setup_call p (Set_Timeout q _) = (q = p)"
| "setup_call p _ = False"

definition prepares :: "nat \<Rightarrow> bus_call list \<Rightarrow> bus_call list \<Rightarrow> bool" where
  "prepares p t t' \<longleftrightarrow> (\<exists>l. t' = t @ l \<and> list_all (setup_call p) l)"

lemma prepares_refl [simp, intro]: "prepares p t t"
  by (simp add: prepares_def)

lemma prepares_snoc [simp]: "setup_call p c \<Longrightarrow> prepares p t (t @ [c])"
  by (simp add: prepares_def)

lemma prepares_more [simp]: "setup_call p c \<Longrightarrow> setup_call p c' \<Longrightarrow> prepares p t (t @ [c, c'])"
  "setup_call p c \<Longrightarrow> setup_call p c' \<Longrightarrow> setup_call p c'' \<Longrightarrow> prepares p t (t @ [c, c', c''])"
  by (simp_all add: prepares_def)

lemma prepares_trans: "prepares p t t' \<Longrightarrow> prepares p t' t'' \<Longrightarrow> prepares p t t''"
  by (auto simp: prepares_def)

lemma reinstall_prepares: "prepares (port d) (trace s) (trace (snd (reinstall B d s)))"
  by (cases "installed (states s ! port d)") (simp_all add: reinstall_def Let_def split_beta)

lemma set_ticks_prepares: "prepares (port d) (trace s) (trace (snd (set_ticks B d s)))"
  by (simp add: set_ticks_def Let_def bus_do_conv)

lemma setup_prepares: "prepares (port d) (trace s) (trace (snd (i2c_setup_port B d s)))"
  by (auto simp: i2c_setup_port_def Let_def split_beta reinstall_prepares set_ticks_prepares
      intro: prepares_trans [OF reinstall_prepares set_ticks_prepares])

text \<open>
  C21: A register read that reports success has sent exactly this: the start, the address
  for writing, the register's number, a repeated start, the address for reading and a read of the
  buffer's size.  It is sent under the mutex of the port: the take before it was granted, between
  the take and the transfer stand only calls that prepare the driver of that port, so no give, and
  the give is the very next call after the transfer.  The buffer holds what the bus delivered.
\<close>

theorem read_reg_sends:
  assumes "i2c_dev_read_reg B (Some d) reg b s = Some (ESP_OK, b', s')"
  shows "\<exists>l. trace s' = trace s @ Take_Port (port d) # l @
      [Cmd_Begin (port d) [Start, Write_Byte (push_bit 1 (addr d)), Write [reg], Start,
         Write_Byte (push_bit 1 (addr d) OR 1), Read_Last_Nack (length b), Stop], Give_Port (port d)]
    \<and> b_ok (ask B (trace s) (Take_Port (port d)))
    \<and> list_all (setup_call (port d)) l
    \<and> b' = fill b (b_data (ask B (trace s @ Take_Port (port d) # l)
         (Cmd_Begin (port d) [Start, Write_Byte (push_bit 1 (addr d)), Write [reg], Start,
            Write_Byte (push_bit 1 (addr d) OR 1), Read_Last_Nack (length b), Stop])))"
proof -
  let ?s1 = "bus_act B (Take_Port (port d)) s"
  let ?s2 = "snd (i2c_setup_port B d ?s1)"
  obtain l where l: "trace ?s2 = trace s @ Take_Port (port d) # l" and p: "list_all (setup_call (port d)) l"
    using setup_prepares [of d ?s1 B] by (auto simp: prepares_def)
  from assms show ?thesis
    by (intro exI [of _ l])
      (auto simp: i2c_dev_read_reg_def i2c_dev_read_def take_give read_ops_def Let_def split_beta bus_do_conv l p split: if_splits)
qed

theorem read_reg_sends_witness:
  "(\<exists>s'. i2c_dev_read_reg bench_bus (Some bench_dev) 0xd0 [0] bench_state = Some (ESP_OK, [0x61], s')
    \<and> [0x61 :: u8] = fill [0] [0x61])"
proof -
  obtain s' where r: "i2c_dev_read_reg bench_bus (Some bench_dev) 0xd0 [0] bench_state = Some (ESP_OK, [0x61], s')"
    by (simp add: transfer_defs bench_defs Let_def)
  from read_reg_sends [OF r] have "[0x61 :: u8] = fill [0] [0x61]" by (auto simp: bench_bus_def)
  with r show ?thesis by simp
qed

lemma deleted_driver_used_eq:
  assumes "port d1 = port d2" "port d2 < length (states s)" "installed (states s ! port d2)"
    "cfg_equal (cfg d1) (config (states s ! port d1))" "\<not> cfg_equal (cfg d2) (config (states s ! port d2))"
    "b_err (ask B (trace s @ [Driver_Delete (port d2)]) (Param_Config (port d2) ((cfg d2)\<lparr>master_mode := True\<rparr>))) \<noteq> ESP_OK"
  shows "trace (snd (i2c_setup_port B d2 s)) =
      trace s @ [Driver_Delete (port d2), Param_Config (port d2) ((cfg d2)\<lparr>master_mode := True\<rparr>)]"
    "i2c_setup_port B d1 (snd (i2c_setup_port B d2 s)) = set_ticks B d1 (snd (i2c_setup_port B d2 s))"
    "installed (states (snd (i2c_setup_port B d2 s)) ! port d1)"
  using assms by (auto simp: i2c_setup_port_def reinstall_def esp_call_def bus_do_conv Let_def split_beta)

text \<open>
  A driver that could not be installed again counts as installed.  Two devices share a port with
  different settings, and the driver runs with those of the first.  When configuring it for the second fails, the
  driver has been deleted, yet the next transfer of the first device finds its own settings cached
  and goes on without installing any driver.
\<close>

theorem deleted_driver_used:
  assumes "port d1 = port d2" "port d2 < length (states s)" "installed (states s ! port d2)"
    "cfg_equal (cfg d1) (config (states s ! port d1))" "\<not> cfg_equal (cfg d2) (config (states s ! port d2))"
    "b_err (ask B (trace s @ [Driver_Delete (port d2)]) (Param_Config (port d2) ((cfg d2)\<lparr>master_mode := True\<rparr>))) \<noteq> ESP_OK"
  shows "trace (snd (i2c_setup_port B d2 s)) =
      trace s @ [Driver_Delete (port d2), Param_Config (port d2) ((cfg d2)\<lparr>master_mode := True\<rparr>)]
    \<and> installed (states (snd (i2c_setup_port B d2 s)) ! port d1)
    \<and> i2c_setup_port B d1 (snd (i2c_setup_port B d2 s)) = set_ticks B d1 (snd (i2c_setup_port B d2 s))"
  using deleted_driver_used_eq [OF assms] by simp

definition failing_bus :: bus where
  "failing_bus = bench_bus\<lparr>ask := \<lambda>l c. \<lparr>b_err = (case c of Param_Config _ _ \<Rightarrow> -1 | _ \<Rightarrow> 0), b_ok = True, b_value = 7, b_data = []\<rparr>\<rparr>"

definition shared_state :: i2c_state where
  "shared_state = \<lparr>trace = [], states = [\<lparr>lock = True, config = (cfg bench_dev)\<lparr>master_mode := True\<rparr>, installed = True\<rparr>]\<rparr>"

theorem deleted_driver_used_witness:
  "trace (snd (i2c_setup_port failing_bus (bench_dev\<lparr>cfg := zero_i2c_config\<rparr>) shared_state)) =
     [Driver_Delete 0, Param_Config 0 (zero_i2c_config\<lparr>master_mode := True\<rparr>)]"
  using deleted_driver_used [of bench_dev "bench_dev\<lparr>cfg := zero_i2c_config\<rparr>" shared_state failing_bus]
  by (simp add: shared_state_def failing_bus_def bench_defs cfg_equal_def)

text \<open>
  The check of the port's number comes after the use of the port's mutex: with a number out of
  range the transfer reads beyond the array, it never reports the invalid argument.
\<close>

lemma port_check_too_late:
  "length (states s) \<le> port d \<Longrightarrow> i2c_dev_probe B (Some d) r s = None"
  by (simp add: i2c_dev_probe_def take_give)

text \<open>After \<^verbatim>\<open>i2cdev_init\<close> every port has its mutex, or it reported the failure.\<close>

declare create_locks.simps [simp del]

lemma create_locks_ready:
  "create_locks B i s = (ESP_OK, s') \<Longrightarrow> \<forall>j < i. lock (states s ! j) \<Longrightarrow> i \<le> length (states s) \<Longrightarrow>
   (\<forall>j < length (states s'). lock (states s' ! j)) \<and> length (states s') = length (states s)"
proof (induction B i s rule: create_locks.induct)
  case (1 B i s)
  show ?case
  proof (cases "i < length (states s)")
    case False
    with "1.prems" show ?thesis by (auto simp: create_locks.simps [of B i s])
  next
    case True
    let ?s1 = "bus_act B (Create_Port_Mutex i) s"
    let ?s2 = "set_port i (lock_update (\<lambda>_. True)) ?s1"
    have step: "create_locks B i s = (if b_ok (ask B (trace s) (Create_Port_Mutex i))
        then create_locks B (i + 1) ?s2 else (ESP_FAIL, ?s1))"
      using True by (subst create_locks.simps) (simp add: bus_do_conv)
    with "1.prems"(1) have ok: "b_ok (ask B (trace s) (Create_Port_Mutex i))" and c: "create_locks B (i + 1) ?s2 = (ESP_OK, s')"
      by (simp_all split: if_splits)
    have l: "\<forall>j < i + 1. lock (states ?s2 ! j)" "length (states ?s2) = length (states s)"
      using "1.prems"(2) True by (auto simp: set_port_def nth_list_update less_Suc_eq)
    have "(\<forall>j < length (states s'). lock (states s' ! j)) \<and> length (states s') = length (states ?s2)"
      by (rule "1.IH" [OF True bus_do_conv [symmetric, THEN sym, of B "Create_Port_Mutex i" s, THEN sym] refl ok c l(1)]) (simp add: l True Suc_leI)
    then show ?thesis using l(2) by simp
  qed
qed

lemma i2cdev_init_ready:
  "i2cdev_init B s = (ESP_OK, s') \<Longrightarrow> p < length (states s) \<Longrightarrow> lock (states s' ! p)"
  unfolding i2cdev_init_def using create_locks_ready by fastforce

end
