(* ===== verification/Bme680_Convert.thy ===== *)
theory Bme680_Convert
  imports Prelude "HOL-Library.Signed_Division"
begin

text \<open>
  The arithmetic of the BME680 driver (\<^verbatim>\<open>common/bme680/bme680.c\<close>): register fields, calibration data,
  raw data, the compensation of temperature, pressure and humidity, the encoding of
  the heater's duration, and the duration of a measurement.

  Unsigned 32-bit arithmetic wraps and is done on words.  Signed 32-bit arithmetic is done on
  integers with a check after every operation that could overflow: an overflow or a division
  by zero is \<open>None\<close>.  Shifts of negative numbers are as the compiler does them (arithmetic).
\<close>

section \<open>Integers of C\<close>

type_synonym i8 = "8 word"
type_synonym i16 = "16 word"

text \<open>A signed 32-bit result; conversion of an unsigned to a signed one.\<close>

definition s32 :: "int \<Rightarrow> int option" where
  "s32 x = (if - (2 ^ 31) \<le> x \<and> x < 2 ^ 31 then Some x else None)"

definition to_s32 :: "int \<Rightarrow> int" where
  "to_s32 x = sint (word_of_int x :: u32)"

definition asr :: "int \<Rightarrow> nat \<Rightarrow> int" where
  "asr x n = x div 2 ^ n"

definition c_div :: "int \<Rightarrow> int \<Rightarrow> int option" where
  "c_div x y = (if y = 0 then None else s32 (x sdiv y))"

section \<open>Register fields\<close>

record bit_field =
  f_bits :: u8
  f_shift :: nat

definition bme_set_reg_bit :: "u8 \<Rightarrow> bit_field \<Rightarrow> u8 \<Rightarrow> u8" where
  "bme_set_reg_bit byte f v = (byte AND NOT (f_bits f)) OR (push_bit (f_shift f) v AND f_bits f)"

definition bme_get_reg_bit :: "u8 \<Rightarrow> bit_field \<Rightarrow> u8" where
  "bme_get_reg_bit byte f = drop_bit (f_shift f) (byte AND f_bits f)"

definition BME680_GAS_VALID :: bit_field where "BME680_GAS_VALID = \<lparr>f_bits = 0x20, f_shift = 5\<rparr>"
definition BME680_HEAT_STAB_R :: bit_field where "BME680_HEAT_STAB_R = \<lparr>f_bits = 0x10, f_shift = 4\<rparr>"
definition BME680_RUN_GAS :: bit_field where "BME680_RUN_GAS = \<lparr>f_bits = 0x10, f_shift = 4\<rparr>"
definition BME680_NB_CONV :: bit_field where "BME680_NB_CONV = \<lparr>f_bits = 0x0f, f_shift = 0\<rparr>"
definition BME680_OSR_H :: bit_field where "BME680_OSR_H = \<lparr>f_bits = 0x07, f_shift = 0\<rparr>"
definition BME680_OSR_T :: bit_field where "BME680_OSR_T = \<lparr>f_bits = 0xe0, f_shift = 5\<rparr>"
definition BME680_OSR_P :: bit_field where "BME680_OSR_P = \<lparr>f_bits = 0x1c, f_shift = 2\<rparr>"
definition BME680_MODE :: bit_field where "BME680_MODE = \<lparr>f_bits = 0x03, f_shift = 0\<rparr>"
definition BME680_FILTER :: bit_field where "BME680_FILTER = \<lparr>f_bits = 0x1c, f_shift = 2\<rparr>"
abbreviation BME680_NEW_DATA_BITS :: u8 where "BME680_NEW_DATA_BITS \<equiv> 0x80"
abbreviation BME680_MEASURING_BITS :: u8 where "BME680_MEASURING_BITS \<equiv> 0x20"
abbreviation BME680_GAS_MEAS_INDEX_BITS :: u8 where "BME680_GAS_MEAS_INDEX_BITS \<equiv> 0x0f"

section \<open>Calibration data\<close>

definition lsb_msb_to_type :: "u8 list \<Rightarrow> nat \<Rightarrow> u16" where
  "lsb_msb_to_type b off = push_bit 8 (ucast (b ! (off + 1))) OR ucast (b ! off)"

definition msb_lsb_to_type :: "u8 list \<Rightarrow> nat \<Rightarrow> u16" where
  "msb_lsb_to_type b off = push_bit 8 (ucast (b ! off)) OR ucast (b ! (off + 1))"

definition msb_lsb_xlsb_to_20bit :: "u8 list \<Rightarrow> nat \<Rightarrow> u32" where
  "msb_lsb_xlsb_to_20bit b off =
     push_bit 12 (ucast (b ! off)) OR push_bit 4 (ucast (b ! (off + 1))) OR drop_bit 4 (ucast (b ! (off + 2)))"

record bme680_calib_data =
  par_t1 :: u16
  par_t2 :: i16
  par_t3 :: i8
  par_p1 :: u16
  par_p2 :: i16
  par_p3 :: i8
  par_p4 :: i16
  par_p5 :: i16
  par_p6 :: i8
  par_p7 :: i8
  par_p8 :: i16
  par_p9 :: i16
  par_p10 :: u8
  par_h1 :: u16
  par_h2 :: u16
  par_h3 :: i8
  par_h4 :: i8
  par_h5 :: i8
  par_h6 :: u8
  par_h7 :: i8
  par_gh1 :: i8
  par_gh2 :: i16
  par_gh3 :: i8
  t_fine :: int
  res_heat_range :: u8
  res_heat_val :: i8
  range_sw_err :: i8

text \<open>The 49 bytes of the calibration map, as \<^verbatim>\<open>bme680_init_sensor\<close> reads them.\<close>

definition read_calibration :: "u8 list \<Rightarrow> bme680_calib_data \<Rightarrow> bme680_calib_data" where
  "read_calibration buf cd = cd\<lparr>
     par_t1 := lsb_msb_to_type buf 33, par_t2 := lsb_msb_to_type buf 1, par_t3 := buf ! 3,
     par_p1 := lsb_msb_to_type buf 5, par_p2 := lsb_msb_to_type buf 7, par_p3 := buf ! 9,
     par_p4 := lsb_msb_to_type buf 11, par_p5 := lsb_msb_to_type buf 13, par_p6 := buf ! 16, par_p7 := buf ! 15,
     par_p8 := lsb_msb_to_type buf 19, par_p9 := lsb_msb_to_type buf 21, par_p10 := buf ! 23,
     par_h1 := push_bit 4 (ucast (buf ! 27)) OR ucast (buf ! 26 AND 0x0F),
     par_h2 := push_bit 4 (ucast (buf ! 25)) OR ucast (drop_bit 4 (buf ! 26)),
     par_h3 := buf ! 28, par_h4 := buf ! 29, par_h5 := buf ! 30, par_h6 := buf ! 31, par_h7 := buf ! 32,
     par_gh1 := buf ! 37, par_gh2 := lsb_msb_to_type buf 35, par_gh3 := buf ! 38,
     res_heat_range := drop_bit 4 (buf ! 43 AND 0x30), res_heat_val := buf ! 41,
     range_sw_err := drop_bit 4 (buf ! 45 AND 0xf0)\<rparr>"

section \<open>Raw data\<close>

record bme680_raw_data =
  gas_valid :: bool
  heater_stable :: bool
  raw_temperature :: u32
  raw_pressure :: u32
  raw_humidity :: u16
  raw_gas_resistance :: u16
  gas_range :: u8
  gas_index :: u8

text \<open>The 15 bytes from the status register on: pressure at 2, temperature at 5, humidity at 8, gas at 13.\<close>

definition decode_raw_data :: "u8 \<Rightarrow> u8 list \<Rightarrow> bme680_raw_data" where
  "decode_raw_data status raw =
     \<lparr>gas_valid = bme_get_reg_bit (raw ! 14) BME680_GAS_VALID \<noteq> 0,
      heater_stable = bme_get_reg_bit (raw ! 14) BME680_HEAT_STAB_R \<noteq> 0,
      raw_temperature = msb_lsb_xlsb_to_20bit raw 5, raw_pressure = msb_lsb_xlsb_to_20bit raw 2,
      raw_humidity = msb_lsb_to_type raw 8,
      raw_gas_resistance = push_bit 2 (ucast (raw ! 13)) OR ucast (drop_bit 6 (raw ! 14)),
      gas_range = raw ! 14 AND 0x0f, gas_index = status AND BME680_GAS_MEAS_INDEX_BITS\<rparr>"

section \<open>Compensation\<close>

text \<open>
  Temperature: the raw value is unsigned, so C computes both factors without sign.
\<close>

definition temperature_var1 :: "bme680_calib_data \<Rightarrow> u32 \<Rightarrow> u32" where
  "temperature_var1 cd raw =
     drop_bit 11 ((drop_bit 3 raw - 2 * ucast (par_t1 cd)) * word_of_int (sint (par_t2 cd)))"

definition temperature_var2 :: "bme680_calib_data \<Rightarrow> u32 \<Rightarrow> u32" where
  "temperature_var2 cd raw =
     drop_bit 14 (drop_bit 12 ((drop_bit 4 raw - ucast (par_t1 cd)) * (drop_bit 4 raw - ucast (par_t1 cd)))
       * word_of_int (sint (par_t3 cd)))"

definition bme680_convert_temperature :: "bme680_calib_data \<Rightarrow> u32 \<Rightarrow> i16 \<times> bme680_calib_data" where
  "bme680_convert_temperature cd raw =
     (let var1 = uint (temperature_var1 cd raw);
          var2 = uint (temperature_var2 cd raw);
          cd = cd\<lparr>t_fine := to_s32 (var1 + var2)\<rparr>
      in (word_of_int (asr (t_fine cd * 5 + 128) 8), cd))"

definition BME680_MAX_OVERFLOW_VAL :: int where "BME680_MAX_OVERFLOW_VAL = 0x40000000"

definition bme680_convert_pressure :: "bme680_calib_data \<Rightarrow> u32 \<Rightarrow> u32 option" where
  "bme680_convert_pressure cd raw = do {
     var1 \<leftarrow> s32 (asr (t_fine cd) 1 - 64000);
     sq \<leftarrow> s32 (asr var1 2 * asr var1 2);
     var2 \<leftarrow> s32 (asr sq 11 * sint (par_p6 cd));
     let var2 = asr var2 2;
     x \<leftarrow> s32 (var1 * sint (par_p5 cd));
     x \<leftarrow> s32 (x * 2);
     var2 \<leftarrow> s32 (var2 + x);
     x \<leftarrow> s32 (sint (par_p4 cd) * 2 ^ 16);
     var2 \<leftarrow> s32 (asr var2 2 + x);
     x \<leftarrow> s32 (asr sq 13 * (sint (par_p3 cd) * 2 ^ 5));
     y \<leftarrow> s32 (sint (par_p2 cd) * var1);
     var1 \<leftarrow> s32 (asr x 3 + asr y 1);
     let var1 = asr var1 18;
     x \<leftarrow> s32 ((32768 + var1) * uint (par_p1 cd));
     let var1 = asr x 15;
     let pressure_comp = to_s32 (1048576 - uint raw);
     x \<leftarrow> s32 (pressure_comp - asr var2 12);
     let pressure_comp = to_s32 (x * 3125);
     pressure_comp \<leftarrow> (if BME680_MAX_OVERFLOW_VAL \<le> pressure_comp
        then do { q \<leftarrow> c_div pressure_comp var1; s32 (q * 2) }
        else do { d \<leftarrow> s32 (pressure_comp * 2); c_div d var1 });
     sq \<leftarrow> s32 (asr pressure_comp 3 * asr pressure_comp 3);
     x \<leftarrow> s32 (sint (par_p9 cd) * asr sq 13);
     let var1 = asr x 12;
     x \<leftarrow> s32 (asr pressure_comp 2 * sint (par_p8 cd));
     let var2 = asr x 13;
     x \<leftarrow> s32 (asr pressure_comp 8 * asr pressure_comp 8);
     x \<leftarrow> s32 (x * asr pressure_comp 8);
     x \<leftarrow> s32 (x * uint (par_p10 cd));
     let var3 = asr x 17;
     x \<leftarrow> s32 (var1 + var2);
     x \<leftarrow> s32 (x + var3);
     x \<leftarrow> s32 (x + sint (par_p7 cd) * 2 ^ 7);
     pressure_comp \<leftarrow> s32 (pressure_comp + asr x 4);
     Some (word_of_int pressure_comp)
   }"

definition bme680_convert_humidity :: "bme680_calib_data \<Rightarrow> u16 \<Rightarrow> u32 option" where
  "bme680_convert_humidity cd raw = do {
     x \<leftarrow> s32 (t_fine cd * 5);
     x \<leftarrow> s32 (x + 128);
     let temp_scaled = asr x 8;
     x \<leftarrow> s32 (temp_scaled * sint (par_h3 cd));
     x \<leftarrow> c_div x 100;
     var1 \<leftarrow> s32 (uint raw - uint (par_h1 cd) * 2 ^ 4 - asr x 1);
     x \<leftarrow> s32 (temp_scaled * sint (par_h4 cd));
     a \<leftarrow> c_div x 100;
     x \<leftarrow> s32 (temp_scaled * sint (par_h5 cd));
     x \<leftarrow> c_div x 100;
     x \<leftarrow> s32 (temp_scaled * x);
     b \<leftarrow> c_div (asr x 6) 100;
     x \<leftarrow> s32 (a + b);
     x \<leftarrow> s32 (x + 2 ^ 14);
     x \<leftarrow> s32 (uint (par_h2 cd) * x);
     let var2 = asr x 10;
     var3 \<leftarrow> s32 (var1 * var2);
     let var4 = uint (par_h6 cd) * 2 ^ 7;
     x \<leftarrow> s32 (temp_scaled * sint (par_h7 cd));
     x \<leftarrow> c_div x 100;
     x \<leftarrow> s32 (var4 + x);
     let var4 = asr x 4;
     x \<leftarrow> s32 (asr var3 14 * asr var3 14);
     let var5 = asr x 10;
     x \<leftarrow> s32 (var4 * var5);
     let var6 = asr x 1;
     x \<leftarrow> s32 (var3 + var6);
     x \<leftarrow> s32 (asr x 10 * 1000);
     let humidity = asr x 12;
     Some (word_of_int (if humidity > 100000 then 100000 else if humidity < 0 then 0 else humidity))
   }"

section \<open>Heater and measurement\<close>

text \<open>The duration of the heater in one byte: a value below 64 and a power of 4, found by dividing.\<close>

function heater_duration_loop :: "u16 \<Rightarrow> u8 \<Rightarrow> u16 \<times> u8" where
  "heater_duration_loop duration multiplier =
     (if 63 < duration then heater_duration_loop (duration div 4) (multiplier + 1) else (duration, multiplier))"
  by pat_completeness auto
termination
proof (relation "measure (\<lambda>(d, m). unat d)", goal_cases)
  case (2 d m)
  then have "0 < unat d" by (simp add: word_less_nat_alt)
  then show ?case by (simp add: unat_div_distrib)
qed simp

definition bme680_heater_duration :: "u16 \<Rightarrow> u8" where
  "bme680_heater_duration duration =
     (case heater_duration_loop duration 0 of (d, m) \<Rightarrow> ucast (d OR push_bit 6 (ucast m)))"

definition BME680_HEATER_NOT_USED :: int where "BME680_HEATER_NOT_USED = -1"
definition portTICK_PERIOD_MS :: u32 where "portTICK_PERIOD_MS = 10"

text \<open>
  The duration of a measurement in ticks, from the oversampling rates and the heater's duration, 0
  when no gas is measured.
\<close>

definition osr_duration :: "nat \<Rightarrow> u32" where
  "osr_duration osr = push_bit (osr - 1) 1 * 2300"

definition measurement_duration :: "nat \<Rightarrow> nat \<Rightarrow> nat \<Rightarrow> u16 option \<Rightarrow> u32" where
  "measurement_duration ost osp osh heater =
     (let d = 1250;
          d = d + (if ost \<noteq> 0 then osr_duration ost else 0);
          d = d + (if osp \<noteq> 0 then osr_duration osp + 575 else 0);
          d = d + (if osh \<noteq> 0 then osr_duration osh + 575 else 0);
          d = d + (case heater of None \<Rightarrow> 0 | Some h \<Rightarrow> ucast h * 1000 + (2300 + 575));
          d = (d + 999) div 1000;
          d = d + 5;
          d = (d + portTICK_PERIOD_MS - 1) div portTICK_PERIOD_MS
      in d + 1)"

section \<open>Theorems\<close>

declare heater_duration_loop.simps [simp del]

text \<open>What the sensor makes of the byte: the low six bits times a power of 4.\<close>

definition heater_ms :: "u8 \<Rightarrow> nat" where
  "heater_ms b = unat (b AND 63) * 4 ^ unat (drop_bit 6 b)"

definition heater_encode :: "u16 \<Rightarrow> u8 \<Rightarrow> u8" where
  "heater_encode d m = ucast (d OR push_bit 6 (ucast m))"

lemma heater_encode_table:
  "list_all (\<lambda>n. heater_ms (heater_encode (of_nat n) 0) = n \<and> heater_ms (heater_encode (of_nat n) 1) = n * 4
     \<and> heater_ms (heater_encode (of_nat n) 2) = n * 16 \<and> heater_ms (heater_encode (of_nat n) 3) = n * 64
     \<and> heater_ms (heater_encode (of_nat n) 4) = n \<and> heater_ms (heater_encode (of_nat n) 5) = n * 4) [0..<64]"
  unfolding heater_encode_def heater_ms_def by code_simp

lemma heater_encode_ms:
  assumes "unat d < 64"
  shows "heater_ms (heater_encode d 0) = unat d" "heater_ms (heater_encode d 1) = unat d * 4"
    "heater_ms (heater_encode d 2) = unat d * 16" "heater_ms (heater_encode d 3) = unat d * 64"
    "heater_ms (heater_encode d 4) = unat d" "heater_ms (heater_encode d 5) = unat d * 4"
proof -
  have "unat d \<in> set [0..<64]" "of_nat (unat d) = d" using assms by simp_all
  with heater_encode_table show "heater_ms (heater_encode d 0) = unat d" "heater_ms (heater_encode d 1) = unat d * 4"
    "heater_ms (heater_encode d 2) = unat d * 16" "heater_ms (heater_encode d 3) = unat d * 64"
    "heater_ms (heater_encode d 4) = unat d" "heater_ms (heater_encode d 5) = unat d * 4"
    unfolding list_all_iff by metis+
qed

lemma heater_loop_step:
  "63 < unat d \<Longrightarrow> heater_duration_loop d m = heater_duration_loop (d div 4) (m + 1)"
  "unat d \<le> 63 \<Longrightarrow> heater_duration_loop d m = (d, m)"
  by (subst heater_duration_loop.simps, simp add: word_less_nat_alt)+

lemma unat_div_4: "unat ((d :: u16) div 4) = unat d div 4"
  by (simp add: unat_div_distrib)

text \<open>How often the loop divides.\<close>

lemma heater_loop_cases:
  "unat d < 64 \<Longrightarrow> heater_duration_loop d 0 = (d, 0)"
  "64 \<le> unat d \<Longrightarrow> unat d < 256 \<Longrightarrow> heater_duration_loop d 0 = (d div 4, 1)"
  "256 \<le> unat d \<Longrightarrow> unat d < 1024 \<Longrightarrow> heater_duration_loop d 0 = (d div 4 div 4, 2)"
  "1024 \<le> unat d \<Longrightarrow> unat d < 4096 \<Longrightarrow> heater_duration_loop d 0 = (d div 4 div 4 div 4, 3)"
  "4096 \<le> unat d \<Longrightarrow> unat d < 16384 \<Longrightarrow> heater_duration_loop d 0 = (d div 4 div 4 div 4 div 4, 4)"
  "16384 \<le> unat d \<Longrightarrow> heater_duration_loop d 0 = (d div 4 div 4 div 4 div 4 div 4, 5)"
proof -
  have "unat d < 65536" using unsigned_less [of d, where ?'a = nat] by simp
  then show "16384 \<le> unat d \<Longrightarrow> heater_duration_loop d 0 = (d div 4 div 4 div 4 div 4 div 4, 5)"
    by (simp add: heater_loop_step unat_div_4 less_mult_imp_div_less)
qed (simp_all add: heater_loop_step unat_div_4 less_mult_imp_div_less)

lemma heater_ms_cases:
  "unat d < 64 \<Longrightarrow> heater_ms (bme680_heater_duration d) = unat d"
  "64 \<le> unat d \<Longrightarrow> unat d < 256 \<Longrightarrow> heater_ms (bme680_heater_duration d) = unat d div 4 * 4"
  "256 \<le> unat d \<Longrightarrow> unat d < 1024 \<Longrightarrow> heater_ms (bme680_heater_duration d) = unat d div 4 div 4 * 16"
  "1024 \<le> unat d \<Longrightarrow> unat d < 4096 \<Longrightarrow> heater_ms (bme680_heater_duration d) = unat d div 4 div 4 div 4 * 64"
  "4096 \<le> unat d \<Longrightarrow> unat d < 16384 \<Longrightarrow> heater_ms (bme680_heater_duration d) = unat d div 4 div 4 div 4 div 4"
  "16384 \<le> unat d \<Longrightarrow> heater_ms (bme680_heater_duration d) = unat d div 4 div 4 div 4 div 4 div 4 * 4"
proof -
  have "unat d < 65536" using unsigned_less [of d, where ?'a = nat] by simp
  then show "16384 \<le> unat d \<Longrightarrow> heater_ms (bme680_heater_duration d) = unat d div 4 div 4 div 4 div 4 div 4 * 4"
    by (simp add: bme680_heater_duration_def heater_loop_cases heater_encode_ms unat_div_4 less_mult_imp_div_less
        flip: heater_encode_def)
qed (simp_all add: bme680_heater_duration_def heater_loop_cases heater_encode_ms unat_div_4 less_mult_imp_div_less
    flip: heater_encode_def)

text \<open>
  C28: The byte for the heater's duration stands for the duration, rounded down by less than a
  sixteenth, up to 4095 ms.  From 4096 ms on the multiplier does not fit its two bits: the byte
  stands for at most 252 ms.
\<close>

theorem heater_duration_encodes:
  "if unat d < 4096
   then heater_ms (bme680_heater_duration d) \<le> unat d \<and> 16 * (unat d - heater_ms (bme680_heater_duration d)) \<le> unat d
   else heater_ms (bme680_heater_duration d) \<le> 252"
proof -
  define n where "n = unat d"
  have q: "k div 4 div 4 = k div 16" "k div 16 div 4 = k div 64" "k div 64 div 4 = k div 256" "k div 256 div 4 = k div 1024" for k :: nat
    by (simp_all add: div_mult2_eq [symmetric])
  have r: "k div m * m \<le> k" "0 < m \<Longrightarrow> k - k div m * m < m" for k m :: nat
    by (simp_all add: minus_div_mult_eq_mod)
  have n: "n < 65536" using unsigned_less [of d, where ?'a = nat] by (simp add: n_def)
  note c = heater_ms_cases [of d, folded n_def, unfolded q]
  consider "n < 64" | "64 \<le> n" "n < 256" | "256 \<le> n" "n < 1024" | "1024 \<le> n" "n < 4096"
    | "4096 \<le> n" "n < 16384" | "16384 \<le> n" by linarith
  then have "if n < 4096 then heater_ms (bme680_heater_duration d) \<le> n \<and> 16 * (n - heater_ms (bme680_heater_duration d)) \<le> n
     else heater_ms (bme680_heater_duration d) \<le> 252"
  proof cases
    case 1
    then show ?thesis by (simp add: c(1))
  next
    case 2
    with r(1) [of n 4] r(2) [of 4 n] show ?thesis by (simp add: c(2))
  next
    case 3
    with r(1) [of n 16] r(2) [of 16 n] show ?thesis by (simp add: c(3))
  next
    case 4
    with r(1) [of n 64] r(2) [of 64 n] show ?thesis by (simp add: c(4))
  next
    case 5
    moreover have "n div 256 \<le> 63" using 5 by simp
    ultimately show ?thesis by (simp add: c(5))
  next
    case 6
    moreover have "n div 1024 \<le> 63" using n by simp
    ultimately show ?thesis by (simp add: c(6))
  qed
  then show ?thesis by (simp only: n_def)
qed

section \<open>Temperature against the formula\<close>

text \<open>The expressions the code writes for both factors, in signed arithmetic without bounds.\<close>

definition temperature_formula :: "bme680_calib_data \<Rightarrow> int \<Rightarrow> int" where
  "temperature_formula cd raw =
     (let t1 = uint (par_t1 cd);
          var1 = asr ((asr raw 3 - 2 * t1) * sint (par_t2 cd)) 11;
          var2 = asr (asr ((asr raw 4 - t1) * (asr raw 4 - t1)) 12 * sint (par_t3 cd)) 14
      in var1 + var2)"

lemma word_of_uint_ucast: "(ucast (t :: u16) :: u32) = word_of_int (uint t)"
  by (simp add: word_eq_iff_signed)

lemma drop_words:
  "drop_bit 3 (w :: u32) = word_of_int (uint w div 8)" "drop_bit 4 (w :: u32) = word_of_int (uint w div 16)"
  by (simp_all add: drop_bit_eq_div word_div_def)

lemma uint_drops: "uint (drop_bit 11 (w :: u32)) = uint w div 2 ^ 11" "uint (drop_bit 12 (w :: u32)) = uint w div 2 ^ 12"
  "uint (drop_bit 14 (w :: u32)) = uint w div 2 ^ 14"
  by (simp_all add: drop_bit_eq_div uint_div_distrib)

lemma var1_eq:
  "uint (temperature_var1 cd raw) = ((uint raw div 8 - 2 * uint (par_t1 cd)) * sint (par_t2 cd)) mod 2 ^ 32 div 2 ^ 11"
proof -
  have "(drop_bit 3 raw - 2 * ucast (par_t1 cd)) * word_of_int (sint (par_t2 cd)) =
      (word_of_int ((uint raw div 8 - 2 * uint (par_t1 cd)) * sint (par_t2 cd)) :: u32)"
    unfolding drop_words word_of_uint_ucast by simp
  then show ?thesis unfolding temperature_var1_def uint_drops by (simp only: uint_word_of_int) simp
qed

lemma var2_eq:
  "uint (temperature_var2 cd raw) =
     (((uint raw div 16 - uint (par_t1 cd)) * (uint raw div 16 - uint (par_t1 cd))) mod 2 ^ 32 div 2 ^ 12
       * sint (par_t3 cd)) mod 2 ^ 32 div 2 ^ 14"
proof -
  let ?d = "uint raw div 16 - uint (par_t1 cd)"
  have "(drop_bit 4 raw - ucast (par_t1 cd)) * (drop_bit 4 raw - ucast (par_t1 cd)) = (word_of_int (?d * ?d) :: u32)"
    unfolding drop_words word_of_uint_ucast by simp
  then have "uint (drop_bit 12 ((drop_bit 4 raw - ucast (par_t1 cd)) * (drop_bit 4 raw - ucast (par_t1 cd)))) =
      (?d * ?d) mod 2 ^ 32 div 2 ^ 12"
    unfolding uint_drops by (simp only: uint_word_of_int) simp
  then have "drop_bit 12 ((drop_bit 4 raw - ucast (par_t1 cd)) * (drop_bit 4 raw - ucast (par_t1 cd))) =
      (word_of_int ((?d * ?d) mod 2 ^ 32 div 2 ^ 12) :: u32)"
    by (metis word_of_int_uint)
  then have "drop_bit 12 ((drop_bit 4 raw - ucast (par_t1 cd)) * (drop_bit 4 raw - ucast (par_t1 cd)))
      * word_of_int (sint (par_t3 cd)) =
      (word_of_int ((?d * ?d) mod 2 ^ 32 div 2 ^ 12 * sint (par_t3 cd)) :: u32)"
    by (simp only: wi_hom_mult)
  then show ?thesis unfolding temperature_var2_def uint_drops by (simp only: uint_word_of_int) simp
qed

lemma to_s32_id: "0 \<le> x \<Longrightarrow> x < 2 ^ 31 \<Longrightarrow> to_s32 x = x"
  by (simp add: to_s32_def sint_sbintrunc' signed_take_bit_int_eq_self)

lemma shifted_div:
  assumes "(P :: int) < 0" "- (2 ^ 32) \<le> P"
  shows "P mod 2 ^ 32 div 2 ^ 11 = P div 2 ^ 11 + 2 ^ 21" "P mod 2 ^ 32 div 2 ^ 14 = P div 2 ^ 14 + 2 ^ 18"
proof -
  have "P mod 2 ^ 32 = (P + 2 ^ 32) mod 2 ^ 32" by simp
  also have "\<dots> = P + 2 ^ 32" using assms by (intro mod_pos_pos_trivial) simp_all
  finally have "P mod 2 ^ 32 = P + 2 ^ 21 * 2 ^ 11" "P mod 2 ^ 32 = P + 2 ^ 18 * 2 ^ 14" by simp_all
  then show "P mod 2 ^ 32 div 2 ^ 11 = P div 2 ^ 11 + 2 ^ 21" "P mod 2 ^ 32 div 2 ^ 14 = P div 2 ^ 14 + 2 ^ 18"
    by (metis div_mult_self1 add.commute zero_neq_numeral power_not_zero)+
qed

lemma wrapped_div:
  assumes "- (2 ^ 32) \<le> P" "P < 2 ^ 32"
  shows "P mod 2 ^ 32 div 2 ^ 11 = P div 2 ^ 11 + (if (P :: int) < 0 then 2 ^ 21 else 0)"
    "P mod 2 ^ 32 div 2 ^ 14 = P div 2 ^ 14 + (if P < 0 then 2 ^ 18 else 0)"
  using shifted_div [of P] assms by simp_all

lemma product_bound:
  assumes "\<bar>x :: int\<bar> \<le> a" "\<bar>y\<bar> \<le> b" "a * b < 2 ^ 32"
  shows "- (2 ^ 32) \<le> x * y" "x * y < 2 ^ 32"
proof -
  have "\<bar>x * y\<bar> \<le> a * b" using assms(1,2) unfolding abs_mult by (intro mult_mono) simp_all
  with assms(3) show "- (2 ^ 32) \<le> x * y" "x * y < 2 ^ 32" by linarith+
qed

text \<open>
  The two products of the code: the deviation from the reference with \<open>par_t2\<close>, and its square with \<open>par_t3\<close>.  Both lie
  within 33 bits with sign for a raw value of 20 bits.
\<close>

definition first_product :: "bme680_calib_data \<Rightarrow> int \<Rightarrow> int" where
  "first_product cd raw = (raw div 8 - 2 * uint (par_t1 cd)) * sint (par_t2 cd)"

definition second_product :: "bme680_calib_data \<Rightarrow> int \<Rightarrow> int" where
  "second_product cd raw = (raw div 16 - uint (par_t1 cd)) * (raw div 16 - uint (par_t1 cd)) div 2 ^ 12 * sint (par_t3 cd)"

lemma temperature_factors:
  assumes "uint raw < 2 ^ 20"
  shows "uint (temperature_var1 cd raw) + uint (temperature_var2 cd raw) =
      temperature_formula cd (uint raw) + (if first_product cd (uint raw) < 0 then 2 ^ 21 else 0)
        + (if second_product cd (uint raw) < 0 then 2 ^ 18 else 0)"
    and "uint (temperature_var1 cd raw) + uint (temperature_var2 cd raw) < 2 ^ 31"
proof -
  let ?d = "uint raw div 16 - uint (par_t1 cd)"
  have t1: "uint (par_t1 cd) < 65536" "0 \<le> uint (par_t1 cd)" using uint_lt2p [of "par_t1 cd"] by simp_all
  have raws: "0 \<le> uint raw div 8" "uint raw div 8 < 131072" "0 \<le> uint raw div 16" "uint raw div 16 < 65536"
    using assms by (simp_all add: pos_imp_zdiv_nonneg_iff)
  have t2: "\<bar>sint (par_t2 cd)\<bar> \<le> 2 ^ 15" using sint_lt [of "par_t2 cd"] sint_ge [of "par_t2 cd"] by simp
  have "\<bar>uint raw div 8 - 2 * uint (par_t1 cd)\<bar> \<le> 131071" using t1 raws by linarith
  from product_bound [OF this t2] have p1: "- (2 ^ 32) \<le> first_product cd (uint raw)" "first_product cd (uint raw) < 2 ^ 32"
    by (simp_all add: first_product_def)
  have v1: "uint (temperature_var1 cd raw) =
      first_product cd (uint raw) div 2 ^ 11 + (if first_product cd (uint raw) < 0 then 2 ^ 21 else 0)"
    unfolding var1_eq first_product_def [symmetric] by (rule wrapped_div(1) [OF p1])
  have "\<bar>?d\<bar> < 65536" using t1 raws by linarith
  then have "\<bar>?d\<bar> * \<bar>?d\<bar> < 65536 * 65536" by (intro mult_strict_mono) simp_all
  then have sq: "0 \<le> ?d * ?d" "?d * ?d < 2 ^ 32" by (simp_all add: abs_mult_self_eq)
  define m where "m = ?d * ?d div 2 ^ 12"
  have m: "0 \<le> m" "m < 2 ^ 20" using sq by (simp_all add: m_def div_less_iff_less_mult pos_imp_zdiv_nonneg_iff)
  have sp: "second_product cd (uint raw) = m * sint (par_t3 cd)" by (simp add: second_product_def m_def)
  have t3: "\<bar>sint (par_t3 cd)\<bar> \<le> 2 ^ 7" using sint_lt [of "par_t3 cd"] sint_ge [of "par_t3 cd"] by simp
  have "\<bar>m\<bar> \<le> 2 ^ 20" using m by simp
  from product_bound [OF this t3] have p2: "- (2 ^ 32) \<le> m * sint (par_t3 cd)" "m * sint (par_t3 cd) < 2 ^ 32" by simp_all
  have v2: "uint (temperature_var2 cd raw) = m * sint (par_t3 cd) div 2 ^ 14 + (if m * sint (par_t3 cd) < 0 then 2 ^ 18 else 0)"
  proof -
    have "?d * ?d mod 2 ^ 32 div 2 ^ 12 = m" using sq by (simp add: m_def)
    then show ?thesis unfolding var2_eq using wrapped_div(2) [OF p2] by simp
  qed
  show "uint (temperature_var1 cd raw) + uint (temperature_var2 cd raw) =
      temperature_formula cd (uint raw) + (if first_product cd (uint raw) < 0 then 2 ^ 21 else 0)
        + (if second_product cd (uint raw) < 0 then 2 ^ 18 else 0)"
    unfolding v1 v2 sp by (simp add: temperature_formula_def asr_def m_def first_product_def Let_def)
  have "uint (temperature_var1 cd raw) < 2 ^ 21" by (simp add: var1_eq div_less_iff_less_mult)
  moreover have "uint (temperature_var2 cd raw) < 2 ^ 18" by (simp add: var2_eq div_less_iff_less_mult)
  ultimately show "uint (temperature_var1 cd raw) + uint (temperature_var2 cd raw) < 2 ^ 31" by simp
qed

lemma offset_hundredths:
  "asr ((f + (if a then 2 ^ 21 else 0) + (if b then 2 ^ 18 else 0)) * 5 + 128) 8 =
   asr (f * 5 + 128) 8 + (if a then 40960 else 0) + (if b then 5120 else 0)"
proof -
  have "(f * 5 + 128 + k * 256) div 256 = (f * 5 + 128) div 256 + (k :: int)" for k
    by (subst div_mult_self1) simp_all
  from this [of "(if a then 40960 else 0) + (if b then 5120 else 0)"] show ?thesis
    by (cases a; cases b) (simp_all add: asr_def algebra_simps)
qed

text \<open>
  C15: What the missing signs do to the temperature, for every calibration and every raw value of 20 bits, against the
  same expressions in signed arithmetic.  A negative first product, which for \<open>par_t2 > 0\<close> is a raw value below the
  reference of the calibration, makes \<open>t_fine\<close> larger by \<open>2 ^ 21\<close> and the temperature by 40960 hundredths of a degree;
  a negative second product, which takes \<open>par_t3 < 0\<close>, makes them larger by \<open>2 ^ 18\<close> and 5120.  With neither both agree.  In
  the 16-bit result the first reads 245.76 degrees too cold.
\<close>

theorem temperature_offsets:
  assumes "uint raw < 2 ^ 20"
  shows "let below = first_product cd (uint raw) < 0;
             bent = second_product cd (uint raw) < 0;
             (T, cd') = bme680_convert_temperature cd raw
         in t_fine cd' = temperature_formula cd (uint raw) + (if below then 2 ^ 21 else 0) + (if bent then 2 ^ 18 else 0)
          \<and> T = word_of_int (asr (temperature_formula cd (uint raw) * 5 + 128) 8
                  + (if below then 40960 else 0) + (if bent then 5120 else 0))"
proof -
  define X where "X = temperature_formula cd (uint raw) + (if first_product cd (uint raw) < 0 then 2 ^ 21 else 0)
    + (if second_product cd (uint raw) < 0 then 2 ^ 18 else 0)"
  have "to_s32 (uint (temperature_var1 cd raw) + uint (temperature_var2 cd raw)) = X"
    unfolding X_def temperature_factors(1) [OF assms, symmetric]
    by (rule to_s32_id [OF _ temperature_factors(2) [OF assms]]) simp
  then have "bme680_convert_temperature cd raw = (word_of_int (asr (X * 5 + 128) 8), cd\<lparr>t_fine := X\<rparr>)"
    by (simp add: bme680_convert_temperature_def Let_def)
  then show ?thesis unfolding Let_def offset_hundredths [symmetric] X_def [symmetric] by simp
qed

definition zero_calib :: bme680_calib_data where
  "zero_calib = \<lparr>par_t1 = 0, par_t2 = 0, par_t3 = 0, par_p1 = 0, par_p2 = 0, par_p3 = 0, par_p4 = 0, par_p5 = 0,
     par_p6 = 0, par_p7 = 0, par_p8 = 0, par_p9 = 0, par_p10 = 0, par_h1 = 0, par_h2 = 0, par_h3 = 0, par_h4 = 0,
     par_h5 = 0, par_h6 = 0, par_h7 = 0, par_gh1 = 0, par_gh2 = 0, par_gh3 = 0, t_fine = 0, res_heat_range = 0,
     res_heat_val = 0, range_sw_err = 0\<rparr>"

definition cold_sensor :: bme680_calib_data where
  "cold_sensor = zero_calib\<lparr>par_t1 := 26000, par_t2 := 26000, par_t3 := 3\<rparr>"

text \<open>A sensor at 35.95 degrees below zero reports 281.71 degrees below zero.\<close>

theorem temperature_offsets_witness:
  "asr (temperature_formula cold_sensor 300000 * 5 + 128) 8 = -3595
    \<and> fst (bme680_convert_temperature cold_sensor 300000) = word_of_int (-3595 + 40960)
    \<and> sint (fst (bme680_convert_temperature cold_sensor 300000)) = -28171"
proof -
  have f: "temperature_formula cold_sensor 300000 * 5 + 128 = -920277"
    by (simp add: cold_sensor_def temperature_formula_def asr_def Let_def)
  have "let (T, cd') = bme680_convert_temperature cold_sensor 300000
      in t_fine cd' = temperature_formula cold_sensor 300000 + 2 ^ 21
       \<and> T = word_of_int (asr (temperature_formula cold_sensor 300000 * 5 + 128) 8 + 40960)"
    using temperature_offsets [of 300000 cold_sensor] by (simp add: cold_sensor_def first_product_def second_product_def)
  then show ?thesis by (simp add: f asr_def Let_def split_beta sint_sbintrunc')
qed

section \<open>Bounds\<close>

text \<open>
  When the computation of the humidity does not overflow it gives at most 100000 (100 percent in
  thousandths), and never a negative number read as a huge one.
\<close>

lemma humidity_cap: "Some (word_of_int (if (h :: int) > 100000 then 100000 else if h < 0 then 0 else h)) = Some (r :: u32)
    \<Longrightarrow> uint r \<le> 100000"
  by (auto simp: uint_word_of_int split: if_splits)

theorem humidity_capped:
  assumes "bme680_convert_humidity cd raw = Some r"
  shows "uint r \<le> 100000"
  using assms humidity_cap
  by (auto simp: bme680_convert_humidity_def Let_def simp del: option.inject word_of_int_numeral)

theorem humidity_capped_witness:
  "bme680_convert_humidity (zero_calib\<lparr>par_h2 := 1000\<rparr>) 20000 = Some 76293 \<and> uint (76293 :: u32) \<le> 100000"
proof -
  have r: "bme680_convert_humidity (zero_calib\<lparr>par_h2 := 1000\<rparr>) 20000 = Some 76293"
    by (simp add: bme680_convert_humidity_def s32_def asr_def c_div_def zero_calib_def Let_def)
  from humidity_capped [OF r] r show ?thesis by blast
qed

text \<open>The duration of a measurement in microseconds, as the code adds it up.\<close>

definition measurement_us :: "nat \<Rightarrow> nat \<Rightarrow> nat \<Rightarrow> nat option \<Rightarrow> nat" where
  "measurement_us ost osp osh heater =
     1250 + (if ost = 0 then 0 else 2 ^ (ost - 1) * 2300) + (if osp = 0 then 0 else 2 ^ (osp - 1) * 2300 + 575)
     + (if osh = 0 then 0 else 2 ^ (osh - 1) * 2300 + 575) + (case heater of None \<Rightarrow> 0 | Some h \<Rightarrow> h * 1000 + 2875)"

lemma osr_duration_nat: "osr_duration osr = of_nat (2 ^ (osr - 1) * 2300)"
  by (simp add: osr_duration_def push_bit_eq_mult)

lemma measurement_duration_nat:
  assumes "measurement_us ost osp osh (map_option unat heater) < 2 ^ 31"
  shows "unat (measurement_duration ost osp osh heater) =
    ((measurement_us ost osp osh (map_option unat heater) + 999) div 1000 + 14) div 10 + 1"
proof -
  let ?us = "measurement_us ost osp osh (map_option unat heater)"
  define d :: u32 where "d = of_nat ?us"
  have "measurement_duration ost osp osh heater = ((d + 999) div 1000 + 5 + portTICK_PERIOD_MS - 1) div portTICK_PERIOD_MS + 1"
    by (cases heater) (simp_all add: measurement_duration_def d_def measurement_us_def osr_duration_nat Let_def add_ac)
  moreover have u: "unat d = ?us" using assms by (simp add: d_def unat_of_nat take_bit_nat_eq_self)
  moreover have 1: "unat (d + 999) = ?us + 999" using assms u by (simp add: unat_word_ariths)
  have 2: "unat ((d + 999) div 1000) = (?us + 999) div 1000"
    using 1 by (simp add: unat_div_distrib)
  have 3: "unat ((d + 999) div 1000 + 14) = (?us + 999) div 1000 + 14"
    using 2 assms by (simp add: unat_word_ariths)
  have 4: "unat (((d + 999) div 1000 + 14) div 10) = ((?us + 999) div 1000 + 14) div 10"
    using 3 by (simp add: unat_div_distrib)
  have "unat (((d + 999) div 1000 + 14) div 10 + 1) = ((?us + 999) div 1000 + 14) div 10 + 1"
    using 4 assms by (simp add: unat_word_ariths)
  ultimately show ?thesis by (simp add: portTICK_PERIOD_MS_def add.commute)
qed

text \<open>
  The wait for a measurement covers what its parts take, with at least 5 ms to spare and one more tick.
\<close>

theorem measurement_duration_covers:
  assumes "measurement_us ost osp osh (map_option unat heater) < 2 ^ 31"
  shows "measurement_us ost osp osh (map_option unat heater) + 5000
    \<le> 10000 * (unat (measurement_duration ost osp osh heater) - 1)"
proof -
  define m where "m = measurement_us ost osp osh (map_option unat heater)"
  have "m + 5000 \<le> 10000 * (((m + 999) div 1000 + 14) div 10)" by linarith
  then show ?thesis unfolding measurement_duration_nat [OF assms] m_def [symmetric] by simp
qed

theorem measurement_duration_covers_witness:
  "measurement_us 3 3 2 (Some 100) + 5000 \<le> 10000 * (unat (measurement_duration 3 3 2 (Some 100)) - 1)"
  using measurement_duration_covers [of 3 3 2 "Some 100"] by (simp add: measurement_us_def)

end
