(* ===== verification/Bme680.thy ===== *)
theory Bme680
  imports Complex_Main I2cdev Bme680_Convert
begin

text \<open>
  The BME680 driver (\<^verbatim>\<open>common/bme680/bme680.c\<close>) on top of the I2C device layer: configuration of
  the sensor, forced measurements, and the results.

  The sensor's descriptor is a part of the state.  A pointer argument that is only tested for NULL
  is a bool: whether it points to something; a pointer to a result is an option.  The macros
  \<^verbatim>\<open>CHECK\<close>, \<^verbatim>\<open>I2C_DEV_CHECK\<close>, \<^verbatim>\<open>I2C_DEV_TAKE_MUTEX\<close> and \<^verbatim>\<open>I2C_DEV_GIVE_MUTEX\<close>, which return from the
  function around them, take the rest of that function as an argument.  Floating-point arithmetic is a
  parameter (\<open>floating\<close>): the formulas are written out over its operations.
\<close>

section \<open>Descriptor\<close>

record bme680_settings =
  osr_temperature :: nat
  osr_pressure :: nat
  osr_humidity :: nat
  filter_size :: nat
  heater_profile :: i8
  heater_temperature :: "u16 list"
  heater_duration :: "u16 list"
  ambient_temperature :: i8

record bme680 =
  i2c_device :: i2c_dev
  meas_started :: bool
  meas_status :: u8
  settings :: bme680_settings
  calib_data :: bme680_calib_data

record bme_state = i2c_state +
  sensor :: bme680

record bme680_values_fixed =
  fixed_temperature :: i16
  fixed_pressure :: u32
  fixed_humidity :: u32
  fixed_gas_resistance :: u32

record 'f bme680_values_float =
  float_temperature :: 'f
  float_pressure :: 'f
  float_humidity :: 'f
  float_gas_resistance :: 'f

text \<open>
  The arithmetic of the target: \<open>'f\<close> are the values of \<^verbatim>\<open>float\<close>, \<open>'d\<close> those of \<^verbatim>\<open>double\<close>.  Literals and integers are
  converted, operations round, and the conversions to integers cut off.
\<close>

record ('f, 'd) floating =
  lit :: "rat \<Rightarrow> 'd"
  of_i :: "int \<Rightarrow> 'd"
  d_add :: "'d \<Rightarrow> 'd \<Rightarrow> 'd"
  d_sub :: "'d \<Rightarrow> 'd \<Rightarrow> 'd"
  d_mul :: "'d \<Rightarrow> 'd \<Rightarrow> 'd"
  d_div :: "'d \<Rightarrow> 'd \<Rightarrow> 'd"
  d_to_u32 :: "'d \<Rightarrow> u32"
  d_to_u8 :: "'d \<Rightarrow> u8"
  widen :: "'f \<Rightarrow> 'd"
  narrow :: "'d \<Rightarrow> 'f"
  f_lit :: "rat \<Rightarrow> 'f"
  f_of_i :: "int \<Rightarrow> 'f"
  f_mul :: "'f \<Rightarrow> 'f \<Rightarrow> 'f"
  f_div :: "'f \<Rightarrow> 'f \<Rightarrow> 'f"

abbreviation ESP_ERR_INVALID_STATE :: int where "ESP_ERR_INVALID_STATE \<equiv> 0x103"
abbreviation ESP_ERR_NOT_FOUND :: int where "ESP_ERR_NOT_FOUND \<equiv> 0x105"
abbreviation ESP_ERR_INVALID_RESPONSE :: int where "ESP_ERR_INVALID_RESPONSE \<equiv> 0x108"

type_synonym bme_result = "(int \<times> bme_state) option"

definition set_sensor :: "(bme680 \<Rightarrow> bme680) \<Rightarrow> bme_state \<Rightarrow> bme_state" where
  "set_sensor f s = s\<lparr>sensor := f (sensor s)\<rparr>"

definition set_settings :: "(bme680_settings \<Rightarrow> bme680_settings) \<Rightarrow> bme_state \<Rightarrow> bme_state" where
  "set_settings f s = set_sensor (\<lambda>d. d\<lparr>settings := f (settings d)\<rparr>) s"

abbreviation the_dev :: "bme_state \<Rightarrow> i2c_dev option" where
  "the_dev s \<equiv> Some (i2c_device (sensor s))"

section \<open>Early returns\<close>

definition CHECK_ARG :: "bool \<Rightarrow> (int \<Rightarrow> bme_state \<Rightarrow> 'r option) \<Rightarrow> (bme_state \<Rightarrow> 'r option) \<Rightarrow> bme_state \<Rightarrow> 'r option" where
  "CHECK_ARG v ret k s = (if v then k s else ret ESP_ERR_INVALID_ARG s)"

definition CHECK :: "(int \<Rightarrow> bme_state \<Rightarrow> 'r option) \<Rightarrow> bme_result \<Rightarrow> (bme_state \<Rightarrow> 'r option) \<Rightarrow> 'r option" where
  "CHECK ret r k = do { (e, s) \<leftarrow> r; if e \<noteq> ESP_OK then ret e s else k s }"

definition I2C_DEV_TAKE_MUTEX :: "(int \<Rightarrow> bme_state \<Rightarrow> 'r option) \<Rightarrow> bus \<Rightarrow> (bme_state \<Rightarrow> 'r option) \<Rightarrow> bme_state \<Rightarrow> 'r option" where
  "I2C_DEV_TAKE_MUTEX ret B k s = CHECK ret (i2c_dev_take_mutex B (the_dev s) s) k"

definition I2C_DEV_GIVE_MUTEX :: "(int \<Rightarrow> bme_state \<Rightarrow> 'r option) \<Rightarrow> bus \<Rightarrow> (bme_state \<Rightarrow> 'r option) \<Rightarrow> bme_state \<Rightarrow> 'r option" where
  "I2C_DEV_GIVE_MUTEX ret B k s = CHECK ret (i2c_dev_give_mutex B (the_dev s) s) k"

definition I2C_DEV_CHECK :: "(int \<Rightarrow> bme_state \<Rightarrow> 'r option) \<Rightarrow> bus \<Rightarrow> bme_result \<Rightarrow> (bme_state \<Rightarrow> 'r option) \<Rightarrow> 'r option" where
  "I2C_DEV_CHECK ret B r k =
     do { (e, s) \<leftarrow> r; if e \<noteq> ESP_OK then I2C_DEV_GIVE_MUTEX ret B (ret e) s else k s }"

text \<open>The same around a read: the rest of the function, and an early return, see the bytes read.\<close>

definition I2C_DEV_CHECK_READ :: "('b \<Rightarrow> int \<Rightarrow> bme_state \<Rightarrow> 'r option) \<Rightarrow> bus \<Rightarrow> (int \<times> 'b \<times> bme_state) option
    \<Rightarrow> ('b \<Rightarrow> bme_state \<Rightarrow> 'r option) \<Rightarrow> 'r option" where
  "I2C_DEV_CHECK_READ ret B r k = do { (e, b, s) \<leftarrow> r; I2C_DEV_CHECK (ret b) B (Some (e, s)) (k b) }"

abbreviation ret_e :: "int \<Rightarrow> bme_state \<Rightarrow> bme_result" where
  "ret_e e s \<equiv> Some (e, s)"

section \<open>Registers\<close>

definition read_reg_8_nolock :: "bus \<Rightarrow> u8 \<Rightarrow> u8 \<Rightarrow> bme_state \<Rightarrow> (int \<times> u8 \<times> bme_state) option" where
  "read_reg_8_nolock B reg data s =
     do { (e, b, s) \<leftarrow> i2c_dev_read_reg B (the_dev s) reg [data] s; Some (e, b ! 0, s) }"

definition write_reg_8_nolock :: "bus \<Rightarrow> u8 \<Rightarrow> u8 \<Rightarrow> bme_state \<Rightarrow> bme_result" where
  "write_reg_8_nolock B reg data s = i2c_dev_write_reg B (the_dev s) reg [data] s"

definition read_reg_8 :: "bus \<Rightarrow> u8 \<Rightarrow> u8 \<Rightarrow> bme_state \<Rightarrow> (int \<times> u8 \<times> bme_state) option" where
  "read_reg_8 B reg data s =
     I2C_DEV_TAKE_MUTEX (\<lambda>e s. Some (e, data, s)) B (\<lambda>s.
     I2C_DEV_CHECK_READ (\<lambda>b e s. Some (e, b, s)) B (read_reg_8_nolock B reg data s) (\<lambda>b s.
     I2C_DEV_GIVE_MUTEX (\<lambda>e s. Some (e, b, s)) B (\<lambda>s. Some (ESP_OK, b, s)) s)) s"

text \<open>Read a register, change it, write it back, with the device's mutex held.\<close>

definition modify_reg :: "bus \<Rightarrow> u8 \<Rightarrow> (u8 \<Rightarrow> u8) \<Rightarrow> (bme_state \<Rightarrow> bme_result) \<Rightarrow> bme_state \<Rightarrow> bme_result" where
  "modify_reg B reg f k s =
     I2C_DEV_CHECK_READ (\<lambda>_. ret_e) B (read_reg_8_nolock B reg 0 s) (\<lambda>r s.
     I2C_DEV_CHECK ret_e B (write_reg_8_nolock B reg (f r) s) k)"

definition BME680_REG_RES_HEAT_BASE :: u8 where "BME680_REG_RES_HEAT_BASE = 0x5a"
definition BME680_REG_GAS_WAIT_BASE :: u8 where "BME680_REG_GAS_WAIT_BASE = 0x64"
definition BME680_REG_CTRL_GAS_1 :: u8 where "BME680_REG_CTRL_GAS_1 = 0x71"
definition BME680_REG_CTRL_HUM :: u8 where "BME680_REG_CTRL_HUM = 0x72"
definition BME680_REG_CTRL_MEAS :: u8 where "BME680_REG_CTRL_MEAS = 0x74"
definition BME680_REG_CONFIG :: u8 where "BME680_REG_CONFIG = 0x75"
definition BME680_REG_ID :: u8 where "BME680_REG_ID = 0xd0"
definition BME680_REG_RESET :: u8 where "BME680_REG_RESET = 0xe0"
definition BME680_REG_MEAS_STATUS_0 :: u8 where "BME680_REG_MEAS_STATUS_0 = 0x1d"
definition BME680_REG_RAW_DATA_LEN :: nat where "BME680_REG_RAW_DATA_LEN = 15"
definition BME680_HEATER_PROFILES :: nat where "BME680_HEATER_PROFILES = 10"

section \<open>Settings\<close>

definition bme680_set_mode :: "bus \<Rightarrow> u8 \<Rightarrow> bme_state \<Rightarrow> bme_result" where
  "bme680_set_mode B mode s =
     I2C_DEV_TAKE_MUTEX ret_e B (modify_reg B BME680_REG_CTRL_MEAS (\<lambda>reg. bme_set_reg_bit reg BME680_MODE mode)
       (I2C_DEV_GIVE_MUTEX ret_e B (ret_e ESP_OK))) s"

definition bme680_heater_resistance :: "('f, 'd) floating \<Rightarrow> bme680 \<Rightarrow> u16 \<Rightarrow> u8" where
  "bme680_heater_resistance F d temp =
     (let temp = (if temp < 200 then 200 else if temp > 400 then 400 else temp);
          cd = calib_data d;
          var1 = d_add F (d_div F (of_i F (sint (par_gh1 cd))) (lit F 16)) (lit F 49);
          var2 = d_add F (d_mul F (d_div F (of_i F (sint (par_gh2 cd))) (lit F 32768)) (lit F 0.0005)) (lit F 0.00235);
          var3 = d_div F (of_i F (sint (par_gh3 cd))) (lit F 1024);
          var4 = d_mul F var1 (d_add F (lit F 1) (d_mul F var2 (of_i F (uint temp))));
          var5 = d_add F var4 (d_mul F var3 (of_i F (sint (ambient_temperature (settings d)))))
      in d_to_u8 F (d_mul F (lit F 3.4)
           (d_sub F (d_mul F (d_mul F var5 (d_div F (lit F 4) (d_add F (lit F 4) (of_i F (uint (res_heat_range cd))))))
                       (d_div F (lit F 1) (d_add F (lit F 1) (d_mul F (of_i F (sint (res_heat_val cd))) (lit F 0.002)))))
              (of_i F 25))))"

definition bme680_set_oversampling_rates :: "bus \<Rightarrow> bool \<Rightarrow> nat \<Rightarrow> nat \<Rightarrow> nat \<Rightarrow> bme_state \<Rightarrow> bme_result" where
  "bme680_set_oversampling_rates B dev ost osp osh s = CHECK_ARG dev ret_e (\<lambda>s.
     let st = settings (sensor s);
         ost_changed = osr_temperature st \<noteq> ost;
         osp_changed = osr_pressure st \<noteq> osp;
         osh_changed = osr_humidity st \<noteq> osh
     in if \<not> ost_changed \<and> \<not> osp_changed \<and> \<not> osh_changed then Some (ESP_OK, s)
     else (let s = set_settings (\<lambda>st. st\<lparr>osr_temperature := ost, osr_pressure := osp, osr_humidity := osh\<rparr>) s;
               give = I2C_DEV_GIVE_MUTEX ret_e B (ret_e ESP_OK);
               humidity = (if osh_changed
                 then modify_reg B BME680_REG_CTRL_HUM (\<lambda>reg. bme_set_reg_bit reg BME680_OSR_H (of_nat osh)) give
                 else give)
           in I2C_DEV_TAKE_MUTEX ret_e B
                (if ost_changed \<or> osp_changed
                 then modify_reg B BME680_REG_CTRL_MEAS (\<lambda>reg.
                   let reg = (if ost_changed then bme_set_reg_bit reg BME680_OSR_T (of_nat ost) else reg)
                   in if osp_changed then bme_set_reg_bit reg BME680_OSR_P (of_nat osp) else reg) humidity
                 else humidity) s)) s"

definition bme680_set_filter_size :: "bus \<Rightarrow> bool \<Rightarrow> nat \<Rightarrow> bme_state \<Rightarrow> bme_result" where
  "bme680_set_filter_size B dev sz s = CHECK_ARG dev ret_e (\<lambda>s.
     if filter_size (settings (sensor s)) = sz then Some (ESP_OK, s)
     else I2C_DEV_TAKE_MUTEX ret_e B
            (modify_reg B BME680_REG_CONFIG (\<lambda>reg. bme_set_reg_bit reg BME680_FILTER (of_nat sz))
              (I2C_DEV_GIVE_MUTEX ret_e B (ret_e ESP_OK)))
            (set_settings (\<lambda>st. st\<lparr>filter_size := sz\<rparr>) s)) s"

definition bme680_set_heater_profile :: "('f, 'd) floating \<Rightarrow> bus \<Rightarrow> bool \<Rightarrow> u8 \<Rightarrow> u16 \<Rightarrow> u16 \<Rightarrow> bme_state \<Rightarrow> bme_result" where
  "bme680_set_heater_profile F B dev profile temperature duration s =
     CHECK_ARG (dev \<and> unat profile < BME680_HEATER_PROFILES) ret_e (\<lambda>s.
     let st = settings (sensor s);
         i = unat profile;
         temperature_changed = heater_temperature st ! i \<noteq> temperature;
         duration_changed = heater_duration st ! i \<noteq> duration
     in if \<not> temperature_changed \<and> \<not> duration_changed then Some (ESP_OK, s)
     else (let s = set_settings (\<lambda>st. st\<lparr>heater_temperature := (heater_temperature st)[i := temperature],
                                         heater_duration := (heater_duration st)[i := duration]\<rparr>) s;
               heat_dur = bme680_heater_duration duration;
               heat_res = bme680_heater_resistance F (sensor s) temperature;
               give = I2C_DEV_GIVE_MUTEX ret_e B (ret_e ESP_OK);
               wait = (\<lambda>s. if duration_changed
                 then I2C_DEV_CHECK ret_e B (write_reg_8_nolock B (BME680_REG_GAS_WAIT_BASE + profile) heat_dur s) give
                 else give s)
           in I2C_DEV_TAKE_MUTEX ret_e B (\<lambda>s. if temperature_changed
                then I2C_DEV_CHECK ret_e B (write_reg_8_nolock B (BME680_REG_RES_HEAT_BASE + profile) heat_res s) wait
                else wait s) s)) s"

text \<open>The entry of the active profile: temperature and duration, nothing without a heater.\<close>

definition active_profile :: "bme680_settings \<Rightarrow> i8 \<Rightarrow> (u16 \<times> u16) option" where
  "active_profile st profile =
     (if sint profile \<noteq> BME680_HEATER_NOT_USED
      then Some (heater_temperature st ! nat (sint profile), heater_duration st ! nat (sint profile)) else None)"

definition bme680_use_heater_profile :: "bus \<Rightarrow> bool \<Rightarrow> i8 \<Rightarrow> bme_state \<Rightarrow> bme_result" where
  "bme680_use_heater_profile B dev profile s =
     CHECK_ARG dev ret_e (CHECK_ARG (-1 \<le> sint profile \<and> sint profile < int BME680_HEATER_PROFILES) ret_e (\<lambda>s.
     if heater_profile (settings (sensor s)) = profile then Some (ESP_OK, s)
     else (let s = set_settings (\<lambda>st. st\<lparr>heater_profile := profile\<rparr>) s;
               used = (case active_profile (settings (sensor s)) profile of None \<Rightarrow> False | Some (t, d) \<Rightarrow> t \<noteq> 0 \<and> d \<noteq> 0);
               reg = bme_set_reg_bit 0 BME680_NB_CONV (if sint profile \<noteq> BME680_HEATER_NOT_USED then profile else 0);
               reg = bme_set_reg_bit reg BME680_RUN_GAS (if used then 1 else 0)
           in I2C_DEV_TAKE_MUTEX ret_e B (\<lambda>s.
                I2C_DEV_CHECK ret_e B (write_reg_8_nolock B BME680_REG_CTRL_GAS_1 reg s)
                  (I2C_DEV_GIVE_MUTEX ret_e B (ret_e ESP_OK))) s))) s"

definition bme680_set_ambient_temperature :: "('f, 'd) floating \<Rightarrow> bus \<Rightarrow> bool \<Rightarrow> i16 \<Rightarrow> bme_state \<Rightarrow> bme_result" where
  "bme680_set_ambient_temperature F B dev ambient s = CHECK_ARG dev ret_e (\<lambda>s.
     if sint (ambient_temperature (settings (sensor s))) = sint ambient then Some (ESP_OK, s)
     else (let s = set_settings (\<lambda>st. st\<lparr>ambient_temperature := ucast ambient\<rparr>) s;
               data = map (\<lambda>t. if t \<noteq> 0 then bme680_heater_resistance F (sensor s) t else 0)
                          (heater_temperature (settings (sensor s)))
           in I2C_DEV_TAKE_MUTEX ret_e B (\<lambda>s.
                I2C_DEV_CHECK ret_e B (i2c_dev_write_reg B (the_dev s) BME680_REG_RES_HEAT_BASE data s)
                  (I2C_DEV_GIVE_MUTEX ret_e B (ret_e ESP_OK))) s)) s"

section \<open>Descriptor and start\<close>

definition BME680_I2C_ADDR_0 :: u8 where "BME680_I2C_ADDR_0 = 0x76"
definition BME680_I2C_ADDR_1 :: u8 where "BME680_I2C_ADDR_1 = 0x77"
definition I2C_FREQ_HZ :: u32 where "I2C_FREQ_HZ = 1000000"

definition bme680_init_desc :: "bus \<Rightarrow> bool \<Rightarrow> u8 \<Rightarrow> nat \<Rightarrow> int \<Rightarrow> int \<Rightarrow> bme_state \<Rightarrow> bme_result" where
  "bme680_init_desc B dev address p sda_gpio scl_gpio s = CHECK_ARG dev ret_e (\<lambda>s.
     if address \<noteq> BME680_I2C_ADDR_0 \<and> address \<noteq> BME680_I2C_ADDR_1 then Some (ESP_ERR_INVALID_ARG, s)
     else (let d = i2c_device (sensor s);
               d = d\<lparr>port := p, addr := address,
                     cfg := (cfg d)\<lparr>sda_io_num := sda_gpio, scl_io_num := scl_gpio, clk_speed := I2C_FREQ_HZ\<rparr>\<rparr>;
               (e, d', s) = i2c_dev_create_mutex B (Some d) s
           in Some (e, set_sensor (\<lambda>x. x\<lparr>i2c_device := the d'\<rparr>) s))) s"

definition bme680_free_desc :: "bus \<Rightarrow> bool \<Rightarrow> bme_state \<Rightarrow> bme_result" where
  "bme680_free_desc B dev s = CHECK_ARG dev ret_e (\<lambda>s. i2c_dev_delete_mutex B (the_dev s) s) s"

definition initial_settings :: "bme680_settings \<Rightarrow> bme680_settings" where
  "initial_settings st = st\<lparr>ambient_temperature := 0, osr_temperature := 0, osr_pressure := 0, osr_humidity := 0,
     filter_size := 0, heater_profile := -1, heater_temperature := replicate 10 0, heater_duration := replicate 10 0\<rparr>"

text \<open>A burst read of the calibration map into its part of the buffer.\<close>

definition read_burst :: "bus \<Rightarrow> u8 \<Rightarrow> nat \<Rightarrow> bme_state \<Rightarrow> (int \<times> u8 list \<times> bme_state) option" where
  "read_burst B reg n s = i2c_dev_read_reg B (the_dev s) reg (replicate n 0) s"

definition load_calibration :: "bus \<Rightarrow> (bme_state \<Rightarrow> bme_result) \<Rightarrow> bme_state \<Rightarrow> bme_result" where
  "load_calibration B k s =
     I2C_DEV_CHECK_READ (\<lambda>_. ret_e) B (read_burst B 0x89 25 s) (\<lambda>b1 s.
     I2C_DEV_CHECK_READ (\<lambda>_. ret_e) B (read_burst B 0xe1 16 s) (\<lambda>b2 s.
     I2C_DEV_CHECK_READ (\<lambda>_. ret_e) B (read_burst B 0x00 8 s) (\<lambda>b3 s.
     k (set_sensor (\<lambda>d. d\<lparr>calib_data := read_calibration (b1 @ b2 @ b3) (calib_data d)\<rparr>) s))))"

definition bme680_init_sensor :: "('f, 'd) floating \<Rightarrow> bus \<Rightarrow> bool \<Rightarrow> bme_state \<Rightarrow> bme_result" where
  "bme680_init_sensor F B dev s = CHECK_ARG dev ret_e (I2C_DEV_TAKE_MUTEX ret_e B (\<lambda>s.
     let s = set_sensor (\<lambda>d. d\<lparr>meas_started := False, meas_status := 0\<rparr>) (set_settings initial_settings s)
     in I2C_DEV_CHECK ret_e B (write_reg_8_nolock B BME680_REG_RESET 0xb6 s) (\<lambda>s.
        I2C_DEV_CHECK_READ (\<lambda>_. ret_e) B (read_reg_8_nolock B BME680_REG_ID 0 (bus_act B (Task_Delay 1) s)) (\<lambda>chip_id s.
        if chip_id \<noteq> 0x61 then I2C_DEV_GIVE_MUTEX ret_e B (ret_e ESP_ERR_NOT_FOUND) s
        else load_calibration B (\<lambda>s.
          I2C_DEV_GIVE_MUTEX ret_e B (\<lambda>s.
          CHECK ret_e (bme680_set_oversampling_rates B dev 1 1 1 s) (\<lambda>s.
          CHECK ret_e (bme680_set_filter_size B dev 2 s) (\<lambda>s.
          CHECK ret_e (bme680_set_heater_profile F B dev 0 320 150 s) (\<lambda>s.
          CHECK ret_e (bme680_use_heater_profile B dev 0 s) (\<lambda>s.
          Some (ESP_OK, s))))))
          (set_settings (\<lambda>st. st\<lparr>ambient_temperature := 25\<rparr>) s)) s)))) s"

section \<open>Measurement\<close>

definition bme680_force_measurement :: "bus \<Rightarrow> bool \<Rightarrow> bme_state \<Rightarrow> bme_result" where
  "bme680_force_measurement B dev s = CHECK_ARG dev ret_e (\<lambda>s.
     if meas_started (sensor s) then Some (ESP_ERR_INVALID_STATE, s)
     else CHECK ret_e (bme680_set_mode B 1 s) (\<lambda>s.
       Some (ESP_OK, set_sensor (\<lambda>d. d\<lparr>meas_started := True, meas_status := 0\<rparr>) s))) s"

definition bme680_get_measurement_duration :: "bool \<Rightarrow> bool \<Rightarrow> bme_state \<Rightarrow> int \<times> u32 option" where
  "bme680_get_measurement_duration dev duration s =
     (if dev \<and> duration
      then (let st = settings (sensor s);
                heater = (case active_profile st (heater_profile st) of None \<Rightarrow> None
                          | Some (t, d) \<Rightarrow> if d \<noteq> 0 \<and> t \<noteq> 0 then Some d else None)
            in (ESP_OK, Some (measurement_duration (osr_temperature st) (osr_pressure st) (osr_humidity st) heater)))
      else (ESP_ERR_INVALID_ARG, None))"

definition bme680_is_measuring :: "bus \<Rightarrow> bool \<Rightarrow> bool option \<Rightarrow> bme_state \<Rightarrow> (int \<times> bool option \<times> bme_state) option" where
  "bme680_is_measuring B dev busy s =
     CHECK_ARG (dev \<and> busy \<noteq> None) (\<lambda>e s. Some (e, busy, s)) (\<lambda>s.
     if \<not> meas_started (sensor s) then Some (ESP_OK, Some False, s)
     else do {
       (e, b, s) \<leftarrow> read_reg_8 B BME680_REG_MEAS_STATUS_0 (meas_status (sensor s)) s;
       let s = set_sensor (\<lambda>d. d\<lparr>meas_status := b\<rparr>) s;
       Some (if e \<noteq> ESP_OK then (e, busy, s) else (ESP_OK, Some (b AND BME680_MEASURING_BITS \<noteq> 0), s)) }) s"

text \<open>Whether there are new data, after asking the sensor for its status if need be.\<close>

definition new_data :: "bus \<Rightarrow> bme_state \<Rightarrow> bme_result" where
  "new_data B s =
     (if meas_status (sensor s) AND BME680_NEW_DATA_BITS \<noteq> 0 then Some (ESP_OK, s)
      else do {
        (e, b, s) \<leftarrow> read_reg_8 B BME680_REG_MEAS_STATUS_0 (meas_status (sensor s)) s;
        let s = set_sensor (\<lambda>d. d\<lparr>meas_status := b\<rparr>) s;
        Some (if e \<noteq> ESP_OK then e
              else if b AND BME680_NEW_DATA_BITS \<noteq> 0 then ESP_OK
              else if b AND BME680_MEASURING_BITS \<noteq> 0 then ESP_ERR_INVALID_STATE
              else ESP_ERR_INVALID_RESPONSE, s) })"

definition bme680_get_raw_data :: "bus \<Rightarrow> bme_state \<Rightarrow> (int \<times> bme680_raw_data option \<times> bme_state) option" where
  "bme680_get_raw_data B s =
     (let ret = (\<lambda>e s. Some (e, None, s))
      in if \<not> meas_started (sensor s) then ret ESP_ERR_INVALID_STATE s
      else CHECK ret (new_data B s) (\<lambda>s.
        I2C_DEV_TAKE_MUTEX ret B (\<lambda>s.
        I2C_DEV_CHECK_READ (\<lambda>_. ret) B (read_burst B BME680_REG_MEAS_STATUS_0 BME680_REG_RAW_DATA_LEN s) (\<lambda>raw.
        I2C_DEV_GIVE_MUTEX ret B (\<lambda>s. Some (ESP_OK, Some (decode_raw_data (meas_status (sensor s)) raw), s))))
        (set_sensor (\<lambda>d. d\<lparr>meas_started := False\<rparr>) s)))"

definition invalid_values :: bme680_values_fixed where
  "invalid_values = \<lparr>fixed_temperature = 0x8000, fixed_pressure = 0, fixed_humidity = 0, fixed_gas_resistance = 0\<rparr>"

definition lookup_table :: "(rat \<times> rat) list" where
  "lookup_table = [(1, 8000000), (1, 4000000), (1, 2000000), (1, 1000000), (1, 499500.4995), (0.99, 248262.1648), (1, 125000),
     (0.992, 63004.03226), (1, 31281.28128), (1, 15625), (0.998, 7812.5), (0.995, 3906.25), (1, 1953.125), (0.99, 976.5625),
     (1, 488.28125), (1, 244.140625)]"

text \<open>The entries of the table are of type \<^verbatim>\<open>float\<close>, the sums are computed in \<^verbatim>\<open>double\<close>.\<close>

definition bme680_convert_gas :: "('f, 'd) floating \<Rightarrow> bme680_calib_data \<Rightarrow> u16 \<Rightarrow> u8 \<Rightarrow> u32 option" where
  "bme680_convert_gas F cd gas rng =
     (if unat rng < length lookup_table
      then (let const1 = narrow F (lit F (fst (lookup_table ! unat rng)));
                const2 = narrow F (lit F (snd (lookup_table ! unat rng)));
                var1 = narrow F (d_mul F (d_add F (lit F 1340) (d_mul F (lit F 5) (of_i F (sint (range_sw_err cd))))) (widen F const1))
            in Some (d_to_u32 F (d_div F (widen F (f_mul F var1 const2))
                 (d_add F (d_sub F (of_i F (uint gas)) (lit F 512)) (widen F var1)))))
      else None)"

text \<open>The table is never read out of its bounds: the range of a reading has four bits.\<close>

lemma gas_range_in_table: "\<exists>g. bme680_convert_gas F cd gas (gas_range (decode_raw_data status raw)) = Some g"
proof -
  have "(0x0f :: u8) = mask 4" by (simp add: mask_eq_exp_minus_1)
  then have "raw ! 14 AND 0x0f = take_bit 4 (raw ! 14)" by (simp only: take_bit_eq_mask)
  then have "unat (gas_range (decode_raw_data status raw)) < 16"
    by (simp add: decode_raw_data_def unsigned_take_bit_eq take_bit_eq_mod unat_mod)
  then have "unat (gas_range (decode_raw_data status raw)) < length lookup_table" by (simp add: lookup_table_def)
  then show ?thesis by (simp add: bme680_convert_gas_def Let_def)
qed

definition convert_results :: "('f, 'd) floating \<Rightarrow> bme680_raw_data \<Rightarrow> bme680 \<Rightarrow> (bme680_values_fixed \<times> bme680) option" where
  "convert_results F raw d = do {
     let st = settings d;
     let (T, cd) = (if osr_temperature st \<noteq> 0 then bme680_convert_temperature (calib_data d) (raw_temperature raw)
                    else (fixed_temperature invalid_values, calib_data d));
     P \<leftarrow> (if osr_pressure st \<noteq> 0 then bme680_convert_pressure cd (raw_pressure raw) else Some 0);
     H \<leftarrow> (if osr_humidity st \<noteq> 0 then bme680_convert_humidity cd (raw_humidity raw) else Some 0);
     G \<leftarrow> (if sint (heater_profile st) \<noteq> BME680_HEATER_NOT_USED \<and> gas_valid raw \<and> heater_stable raw
          then bme680_convert_gas F cd (raw_gas_resistance raw) (gas_range raw) else Some 0);
     Some (\<lparr>fixed_temperature = T, fixed_pressure = P, fixed_humidity = H, fixed_gas_resistance = G\<rparr>, d\<lparr>calib_data := cd\<rparr>) }"

definition bme680_get_results_fixed :: "('f, 'd) floating \<Rightarrow> bus \<Rightarrow> bool \<Rightarrow> bme680_values_fixed option \<Rightarrow> bme_state
    \<Rightarrow> (int \<times> bme680_values_fixed option \<times> bme_state) option" where
  "bme680_get_results_fixed F B dev results s =
     CHECK_ARG (dev \<and> results \<noteq> None) (\<lambda>e s. Some (e, results, s)) (\<lambda>s. do {
       (e, raw, s) \<leftarrow> bme680_get_raw_data B s;
       case raw of
         None \<Rightarrow> Some (e, Some invalid_values, s)
       | Some raw \<Rightarrow> do { (v, d) \<leftarrow> convert_results F raw (sensor s); Some (ESP_OK, Some v, s\<lparr>sensor := d\<rparr>) } }) s"

definition to_float :: "('f, 'd) floating \<Rightarrow> bme680_values_fixed \<Rightarrow> 'f bme680_values_float" where
  "to_float F v = \<lparr>float_temperature = f_div F (f_of_i F (sint (fixed_temperature v))) (f_lit F 100),
     float_pressure = f_div F (f_of_i F (uint (fixed_pressure v))) (f_lit F 100),
     float_humidity = f_div F (f_of_i F (uint (fixed_humidity v))) (f_lit F 1000),
     float_gas_resistance = f_of_i F (uint (fixed_gas_resistance v))\<rparr>"

definition bme680_get_results_float :: "('f, 'd) floating \<Rightarrow> bus \<Rightarrow> bool \<Rightarrow> 'f bme680_values_float option \<Rightarrow> bme_state
    \<Rightarrow> (int \<times> 'f bme680_values_float option \<times> bme_state) option" where
  "bme680_get_results_float F B dev results s =
     CHECK_ARG (dev \<and> results \<noteq> None) (\<lambda>e s. Some (e, results, s)) (\<lambda>s. do {
       (e, fixed, s) \<leftarrow> bme680_get_results_fixed F B dev (Some invalid_values) s;
       Some (if e \<noteq> ESP_OK then (e, results, s) else (ESP_OK, map_option (to_float F) fixed, s)) }) s"

text \<open>A whole measurement: start it, wait for its duration, get the results.\<close>

definition bme680_measure_fixed :: "('f, 'd) floating \<Rightarrow> bus \<Rightarrow> bool \<Rightarrow> bme680_values_fixed option \<Rightarrow> bme_state
    \<Rightarrow> (int \<times> bme680_values_fixed option \<times> bme_state) option" where
  "bme680_measure_fixed F B dev results s =
     CHECK_ARG (dev \<and> results \<noteq> None) (\<lambda>e s. Some (e, results, s)) (\<lambda>s.
       case bme680_get_measurement_duration dev True s of
         (e, None) \<Rightarrow> Some (e, results, s)
       | (e, Some duration) \<Rightarrow>
           if duration = 0 then Some (ESP_FAIL, results, s)
           else CHECK (\<lambda>e s. Some (e, results, s)) (bme680_force_measurement B dev s) (\<lambda>s.
             bme680_get_results_fixed F B dev results (bus_act B (Task_Delay duration) s))) s"

definition bme680_measure_float :: "('f, 'd) floating \<Rightarrow> bus \<Rightarrow> bool \<Rightarrow> 'f bme680_values_float option \<Rightarrow> bme_state
    \<Rightarrow> (int \<times> 'f bme680_values_float option \<times> bme_state) option" where
  "bme680_measure_float F B dev results s =
     CHECK_ARG (dev \<and> results \<noteq> None) (\<lambda>e s. Some (e, results, s)) (\<lambda>s.
       case bme680_get_measurement_duration dev True s of
         (e, None) \<Rightarrow> Some (e, results, s)
       | (e, Some duration) \<Rightarrow>
           if duration = 0 then Some (ESP_FAIL, results, s)
           else CHECK (\<lambda>e s. Some (e, results, s)) (bme680_force_measurement B dev s) (\<lambda>s.
             bme680_get_results_float F B dev results (bus_act B (Task_Delay duration) s))) s"

section \<open>What every call keeps\<close>

text \<open>
  The contract between the driver and the I2C layer: an invariant of the state that knows whether the
  device's mutex is held, that taking and giving the mutex change as they report, and that no transfer
  breaks.  Inside it each macro gets one rule; \<open>ends\<close> says what holds when an operation returns.
\<close>

definition ends :: "('r \<Rightarrow> bme_state) \<Rightarrow> (bme_state \<Rightarrow> bool) \<Rightarrow> 'r option \<Rightarrow> bool" where
  "ends st Q r \<longleftrightarrow> (case r of None \<Rightarrow> True | Some x \<Rightarrow> Q (st x))"

lemma ends_Some [simp]: "ends st Q (Some x) = Q (st x)"
  by (simp add: ends_def)

lemma ends_None [simp]: "ends st Q None"
  by (simp add: ends_def)

lemma ends_bind: "(\<And>x. r = Some x \<Longrightarrow> ends st Q (k x)) \<Longrightarrow> ends st Q (r \<bind> k)"
  by (cases r) auto

lemma endsD: "ends st Q r \<Longrightarrow> r = Some x \<Longrightarrow> Q (st x)"
  by simp

locale driver_contract =
  fixes B :: bus
    and inv :: "bool \<Rightarrow> bme_state \<Rightarrow> bool"
  assumes take: "inv False s \<Longrightarrow> i2c_dev_take_mutex B (the_dev s) s = Some (e, s') \<Longrightarrow> inv (e = ESP_OK) s'"
    and give: "inv True s \<Longrightarrow> i2c_dev_give_mutex B (the_dev s) s = Some (e, s') \<Longrightarrow> inv False s'"
    and read: "inv h s \<Longrightarrow> i2c_dev_read_reg B (the_dev s) reg b s = Some (e, b', s') \<Longrightarrow> inv h s'"
    and writes: "inv h s \<Longrightarrow> i2c_dev_write_reg B (the_dev s) reg out s = Some (e, s') \<Longrightarrow> inv h s'"
begin

lemma TAKE_rule:
  assumes "inv False s" "\<And>s. inv True s \<Longrightarrow> ends st Q (k s)" "\<And>e s. inv False s \<Longrightarrow> ends st Q (ret e s)"
  shows "ends st Q (I2C_DEV_TAKE_MUTEX ret B k s)"
  unfolding I2C_DEV_TAKE_MUTEX_def CHECK_def using take [OF assms(1)]
  by (auto intro!: ends_bind assms(2,3))

lemma GIVE_rule:
  assumes "inv True s" "\<And>s. inv False s \<Longrightarrow> ends st Q (k s)" "\<And>e s. inv False s \<Longrightarrow> ends st Q (ret e s)"
  shows "ends st Q (I2C_DEV_GIVE_MUTEX ret B k s)"
  unfolding I2C_DEV_GIVE_MUTEX_def CHECK_def using give [OF assms(1)]
  by (auto intro!: ends_bind assms(2,3))

lemma CHECK_rule:
  assumes "\<And>e s. r = Some (e, s) \<Longrightarrow> inv True s" "\<And>s. inv True s \<Longrightarrow> ends st Q (k s)"
    and "\<And>e s. inv False s \<Longrightarrow> ends st Q (ret e s)"
  shows "ends st Q (I2C_DEV_CHECK ret B r k)"
  unfolding I2C_DEV_CHECK_def using assms(1)
  by (auto intro!: ends_bind GIVE_rule assms(2,3))

lemma CHECK_READ_rule:
  assumes "\<And>e b s. r = Some (e, b, s) \<Longrightarrow> inv True s" "\<And>b s. inv True s \<Longrightarrow> ends st Q (k b s)"
    and "\<And>b e s. inv False s \<Longrightarrow> ends st Q (ret b e s)"
  shows "ends st Q (I2C_DEV_CHECK_READ ret B r k)"
  unfolding I2C_DEV_CHECK_READ_def using assms(1)
  by (auto intro!: ends_bind CHECK_rule assms(2,3))

lemma write_8: "inv h s \<Longrightarrow> write_reg_8_nolock B reg x s = Some (e, s') \<Longrightarrow> inv h s'"
  unfolding write_reg_8_nolock_def by (rule writes)

lemma read_8: "inv h s \<Longrightarrow> read_reg_8_nolock B reg x s = Some (e, b, s') \<Longrightarrow> inv h s'"
  unfolding read_reg_8_nolock_def by (auto intro: read)

lemma burst: "inv h s \<Longrightarrow> read_burst B reg n s = Some (e, b, s') \<Longrightarrow> inv h s'"
  unfolding read_burst_def by (rule read)

lemma CHECK_write_rule:
  assumes "inv True s" "\<And>s. inv True s \<Longrightarrow> ends st Q (k s)" "\<And>e s. inv False s \<Longrightarrow> ends st Q (ret e s)"
  shows "ends st Q (I2C_DEV_CHECK ret B (write_reg_8_nolock B reg x s) k)"
  using assms by (auto intro!: CHECK_rule dest: write_8 [OF assms(1)])

lemma CHECK_read_8_rule:
  assumes "inv True s" "\<And>b s. inv True s \<Longrightarrow> ends st Q (k b s)" "\<And>b e s. inv False s \<Longrightarrow> ends st Q (ret b e s)"
  shows "ends st Q (I2C_DEV_CHECK_READ ret B (read_reg_8_nolock B reg x s) k)"
  using assms by (auto intro!: CHECK_READ_rule dest: read_8 [OF assms(1)])

lemma CHECK_burst_rule:
  assumes "inv True s" "\<And>b s. inv True s \<Longrightarrow> ends st Q (k b s)" "\<And>b e s. inv False s \<Longrightarrow> ends st Q (ret b e s)"
  shows "ends st Q (I2C_DEV_CHECK_READ ret B (read_burst B reg n s) k)"
  using assms by (auto intro!: CHECK_READ_rule dest: burst [OF assms(1)])

lemma modify_rule:
  assumes "inv True s" "\<And>s. inv True s \<Longrightarrow> ends snd Q (k s)" "\<And>s. inv False s \<Longrightarrow> Q s"
  shows "ends snd Q (modify_reg B reg f k s)"
  unfolding modify_reg_def
  using assms by (auto intro!: CHECK_read_8_rule CHECK_write_rule)

lemma give_ok: "inv True s \<Longrightarrow> (\<And>s. inv False s \<Longrightarrow> Q s) \<Longrightarrow> ends snd Q (I2C_DEV_GIVE_MUTEX ret_e B (ret_e c) s)"
  by (rule GIVE_rule) simp_all

lemma read_reg_8_ends: "inv False s \<Longrightarrow> ends (snd \<circ> snd) (inv False) (read_reg_8 B reg x s)"
  unfolding read_reg_8_def by (auto intro!: TAKE_rule CHECK_read_8_rule GIVE_rule)

lemma read_reg_8_inv: "read_reg_8 B reg x s = Some (e, b, s') \<Longrightarrow> inv False s \<Longrightarrow> inv False s'"
  using endsD [OF read_reg_8_ends] by fastforce

lemma mode_ends: "inv False s \<Longrightarrow> ends snd (inv False) (bme680_set_mode B mode s)"
  unfolding bme680_set_mode_def by (intro TAKE_rule modify_rule give_ok) simp_all

end

text \<open>An invariant that does not look at the sensor's descriptor survives every function of the driver.\<close>

locale sensor_blind = driver_contract +
  assumes sensor: "inv h s \<Longrightarrow> inv h (s\<lparr>sensor := d\<rparr>)"
    and delay: "inv h s \<Longrightarrow> inv h (bus_act B (Task_Delay n) s)"
begin

lemma set_sensor_inv: "inv h s \<Longrightarrow> inv h (set_sensor f s)"
  unfolding set_sensor_def by (rule sensor)

lemma set_settings_inv: "inv h s \<Longrightarrow> inv h (set_settings f s)"
  unfolding set_settings_def by (rule set_sensor_inv)

lemma oversampling_ends: "inv False s \<Longrightarrow> ends snd (inv False) (bme680_set_oversampling_rates B dev t p h s)"
  unfolding bme680_set_oversampling_rates_def CHECK_ARG_def Let_def
  by (auto intro!: TAKE_rule modify_rule give_ok set_settings_inv)

lemma filter_ends: "inv False s \<Longrightarrow> ends snd (inv False) (bme680_set_filter_size B dev n s)"
  unfolding bme680_set_filter_size_def CHECK_ARG_def
  by (auto intro!: TAKE_rule modify_rule give_ok set_settings_inv)

lemma heater_ends: "inv False s \<Longrightarrow> ends snd (inv False) (bme680_set_heater_profile F B dev p t d s)"
  unfolding bme680_set_heater_profile_def CHECK_ARG_def Let_def
  by (auto intro!: TAKE_rule CHECK_write_rule give_ok set_settings_inv)

lemma use_heater_ends: "inv False s \<Longrightarrow> ends snd (inv False) (bme680_use_heater_profile B dev p s)"
  unfolding bme680_use_heater_profile_def CHECK_ARG_def Let_def
  by (auto intro!: TAKE_rule CHECK_write_rule give_ok set_settings_inv)

lemma ambient_ends: "inv False s \<Longrightarrow> ends snd (inv False) (bme680_set_ambient_temperature F B dev a s)"
  unfolding bme680_set_ambient_temperature_def CHECK_ARG_def Let_def
  by (auto intro!: TAKE_rule CHECK_rule give_ok set_settings_inv elim: writes [rotated])

lemma CHECK_ends:
  "ends snd (inv False) r \<Longrightarrow> (\<And>s. inv False s \<Longrightarrow> ends st Q (k s)) \<Longrightarrow> (\<And>e s. inv False s \<Longrightarrow> ends st Q (ret e s))
   \<Longrightarrow> ends st Q (CHECK ret r k)"
  unfolding CHECK_def by (auto intro!: ends_bind)

lemma force_ends: "inv False s \<Longrightarrow> ends snd (inv False) (bme680_force_measurement B dev s)"
  unfolding bme680_force_measurement_def CHECK_ARG_def
  by (auto intro!: CHECK_ends mode_ends set_sensor_inv)

lemma calibration_ends:
  "inv True s \<Longrightarrow> (\<And>s. inv True s \<Longrightarrow> ends snd (inv False) (k s)) \<Longrightarrow> ends snd (inv False) (load_calibration B k s)"
  unfolding load_calibration_def by (auto intro!: CHECK_burst_rule set_sensor_inv)

lemma init_ends: "inv False s \<Longrightarrow> ends snd (inv False) (bme680_init_sensor F B dev s)"
  unfolding bme680_init_sensor_def CHECK_ARG_def Let_def
  by (auto intro!: TAKE_rule CHECK_write_rule CHECK_read_8_rule GIVE_rule give_ok calibration_ends CHECK_ends set_sensor_inv
      set_settings_inv delay oversampling_ends filter_ends heater_ends use_heater_ends)

lemma new_data_ends: "inv False s \<Longrightarrow> ends snd (inv False) (new_data B s)"
  unfolding new_data_def Let_def
  by (auto intro!: ends_bind set_sensor_inv elim: read_reg_8_inv)

lemma raw_data_ends: "inv False s \<Longrightarrow> ends (snd \<circ> snd) (inv False) (bme680_get_raw_data B s)"
  unfolding bme680_get_raw_data_def Let_def
  by (auto intro!: CHECK_ends new_data_ends TAKE_rule CHECK_burst_rule GIVE_rule set_sensor_inv)

lemma raw_data_inv: "bme680_get_raw_data B s = Some (e, r, s') \<Longrightarrow> inv False s \<Longrightarrow> inv False s'"
  using endsD [OF raw_data_ends] by fastforce

lemma results_ends: "inv False s \<Longrightarrow> ends (snd \<circ> snd) (inv False) (bme680_get_results_fixed F B dev v s)"
  unfolding bme680_get_results_fixed_def CHECK_ARG_def
  by (auto intro!: ends_bind sensor dest!: raw_data_inv split: option.split)

lemma results_inv: "bme680_get_results_fixed F B dev v s = Some (e, r, s') \<Longrightarrow> inv False s \<Longrightarrow> inv False s'"
  using endsD [OF results_ends] by fastforce

lemma results_float_ends: "inv False s \<Longrightarrow> ends (snd \<circ> snd) (inv False) (bme680_get_results_float F B dev v s)"
  unfolding bme680_get_results_float_def CHECK_ARG_def
  by (auto intro!: ends_bind elim: results_inv)

lemma measure_ends: "inv False s \<Longrightarrow> ends (snd \<circ> snd) (inv False) (bme680_measure_fixed F B dev v s)"
  unfolding bme680_measure_fixed_def CHECK_ARG_def
  by (auto intro!: CHECK_ends force_ends results_ends delay split: prod.split option.split)

lemma measure_float_ends: "inv False s \<Longrightarrow> ends (snd \<circ> snd) (inv False) (bme680_measure_float F B dev v s)"
  unfolding bme680_measure_float_def CHECK_ARG_def
  by (auto intro!: CHECK_ends force_ends results_float_ends delay split: prod.split option.split)

lemma measuring_ends: "inv False s \<Longrightarrow> ends (snd \<circ> snd) (inv False) (bme680_is_measuring B dev b s)"
  unfolding bme680_is_measuring_def CHECK_ARG_def Let_def
  by (auto intro!: ends_bind set_sensor_inv elim: read_reg_8_inv)

end

section \<open>Interpretations\<close>

text \<open>How often the mutexes are held.\<close>

lemma dev_sem:
  "i2c_dev_take_mutex B (Some d) s = Some (e, s') \<Longrightarrow> \<exists>ok. sem B Take_Dev s = (ok, s') \<and> (ok \<longleftrightarrow> e = ESP_OK)"
  "i2c_dev_give_mutex B (Some d) s = Some (e, s') \<Longrightarrow> \<exists>ok. sem B Give_Dev s = (ok, s')"
  by (auto simp: i2c_dev_take_mutex_def i2c_dev_give_mutex_def sem_def bus_do_conv split: if_splits)

lemma held_taken: "i2c_dev_take_mutex B (Some d) s = Some (e, s') \<Longrightarrow> dev_held B s' = dev_held B s + (if e = ESP_OK then 1 else 0)"
  using dev_mutex.taken dev_sem(1) by metis

lemma held_given: "i2c_dev_give_mutex B (Some d) s = Some (e, s') \<Longrightarrow> dev_held B s' = dev_held B s - 1"
  using dev_mutex.given dev_sem(2) by metis

lemma ports_take_give:
  "i2c_dev_take_mutex B (Some d) s = Some (e, s') \<Longrightarrow> port_held B p s' = port_held B p s"
  "i2c_dev_give_mutex B (Some d) s = Some (e, s') \<Longrightarrow> port_held B p s' = port_held B p s"
  by (auto simp: i2c_dev_take_mutex_def i2c_dev_give_mutex_def bus_do_conv split: if_splits)

definition holding :: "bus \<Rightarrow> int \<Rightarrow> (nat \<Rightarrow> int) \<Rightarrow> bool \<Rightarrow> bme_state \<Rightarrow> bool" where
  "holding B n np h s \<longleftrightarrow> dev_held B s = n + (if h then 1 else 0) \<and> (\<forall>p. port_held B p s = np p)"

lemma holding_balanced: "balanced B s s' \<Longrightarrow> holding B n np h s \<Longrightarrow> holding B n np h s'"
  by (simp add: holding_def balanced_def)

interpretation mutexes: sensor_blind B "holding B n np"
proof unfold_locales
  show "holding B n np False s \<Longrightarrow> i2c_dev_take_mutex B (the_dev s) s = Some (e, s') \<Longrightarrow> holding B n np (e = ESP_OK) s'" for s e s'
    using held_taken [of B _ s e s'] ports_take_give(1) [of B _ s e s'] by (simp add: holding_def)
  show "holding B n np True s \<Longrightarrow> i2c_dev_give_mutex B (the_dev s) s = Some (e, s') \<Longrightarrow> holding B n np False s'" for s e s'
    using held_given [of B _ s e s'] ports_take_give(2) [of B _ s e s'] by (simp add: holding_def)
  show "holding B n np h s \<Longrightarrow> i2c_dev_read_reg B (the_dev s) reg b s = Some (e, b', s') \<Longrightarrow> holding B n np h s'" for h s reg b e b' s'
    unfolding i2c_dev_read_reg_def using holding_balanced balanced_read by blast
  show "holding B n np h s \<Longrightarrow> i2c_dev_write_reg B (the_dev s) reg out s = Some (e, s') \<Longrightarrow> holding B n np h s'" for h s reg out e s'
    unfolding i2c_dev_write_reg_def using holding_balanced balanced_write by blast
  show "holding B n np h s \<Longrightarrow> holding B n np h (s\<lparr>sensor := d\<rparr>)" for h s d by (simp add: holding_def)
  show "holding B n np h s \<Longrightarrow> holding B n np h (bus_act B (Task_Delay m) s)" for h s m by (simp add: holding_def)
qed

text \<open>The descriptor of the sensor, which no call to the bus changes.\<close>

lemma more_sensor: "i2c_state.more s' = i2c_state.more s \<Longrightarrow> sensor s' = sensor s"
  by (cases s; cases s') simp

lemma balanced_sensor: "balanced B s s' \<Longrightarrow> sensor s' = sensor s"
  unfolding balanced_def by (blast intro: more_sensor)

interpretation descriptor: driver_contract B "\<lambda>h s. sensor s = d"
proof unfold_locales
  show "sensor s = d \<Longrightarrow> i2c_dev_take_mutex B (the_dev s) s = Some (e, s') \<Longrightarrow> sensor s' = d" for s e s'
    by (auto simp: i2c_dev_take_mutex_def bus_do_def split: if_splits)
  show "sensor s = d \<Longrightarrow> i2c_dev_give_mutex B (the_dev s) s = Some (e, s') \<Longrightarrow> sensor s' = d" for s e s'
    by (auto simp: i2c_dev_give_mutex_def bus_do_def split: if_splits)
  show "sensor s = d \<Longrightarrow> i2c_dev_read_reg B (the_dev s) reg b s = Some (e, b', s') \<Longrightarrow> sensor s' = d" for s reg b e b' s'
    unfolding i2c_dev_read_reg_def using balanced_sensor balanced_read by blast
  show "sensor s = d \<Longrightarrow> i2c_dev_write_reg B (the_dev s) reg out s = Some (e, s') \<Longrightarrow> sensor s' = d" for s reg out e s'
    unfolding i2c_dev_write_reg_def using balanced_sensor balanced_write by blast
qed

section \<open>Properties\<close>

text \<open>The calls an application makes, in any order.\<close>

datatype bme_command = Set_Oversampling nat nat nat | Set_Filter nat | Set_Heater u8 u16 u16 | Use_Heater i8
  | Set_Ambient i16 | Init_Sensor | Force_Measurement | Is_Measuring | Get_Results | Measure

fun bme_run :: "('f, 'd) floating \<Rightarrow> bus \<Rightarrow> bme_command \<Rightarrow> bme_state \<Rightarrow> bme_result" where
  "bme_run F B (Set_Oversampling t p h) s = bme680_set_oversampling_rates B True t p h s"
| "bme_run F B (Set_Filter n) s = bme680_set_filter_size B True n s"
| "bme_run F B (Set_Heater p t d) s = bme680_set_heater_profile F B True p t d s"
| "bme_run F B (Use_Heater p) s = bme680_use_heater_profile B True p s"
| "bme_run F B (Set_Ambient a) s = bme680_set_ambient_temperature F B True a s"
| "bme_run F B Init_Sensor s = bme680_init_sensor F B True s"
| "bme_run F B Force_Measurement s = bme680_force_measurement B True s"
| "bme_run F B Is_Measuring s = map_option (\<lambda>(e, b, s). (e, s)) (bme680_is_measuring B True (Some False) s)"
| "bme_run F B Get_Results s = map_option (\<lambda>(e, v, s). (e, s)) (bme680_get_results_fixed F B True (Some invalid_values) s)"
| "bme_run F B Measure s = map_option (\<lambda>(e, v, s). (e, s)) (bme680_measure_fixed F B True (Some invalid_values) s)"

fun bme_runs :: "('f, 'd) floating \<Rightarrow> bus \<Rightarrow> bme_command list \<Rightarrow> bme_state \<Rightarrow> bme_state option" where
  "bme_runs F B [] s = Some s"
| "bme_runs F B (c # cs) s = do { (e, s) \<leftarrow> bme_run F B c s; bme_runs F B cs s }"

lemma ends_map: "ends (snd \<circ> snd) Q r \<Longrightarrow> ends snd Q (map_option (\<lambda>(e, b, s). (e, s)) r)"
  by (cases r) auto

lemma run_holding: "holding B n np False s \<Longrightarrow> ends snd (holding B n np False) (bme_run F B c s)"
  by (cases c)
    (simp_all add: mutexes.oversampling_ends mutexes.filter_ends mutexes.heater_ends mutexes.use_heater_ends
      mutexes.ambient_ends mutexes.init_ends mutexes.force_ends ends_map mutexes.measuring_ends mutexes.results_ends
      mutexes.measure_ends)

lemma runs_holding: "bme_runs F B cs s = Some s' \<Longrightarrow> holding B n np False s \<Longrightarrow> holding B n np False s'"
proof (induction cs arbitrary: s)
  case (Cons c cs)
  then obtain e s1 where 1: "bme_run F B c s = Some (e, s1)" and 2: "bme_runs F B cs s1 = Some s'" by auto
  from endsD [OF run_holding [OF Cons.prems(2)] 1] have "holding B n np False s1" by simp
  with Cons.IH [OF 2] show ?case by blast
qed simp

text \<open>
  C6: No sequence of driver calls keeps a mutex: whatever the bus and the semaphores answered, on every
  error path the sensor's mutex and the mutexes of the ports are held as often as before.
\<close>

theorem driver_gives_mutexes_back:
  assumes "bme_runs F B cs s = Some s'"
  shows "dev_held B s' = dev_held B s \<and> port_held B p s' = port_held B p s"
  using runs_holding [OF assms, of "dev_held B s" "\<lambda>p. port_held B p s"] by (simp add: holding_def)

definition bench_sensor :: bme680 where
  "bench_sensor = \<lparr>i2c_device = bench_dev, meas_started = False, meas_status = 0,
     settings = \<lparr>osr_temperature = 1, osr_pressure = 1, osr_humidity = 1, filter_size = 2, heater_profile = 0,
       heater_temperature = replicate 10 320, heater_duration = replicate 10 150, ambient_temperature = 25\<rparr>,
     calib_data = zero_calib\<rparr>"

text \<open>A bench whose bus answers as given: every status byte, and the error of each transfer.\<close>

definition bench_with :: "int \<Rightarrow> u8 list \<Rightarrow> bus" where
  "bench_with e b = \<lparr>ask = \<lambda>l c. \<lparr>b_err = (case c of Cmd_Begin _ _ \<Rightarrow> e | _ \<Rightarrow> 0), b_ok = True, b_value = 7, b_data = b\<rparr>,
     I2CDEV_MAX_STRETCH_TIME = 7\<rparr>"

definition bench_bme :: bme_state where
  "bench_bme = \<lparr>trace = [], states = [\<lparr>lock = True, config = cfg bench_dev, installed = True\<rparr>], sensor = bench_sensor\<rparr>"

text \<open>Exact arithmetic in place of the rounded one.\<close>

definition bench_floats :: "(rat, rat) floating" where
  "bench_floats = \<lparr>lit = id, of_i = of_int, d_add = (+), d_sub = (-), d_mul = (*), d_div = (/),
     d_to_u32 = (\<lambda>x. word_of_int (floor x)), d_to_u8 = (\<lambda>x. word_of_int (floor x)),
     widen = id, narrow = id, f_lit = id, f_of_i = of_int, f_mul = (*), f_div = (/)\<rparr>"

lemmas bench_bme_defs = bench_with_def bench_bme_def bench_sensor_def bench_dev_def zero_i2c_config_def

lemmas macro_defs = CHECK_ARG_def CHECK_def I2C_DEV_TAKE_MUTEX_def I2C_DEV_GIVE_MUTEX_def I2C_DEV_CHECK_def
  I2C_DEV_CHECK_READ_def modify_reg_def read_reg_8_nolock_def write_reg_8_nolock_def i2c_dev_take_mutex_def
  i2c_dev_give_mutex_def set_settings_def set_sensor_def

theorem driver_gives_mutexes_back_witness:
  "\<exists>s'. bme_runs bench_floats (bench_with 5 []) [Set_Filter 3, Force_Measurement] bench_bme = Some s'
    \<and> dev_held (bench_with 5 []) s' = 0"
proof -
  obtain s' where r: "bme_runs bench_floats (bench_with 5 []) [Set_Filter 3, Force_Measurement] bench_bme = Some s'"
    by (simp add: bme680_set_filter_size_def bme680_force_measurement_def bme680_set_mode_def macro_defs transfer_defs
        bench_bme_defs Let_def)
  from driver_gives_mutexes_back [OF r] have "dev_held (bench_with 5 []) s' = 0" by (simp add: bench_bme_def)
  with r show ?thesis by blast
qed

text \<open>What a setting command leaves in the descriptor, on every path.\<close>

fun stored :: "bme_command \<Rightarrow> bme680_settings \<Rightarrow> bool" where
  "stored (Set_Oversampling t p h) st \<longleftrightarrow> osr_temperature st = t \<and> osr_pressure st = p \<and> osr_humidity st = h"
| "stored (Set_Filter n) st \<longleftrightarrow> filter_size st = n"
| "stored (Set_Heater p t d) st \<longleftrightarrow> heater_temperature st ! unat p = t \<and> heater_duration st ! unat p = d"
| "stored (Use_Heater p) st \<longleftrightarrow> heater_profile st = p"
| "stored (Set_Ambient a) st \<longleftrightarrow> sint (ambient_temperature st) = sint a"
| "stored _ st \<longleftrightarrow> False"

fun setting_ok :: "bme_command \<Rightarrow> bool" where
  "setting_ok (Set_Heater p t d) \<longleftrightarrow> unat p < BME680_HEATER_PROFILES"
| "setting_ok (Use_Heater p) \<longleftrightarrow> -1 \<le> sint p \<and> sint p < int BME680_HEATER_PROFILES"
| "setting_ok (Set_Ambient a) \<longleftrightarrow> -128 \<le> sint a \<and> sint a < 128"
| "setting_ok (Set_Oversampling t p h) \<longleftrightarrow> True"
| "setting_ok (Set_Filter n) \<longleftrightarrow> True"
| "setting_ok _ \<longleftrightarrow> False"

lemma ends_sensor:
  "ends snd (\<lambda>s'. sensor s' = d) r \<Longrightarrow> P d \<Longrightarrow> ends snd (\<lambda>s'. P (sensor s')) r"
  by (auto simp: ends_def split: option.splits)

lemma sint_narrow: "-128 \<le> sint (a :: i16) \<Longrightarrow> sint a < 128 \<Longrightarrow> sint (ucast a :: i8) = sint a"
proof -
  assume a: "-128 \<le> sint a" "sint a < 128"
  have "(ucast a :: i8) = word_of_int (sint a)" by transfer (simp add: take_bit_signed_take_bit)
  then have "sint (ucast a :: i8) = signed_take_bit (LENGTH(8) - 1) (sint a)" by (simp only: sint_sbintrunc')
  with a show ?thesis by (simp add: signed_take_bit_int_eq_self)
qed

lemma stored_oversampling: "ends snd (\<lambda>s'. stored (Set_Oversampling t p h) (settings (sensor s'))) (bme680_set_oversampling_rates B True t p h s)"
proof (cases "stored (Set_Oversampling t p h) (settings (sensor s))")
  case True
  then show ?thesis by (simp add: bme680_set_oversampling_rates_def CHECK_ARG_def Let_def)
next
  case False
  let ?s = "set_settings (\<lambda>st. st\<lparr>osr_temperature := t, osr_pressure := p, osr_humidity := h\<rparr>) s"
  have "ends snd (\<lambda>s'. sensor s' = sensor ?s) (bme680_set_oversampling_rates B True t p h s)"
    using False unfolding bme680_set_oversampling_rates_def CHECK_ARG_def Let_def
    by (auto intro!: descriptor.TAKE_rule [where d = "sensor ?s"] descriptor.modify_rule [where d = "sensor ?s"]
        descriptor.give_ok [where d = "sensor ?s"])
  then show ?thesis by (rule ends_sensor) (simp add: set_settings_def set_sensor_def)
qed

lemma stored_filter: "ends snd (\<lambda>s'. stored (Set_Filter n) (settings (sensor s'))) (bme680_set_filter_size B True n s)"
proof (cases "stored (Set_Filter n) (settings (sensor s))")
  case True
  then show ?thesis by (simp add: bme680_set_filter_size_def CHECK_ARG_def)
next
  case False
  let ?s = "set_settings (\<lambda>st. st\<lparr>filter_size := n\<rparr>) s"
  have "ends snd (\<lambda>s'. sensor s' = sensor ?s) (bme680_set_filter_size B True n s)"
    using False unfolding bme680_set_filter_size_def CHECK_ARG_def Let_def
    by (auto intro!: descriptor.TAKE_rule [where d = "sensor ?s"] descriptor.modify_rule [where d = "sensor ?s"]
        descriptor.give_ok [where d = "sensor ?s"])
  then show ?thesis by (rule ends_sensor) (simp add: set_settings_def set_sensor_def)
qed

lemma stored_heater:
  assumes "unat p < BME680_HEATER_PROFILES" "length (heater_temperature (settings (sensor s))) = 10"
    "length (heater_duration (settings (sensor s))) = 10"
  shows "ends snd (\<lambda>s'. stored (Set_Heater p t d) (settings (sensor s'))) (bme680_set_heater_profile F B True p t d s)"
proof (cases "stored (Set_Heater p t d) (settings (sensor s))")
  case True
  then show ?thesis using assms(1) by (simp add: bme680_set_heater_profile_def CHECK_ARG_def)
next
  case False
  let ?s = "set_settings (\<lambda>st. st\<lparr>heater_temperature := (heater_temperature st)[unat p := t],
                                  heater_duration := (heater_duration st)[unat p := d]\<rparr>) s"
  have "ends snd (\<lambda>s'. sensor s' = sensor ?s) (bme680_set_heater_profile F B True p t d s)"
    using False assms(1) unfolding bme680_set_heater_profile_def CHECK_ARG_def Let_def
    by (auto intro!: descriptor.TAKE_rule [where d = "sensor ?s"] descriptor.CHECK_write_rule [where d = "sensor ?s"]
        descriptor.give_ok [where d = "sensor ?s"])
  then show ?thesis
    by (rule ends_sensor) (use assms in \<open>simp add: set_settings_def set_sensor_def BME680_HEATER_PROFILES_def\<close>)
qed

lemma stored_use_heater:
  assumes "-1 \<le> sint p" "sint p < int BME680_HEATER_PROFILES"
  shows "ends snd (\<lambda>s'. stored (Use_Heater p) (settings (sensor s'))) (bme680_use_heater_profile B True p s)"
proof (cases "stored (Use_Heater p) (settings (sensor s))")
  case True
  then show ?thesis using assms by (simp add: bme680_use_heater_profile_def CHECK_ARG_def)
next
  case False
  let ?s = "set_settings (\<lambda>st. st\<lparr>heater_profile := p\<rparr>) s"
  have "ends snd (\<lambda>s'. sensor s' = sensor ?s) (bme680_use_heater_profile B True p s)"
    using False assms unfolding bme680_use_heater_profile_def CHECK_ARG_def Let_def
    by (auto intro!: descriptor.TAKE_rule [where d = "sensor ?s"] descriptor.CHECK_write_rule [where d = "sensor ?s"]
        descriptor.give_ok [where d = "sensor ?s"])
  then show ?thesis by (rule ends_sensor) (simp add: set_settings_def set_sensor_def)
qed

lemma stored_ambient:
  assumes "-128 \<le> sint a" "sint a < 128"
  shows "ends snd (\<lambda>s'. stored (Set_Ambient a) (settings (sensor s'))) (bme680_set_ambient_temperature F B True a s)"
proof (cases "stored (Set_Ambient a) (settings (sensor s))")
  case True
  then show ?thesis by (simp add: bme680_set_ambient_temperature_def CHECK_ARG_def)
next
  case False
  let ?s = "set_settings (\<lambda>st. st\<lparr>ambient_temperature := ucast a\<rparr>) s"
  have "ends snd (\<lambda>s'. sensor s' = sensor ?s) (bme680_set_ambient_temperature F B True a s)"
    using False unfolding bme680_set_ambient_temperature_def CHECK_ARG_def Let_def
    by (auto intro!: descriptor.TAKE_rule [where d = "sensor ?s"] descriptor.CHECK_rule [where d = "sensor ?s"]
        descriptor.give_ok [where d = "sensor ?s"] elim: descriptor.writes [rotated])
  then show ?thesis
    by (rule ends_sensor) (use sint_narrow [OF assms] in \<open>simp add: set_settings_def set_sensor_def\<close>)
qed

lemma stored_run:
  assumes "setting_ok c" "length (heater_temperature (settings (sensor s))) = 10" "length (heater_duration (settings (sensor s))) = 10"
  shows "ends snd (\<lambda>s'. stored c (settings (sensor s'))) (bme_run F B c s)"
  using assms
  by (cases c) (simp_all add: stored_oversampling stored_filter stored_heater stored_use_heater stored_ambient del: stored.simps)

lemma stored_again: "setting_ok c \<Longrightarrow> stored c (settings (sensor s)) \<Longrightarrow> bme_run F B c s = Some (ESP_OK, s)"
  by (cases c)
    (simp_all add: bme680_set_oversampling_rates_def bme680_set_filter_size_def bme680_set_heater_profile_def
      bme680_use_heater_profile_def bme680_set_ambient_temperature_def CHECK_ARG_def)

text \<open>
  C8: A failed setting cannot be repeated.  Each setting function stores the new value in the descriptor before it
  writes the sensor's registers; after an error on the bus the same call finds nothing to change,
  reports success and sends nothing.
\<close>

theorem failed_setting_not_repeated:
  assumes "setting_ok c" "length (heater_temperature (settings (sensor s))) = 10" "length (heater_duration (settings (sensor s))) = 10"
    and "bme_run F B c s = Some (e, s')"
  shows "bme_run F B c s' = Some (ESP_OK, s')"
  using endsD [OF stored_run [OF assms(1-3)] assms(4)] by (simp add: stored_again [OF assms(1)])

theorem failed_setting_not_repeated_witness:
  "\<exists>s'. bme_run bench_floats (bench_with 5 []) (Set_Filter 3) bench_bme = Some (5, s')
     \<and> bme_run bench_floats (bench_with 5 []) (Set_Filter 3) s' = Some (ESP_OK, s')"
proof -
  obtain s' where r: "bme_run bench_floats (bench_with 5 []) (Set_Filter 3) bench_bme = Some (5, s')"
    by (simp add: bme680_set_filter_size_def macro_defs transfer_defs bench_bme_defs Let_def)
  from failed_setting_not_repeated [OF _ _ _ r] have "bme_run bench_floats (bench_with 5 []) (Set_Filter 3) s' = Some (ESP_OK, s')"
    by (simp add: bench_bme_def bench_sensor_def)
  with r show ?thesis by blast
qed

text \<open>The results of a measurement are there once.\<close>

lemma raw_tail:
  fixes s1 :: bme_state
  defines "s0 \<equiv> set_sensor (\<lambda>d. d\<lparr>meas_started := False\<rparr>) s1"
  shows "ends (snd \<circ> snd) (\<lambda>s. \<not> meas_started (sensor s))
      (I2C_DEV_TAKE_MUTEX (\<lambda>e s. Some (e, None, s)) B (\<lambda>s.
        I2C_DEV_CHECK_READ (\<lambda>_ e s. Some (e, None, s)) B (read_burst B reg n s) (\<lambda>raw.
        I2C_DEV_GIVE_MUTEX (\<lambda>e s. Some (e, None, s)) B
          (\<lambda>s. Some (ESP_OK, Some (decode_raw_data (meas_status (sensor s)) raw), s)))) s0)"
proof -
  have "\<not> meas_started (sensor s0)" by (simp add: s0_def set_sensor_def)
  then show ?thesis
    by (auto intro!: descriptor.TAKE_rule [where d = "sensor s0"] descriptor.CHECK_burst_rule [where d = "sensor s0"]
        descriptor.GIVE_rule [where d = "sensor s0"])
qed

lemma raw_data_once: "bme680_get_raw_data B s = Some (e, Some raw, s') \<Longrightarrow> \<not> meas_started (sensor s')"
  by (auto simp: bme680_get_raw_data_def Let_def CHECK_def dest: endsD [OF raw_tail] split: if_splits)

lemma convert_keeps_start: "convert_results F raw d = Some (v, d') \<Longrightarrow> meas_started d' = meas_started d"
  by (auto simp: convert_results_def Let_def split_beta simp del: option.inject)

lemma not_started_refused:
  "\<not> meas_started (sensor s) \<Longrightarrow>
   bme680_get_results_fixed F B True (Some v) s = Some (ESP_ERR_INVALID_STATE, Some invalid_values, s)"
  by (simp add: bme680_get_results_fixed_def bme680_get_raw_data_def CHECK_ARG_def)

lemma raw_some_or_error: "bme680_get_raw_data B s = Some (e, None, s') \<Longrightarrow> e \<noteq> ESP_OK"
  by (auto simp: bme680_get_raw_data_def Let_def CHECK_def I2C_DEV_TAKE_MUTEX_def I2C_DEV_CHECK_READ_def
      I2C_DEV_CHECK_def I2C_DEV_GIVE_MUTEX_def split: if_splits)

lemma results_started:
  assumes "bme680_get_results_fixed F B True (Some v) s = Some (ESP_OK, r, s')"
  shows "\<not> meas_started (sensor s')"
proof -
  from assms obtain e raw s1 where 1: "bme680_get_raw_data B s = Some (e, raw, s1)"
    and 2: "(case raw of None \<Rightarrow> Some (e, Some invalid_values, s1)
       | Some raw \<Rightarrow> do { (v, d) \<leftarrow> convert_results F raw (sensor s1); Some (ESP_OK, Some v, s1\<lparr>sensor := d\<rparr>) })
       = Some (ESP_OK, r, s')"
    by (auto simp: bme680_get_results_fixed_def CHECK_ARG_def simp del: option.case_eq_if)
  show ?thesis
  proof (cases raw)
    case None
    with 1 2 show ?thesis using raw_some_or_error by auto
  next
    case (Some x)
    with 2 obtain v' d where 3: "convert_results F x (sensor s1) = Some (v', d)" "s' = s1\<lparr>sensor := d\<rparr>" by auto
    with convert_keeps_start [OF 3(1)] raw_data_once 1 Some show ?thesis by simp
  qed
qed

text \<open>
  C27: A measurement is delivered once: after results were read without error every further read is
  refused, with the invalid values and without a call to the bus, until a new measurement is started.
\<close>

theorem results_delivered_once:
  assumes "bme680_get_results_fixed F B True (Some v) s = Some (ESP_OK, r, s')"
  shows "bme680_get_results_fixed F B True (Some w) s' = Some (ESP_ERR_INVALID_STATE, Some invalid_values, s')"
  using results_started [OF assms] by (rule not_started_refused)

definition measured_bme :: bme_state where
  "measured_bme = bench_bme\<lparr>sensor := bench_sensor\<lparr>meas_started := True, settings := (settings bench_sensor)
     \<lparr>osr_temperature := 0, osr_pressure := 0, osr_humidity := 0\<rparr>\<rparr>\<rparr>"

theorem results_delivered_once_witness:
  "\<exists>r s'. bme680_get_results_fixed bench_floats (bench_with 0 [0x80]) True (Some invalid_values) measured_bme = Some (ESP_OK, r, s')
     \<and> bme680_get_results_fixed bench_floats (bench_with 0 [0x80]) True (Some invalid_values) s'
       = Some (ESP_ERR_INVALID_STATE, Some invalid_values, s')"
proof -
  obtain r s' where r: "bme680_get_results_fixed bench_floats (bench_with 0 [0x80]) True (Some invalid_values) measured_bme
      = Some (ESP_OK, r, s')"
    by (simp add: bme680_get_results_fixed_def bme680_get_raw_data_def new_data_def read_reg_8_def macro_defs transfer_defs
        read_burst_def BME680_REG_RAW_DATA_LEN_def convert_results_def measured_bme_def bench_bme_defs Let_def split_beta
        decode_raw_data_def bme_get_reg_bit_def)
  from results_delivered_once [OF r] r show ?thesis by blast
qed

end
