(* ===== verification/Bme680_Chip.thy ===== *)
theory Bme680_Chip
  imports Bme680
begin

text \<open>
  The BME680 driver and the sensor behind the bus: what the descriptor takes for the settings is what the
  sensor's registers hold.  The sensor is any device that answers as \<open>sensor_on\<close> says; its registers are a function of
  the calls made so far.  A rule for each macro follows the registers along the calls that succeed.
\<close>

section \<open>Fields of a register\<close>

lemma set_field_and: "bme_set_reg_bit r f v AND f_bits f = push_bit (f_shift f) v AND f_bits f"
  by (rule bit_eqI) (auto simp: bme_set_reg_bit_def bit_simps)

lemma get_set_same: "bme_get_reg_bit (bme_set_reg_bit r f v) f = drop_bit (f_shift f) (push_bit (f_shift f) v AND f_bits f)"
  by (simp add: bme_get_reg_bit_def set_field_and)

lemma set_field_apart:
  assumes "f_bits f AND m = 0"
  shows "bme_set_reg_bit r f v AND m = r AND m"
proof -
  have "\<not> (bit (f_bits f) n \<and> bit m n)" for n
    using assms bit_and_iff [of "f_bits f" m n] by simp
  then show ?thesis by (intro bit_eqI) (auto simp: bme_set_reg_bit_def bit_simps)
qed

lemma get_set_other: "f_bits g AND f_bits f = 0 \<Longrightarrow> bme_get_reg_bit (bme_set_reg_bit r g v) f = bme_get_reg_bit r f"
  by (simp only: bme_get_reg_bit_def set_field_apart)


lemmas field_defs = BME680_OSR_T_def BME680_OSR_P_def BME680_OSR_H_def BME680_FILTER_def BME680_MODE_def BME680_NB_CONV_def
  BME680_RUN_GAS_def

section \<open>The sensor\<close>

text \<open>The registers of the settings; the sensor itself clears the mode, two bits of one of them.\<close>

definition config_regs :: "u8 set" where
  "config_regs = set ([BME680_REG_CTRL_HUM, BME680_REG_CTRL_MEAS, BME680_REG_CONFIG, BME680_REG_CTRL_GAS_1]
     @ map (\<lambda>i. BME680_REG_RES_HEAT_BASE + of_nat i) [0..<BME680_HEATER_PROFILES]
     @ map (\<lambda>i. BME680_REG_GAS_WAIT_BASE + of_nat i) [0..<BME680_HEATER_PROFILES])"



definition kept_bits :: "u8 \<Rightarrow> u8" where
  "kept_bits r = (if r = BME680_REG_CTRL_MEAS then 0xfc else 0xff)"

definition view :: "(bus_call list \<Rightarrow> u8 \<Rightarrow> u8) \<Rightarrow> bus_call list \<Rightarrow> u8 \<Rightarrow> u8" where
  "view chip l r = chip l r AND kept_bits r"

definition write_call :: "nat \<Rightarrow> u8 \<Rightarrow> u8 \<Rightarrow> u8 \<Rightarrow> bus_call" where
  "write_call p a reg v = Cmd_Begin p [Start, Write_Byte (push_bit 1 a), Write [reg], Write [v], Stop]"

definition read_call :: "nat \<Rightarrow> u8 \<Rightarrow> u8 \<Rightarrow> nat \<Rightarrow> bus_call" where
  "read_call p a reg n = Cmd_Begin p
     [Start, Write_Byte (push_bit 1 a), Write [reg], Start, Write_Byte (push_bit 1 a OR 1), Read_Last_Nack n, Stop]"


text \<open>
  What the driver relies on when it sets the ambient temperature: ten bytes written in one transfer from the first
  heater register on go to the ten heater registers, one after the other.
\<close>

definition block_call :: "nat \<Rightarrow> u8 \<Rightarrow> u8 list \<Rightarrow> bus_call" where
  "block_call p a vs = Cmd_Begin p [Start, Write_Byte (push_bit 1 a), Write [BME680_REG_RES_HEAT_BASE], Write vs, Stop]"

definition res_heat_regs :: "u8 list" where
  "res_heat_regs = map (\<lambda>i. BME680_REG_RES_HEAT_BASE + of_nat i) [0..<BME680_HEATER_PROFILES]"


text \<open>
  What the descriptor takes for the settings is what the registers hold: the oversampling rates, the filter, the
  number of the active profile and whether the heater runs at all, and for each profile the duration and, if a
  temperature is set, the resistance for it under the descriptor's calibration and ambient temperature.
\<close>

definition profile_used :: "bme680_settings \<Rightarrow> bool" where
  "profile_used st \<longleftrightarrow> sint (heater_profile st) \<noteq> BME680_HEATER_NOT_USED
     \<and> heater_temperature st ! nat (sint (heater_profile st)) \<noteq> 0 \<and> heater_duration st ! nat (sint (heater_profile st)) \<noteq> 0"

lemma profile_used_simps [simp]:
  "profile_used (st\<lparr>osr_temperature := x\<rparr>) = profile_used st" "profile_used (st\<lparr>osr_pressure := x\<rparr>) = profile_used st"
  "profile_used (st\<lparr>osr_humidity := x\<rparr>) = profile_used st" "profile_used (st\<lparr>filter_size := x\<rparr>) = profile_used st"
  "profile_used (st\<lparr>ambient_temperature := y\<rparr>) = profile_used st"
  by (simp_all add: profile_used_def)


text \<open>The part of the descriptor that matters here; a measurement changes the rest.\<close>

definition desc :: "bme680 \<Rightarrow> bme680" where
  "desc d = d\<lparr>meas_started := False, meas_status := 0, calib_data := (calib_data d)\<lparr>t_fine := 0\<rparr>\<rparr>"



lemma resistance_settings [simp]:
  "ambient_temperature st = ambient_temperature (settings d) \<Longrightarrow>
   bme680_heater_resistance F (d\<lparr>settings := st\<rparr>) t = bme680_heater_resistance F d t"
  by (simp add: bme680_heater_resistance_def Let_def)


section \<open>Calls along a transfer\<close>







section \<open>Following the registers\<close>

definition follows :: "(bus_call list \<Rightarrow> u8 \<Rightarrow> u8) \<Rightarrow> nat \<Rightarrow> u8 \<Rightarrow> bme680 \<Rightarrow> (u8 \<Rightarrow> u8) \<Rightarrow> bme_state \<Rightarrow> bool" where
  "follows chip p a d v s \<longleftrightarrow> desc (sensor s) = d \<and> port (i2c_device (sensor s)) = p \<and> addr (i2c_device (sensor s)) = a
     \<and> (\<forall>r \<in> config_regs. view chip (trace s) r = v r)"










section \<open>Calls that succeed\<close>

text \<open>\<open>okay E S Q r\<close>: if the function returns without an error, \<open>Q\<close> holds then.  An early return has an error.\<close>

definition okay :: "('r \<Rightarrow> int) \<Rightarrow> ('r \<Rightarrow> bme_state) \<Rightarrow> (bme_state \<Rightarrow> bool) \<Rightarrow> 'r option \<Rightarrow> bool" where
  "okay E S Q r \<longleftrightarrow> (\<forall>x. r = Some x \<longrightarrow> E x = ESP_OK \<longrightarrow> Q (S x))"



lemma okay_None [simp]: "okay E S Q None"
  by (simp add: okay_def)






lemma sensor_bus_act [simp]: "sensor (bus_act B c s) = sensor s"
  by (rule more_sensor) simp











section \<open>Settings\<close>



lemma gas_wait_regs:
  "\<forall>i \<in> set [0..<BME680_HEATER_PROFILES]. BME680_REG_GAS_WAIT_BASE + of_nat i \<notin>
     set [BME680_REG_CTRL_HUM, BME680_REG_CTRL_MEAS, BME680_REG_CONFIG, BME680_REG_CTRL_GAS_1]"
  "\<forall>i \<in> set [0..<BME680_HEATER_PROFILES]. \<forall>j \<in> set [0..<BME680_HEATER_PROFILES].
     (BME680_REG_GAS_WAIT_BASE + of_nat i = BME680_REG_GAS_WAIT_BASE + (of_nat j :: u8)) = (i = j)"
  by code_simp+

lemma gas_wait_distinct [simp]:
  assumes "i < BME680_HEATER_PROFILES"
  shows "BME680_REG_GAS_WAIT_BASE + of_nat i \<noteq> BME680_REG_CTRL_HUM" "BME680_REG_GAS_WAIT_BASE + of_nat i \<noteq> BME680_REG_CTRL_MEAS"
    "BME680_REG_GAS_WAIT_BASE + of_nat i \<noteq> BME680_REG_CONFIG" "BME680_REG_GAS_WAIT_BASE + of_nat i \<noteq> BME680_REG_CTRL_GAS_1"
  using gas_wait_regs(1) assms by simp_all

lemma res_heat_facts:
  "\<forall>i \<in> set [0..<BME680_HEATER_PROFILES]. BME680_REG_RES_HEAT_BASE + of_nat i \<notin>
     set [BME680_REG_CTRL_HUM, BME680_REG_CTRL_MEAS, BME680_REG_CONFIG, BME680_REG_CTRL_GAS_1, BME680_REG_RESET]"
  "\<forall>i \<in> set [0..<BME680_HEATER_PROFILES]. \<forall>j \<in> set [0..<BME680_HEATER_PROFILES].
     (BME680_REG_RES_HEAT_BASE + of_nat i = BME680_REG_RES_HEAT_BASE + (of_nat j :: u8)) = (i = j)
     \<and> BME680_REG_RES_HEAT_BASE + of_nat i \<noteq> BME680_REG_GAS_WAIT_BASE + (of_nat j :: u8)"
  "\<forall>i \<in> set [0..<BME680_HEATER_PROFILES]. unat ((BME680_REG_RES_HEAT_BASE + of_nat i) - BME680_REG_RES_HEAT_BASE) = i"
  "\<forall>r \<in> set [BME680_REG_CTRL_HUM, BME680_REG_CTRL_MEAS, BME680_REG_CONFIG, BME680_REG_CTRL_GAS_1]. r \<notin> set res_heat_regs"
  "\<forall>i \<in> set [0..<BME680_HEATER_PROFILES]. BME680_REG_GAS_WAIT_BASE + of_nat i \<notin> set res_heat_regs"
  by code_simp+

lemma res_heat_distinct [simp]:
  assumes "i < BME680_HEATER_PROFILES"
  shows "BME680_REG_RES_HEAT_BASE + of_nat i \<noteq> BME680_REG_CTRL_HUM" "BME680_REG_RES_HEAT_BASE + of_nat i \<noteq> BME680_REG_CTRL_MEAS"
    "BME680_REG_RES_HEAT_BASE + of_nat i \<noteq> BME680_REG_CONFIG" "BME680_REG_RES_HEAT_BASE + of_nat i \<noteq> BME680_REG_CTRL_GAS_1"
    "BME680_REG_RES_HEAT_BASE + of_nat i \<noteq> BME680_REG_RESET"
  using res_heat_facts(1) assms by simp_all

lemma res_heat_wait [simp]:
  assumes "i < BME680_HEATER_PROFILES" "j < BME680_HEATER_PROFILES"
  shows "BME680_REG_RES_HEAT_BASE + of_nat i \<noteq> BME680_REG_GAS_WAIT_BASE + (of_nat j :: u8)"
    "(BME680_REG_RES_HEAT_BASE + of_nat i = BME680_REG_RES_HEAT_BASE + (of_nat j :: u8)) = (i = j)"
  using res_heat_facts(2) assms by simp_all

lemmas res_heat_distinct_sym [simp] = res_heat_distinct [THEN not_sym] res_heat_wait(1) [THEN not_sym]

lemmas gas_wait_distinct_sym [simp] = gas_wait_distinct [THEN not_sym]

lemma ctrl_distinct [simp]:
  "BME680_REG_CTRL_HUM \<noteq> BME680_REG_CTRL_MEAS" "BME680_REG_CTRL_HUM \<noteq> BME680_REG_CONFIG" "BME680_REG_CTRL_HUM \<noteq> BME680_REG_CTRL_GAS_1"
  "BME680_REG_CTRL_MEAS \<noteq> BME680_REG_CTRL_HUM" "BME680_REG_CTRL_MEAS \<noteq> BME680_REG_CONFIG" "BME680_REG_CTRL_MEAS \<noteq> BME680_REG_CTRL_GAS_1"
  "BME680_REG_CONFIG \<noteq> BME680_REG_CTRL_HUM" "BME680_REG_CONFIG \<noteq> BME680_REG_CTRL_MEAS" "BME680_REG_CONFIG \<noteq> BME680_REG_CTRL_GAS_1"
  "BME680_REG_CTRL_GAS_1 \<noteq> BME680_REG_CTRL_HUM" "BME680_REG_CTRL_GAS_1 \<noteq> BME680_REG_CTRL_MEAS" "BME680_REG_CTRL_GAS_1 \<noteq> BME680_REG_CONFIG"
  by code_simp+

lemma small_fields:
  "\<forall>n \<in> set [0..<8]. \<forall>f \<in> set [BME680_OSR_T, BME680_OSR_P, BME680_OSR_H, BME680_FILTER].
     drop_bit (f_shift f) (push_bit (f_shift f) (of_nat n) AND f_bits f) = (of_nat n :: u8)"
  by code_simp

lemma get_set_nat [simp]:
  assumes "n < 8"
  shows "bme_get_reg_bit (bme_set_reg_bit r BME680_OSR_T (of_nat n)) BME680_OSR_T = of_nat n"
    "bme_get_reg_bit (bme_set_reg_bit r BME680_OSR_P (of_nat n)) BME680_OSR_P = of_nat n"
    "bme_get_reg_bit (bme_set_reg_bit r BME680_OSR_H (of_nat n)) BME680_OSR_H = of_nat n"
    "bme_get_reg_bit (bme_set_reg_bit r BME680_FILTER (of_nat n)) BME680_FILTER = of_nat n"
  using small_fields assms by (simp_all add: get_set_same)


lemma get_set_apart [simp]:
  "bme_get_reg_bit (bme_set_reg_bit r BME680_OSR_P x) BME680_OSR_T = bme_get_reg_bit r BME680_OSR_T"
  "bme_get_reg_bit (bme_set_reg_bit r BME680_OSR_T x) BME680_OSR_P = bme_get_reg_bit r BME680_OSR_P"
  "bme_get_reg_bit (bme_set_reg_bit r BME680_RUN_GAS x) BME680_NB_CONV = bme_get_reg_bit r BME680_NB_CONV"
  by (rule get_set_other, code_simp)+






lemma follows_cong: "follows chip p a d v s \<Longrightarrow> (\<And>r. r \<in> config_regs \<Longrightarrow> v r = v' r) \<Longrightarrow> follows chip p a d v' s"
  by (simp add: follows_def)

lemma kept_other [simp]: "r \<noteq> BME680_REG_CTRL_MEAS \<Longrightarrow> (x :: u8) AND kept_bits r = x"
proof -
  have "(0xff :: u8) = - 1" by simp
  then show "r \<noteq> BME680_REG_CTRL_MEAS \<Longrightarrow> x AND kept_bits r = x" by (simp only: kept_bits_def if_False bit.conj_one_right)
qed








section \<open>Measurements\<close>












section \<open>Start and runs\<close>


















text \<open>Sequences in which every call reports success.\<close>

fun bme_runs_ok :: "('f, 'd) floating \<Rightarrow> bus \<Rightarrow> bme_command list \<Rightarrow> bme_state \<Rightarrow> bme_state option" where
  "bme_runs_ok F B [] s = Some s"
| "bme_runs_ok F B (c # cs) s = do { (e, s) \<leftarrow> bme_run F B c s; if e = ESP_OK then bme_runs_ok F B cs s else None }"









text \<open>A sensor on a bench: its registers are what was written to them last.\<close>

definition byte_of :: "i2c_op \<Rightarrow> u8" where
  "byte_of x = (case x of Write (b # _) \<Rightarrow> b | _ \<Rightarrow> 0)"

definition bytes_of :: "i2c_op \<Rightarrow> u8 list" where
  "bytes_of x = (case x of Write bs \<Rightarrow> bs | _ \<Rightarrow> [])"

definition bench_step :: "(u8 \<Rightarrow> u8) \<Rightarrow> bus_call \<Rightarrow> u8 \<Rightarrow> u8" where
  "bench_step regs c =
     (case c of
        Cmd_Begin q ops \<Rightarrow>
          if length ops = 5 \<and> length (bytes_of (ops ! 3)) = BME680_HEATER_PROFILES \<and> c = block_call 0 0x77 (bytes_of (ops ! 3))
          then (\<lambda>r. if r \<in> set res_heat_regs then bytes_of (ops ! 3) ! unat (r - BME680_REG_RES_HEAT_BASE) else regs r)
          else if length ops = 5 \<and> c = write_call 0 0x77 (byte_of (ops ! 2)) (byte_of (ops ! 3))
          then (if byte_of (ops ! 2) = BME680_REG_RESET then (\<lambda>_. 0) else regs(byte_of (ops ! 2) := byte_of (ops ! 3)))
          else regs
      | _ \<Rightarrow> regs)"

definition bench_regs :: "bus_call list \<Rightarrow> u8 \<Rightarrow> u8" where
  "bench_regs l = foldl bench_step (\<lambda>_. 0) l"

definition bench_read :: "bus_call list \<Rightarrow> bus_call \<Rightarrow> u8 list" where
  "bench_read l c =
     (case c of
        Cmd_Begin q ops \<Rightarrow>
          if length ops = 7 \<and> byte_of (ops ! 2) = BME680_REG_ID then [0x61]
          else if c = read_call 0 0x77 (byte_of (ops ! 2)) 1 then [bench_regs l (byte_of (ops ! 2))] else []
      | _ \<Rightarrow> [])"

definition sensor_bus :: bus where
  "sensor_bus = \<lparr>ask = \<lambda>l c. \<lparr>b_err = 0, b_ok = True, b_value = 7, b_data = bench_read l c\<rparr>, I2CDEV_MAX_STRETCH_TIME = 7\<rparr>"

lemma bench_step_calls [simp]:
  "bench_step regs (write_call 0 0x77 reg v) = (if reg = BME680_REG_RESET then (\<lambda>_. 0) else regs(reg := v))"
  "length vs = BME680_HEATER_PROFILES \<Longrightarrow> bench_step regs (block_call 0 0x77 vs)
     = (\<lambda>r. if r \<in> set res_heat_regs then vs ! unat (r - BME680_REG_RES_HEAT_BASE) else regs r)"
  "bench_step regs (read_call p a reg n) = regs" "(\<forall>q ops. c \<noteq> Cmd_Begin q ops) \<Longrightarrow> bench_step regs c = regs"
  by (auto simp: bench_step_def write_call_def block_call_def read_call_def byte_of_def bytes_of_def BME680_HEATER_PROFILES_def
      split: bus_call.split)







text \<open>
  Why the entry of the active profile must not change its use: a profile that is chosen before it has
  a temperature is accepted, with the heater off; setting it up later leaves the heater off, and choosing it again
  sends nothing, as it is the chosen one already.
\<close>

lemma late_profile_not_heated:
  "case bme_runs_ok bench_floats sensor_bus [Init_Sensor, Use_Heater 1, Set_Heater 1 300 100, Use_Heater 1] bench_bme of
     None \<Rightarrow> False
   | Some s' \<Rightarrow> profile_used (settings (sensor s'))
       \<and> bme_get_reg_bit (view bench_regs (trace s') BME680_REG_CTRL_GAS_1) BME680_RUN_GAS = 0"
  by code_simp

end
