(* ===== verification/Mqtt_App.thy ===== *)
theory Mqtt_App
  imports Prelude
begin

text \<open>
  The MQTT client of the application (\<^verbatim>\<open>common/mqtt_app/mqtt_app.c\<close>): the client's life, its event handler, and the
  message with the sensor values, which is put together in a buffer of 100 bytes.

  The calls of the ESP-IDF client are recorded in the order they are made.  The text of a number under
  \<^verbatim>\<open>%.2f\<close> is a parameter: floating-point numbers are values of any type \<open>'f\<close> with a printer.
\<close>

section \<open>Client\<close>

datatype mqtt_call =
    Client_Init | Client_Start | Client_Stop | Client_Disconnect | Client_Destroy | Client_Reconnect
  | Client_Publish string string int nat nat | Client_Subscribe string nat | Client_Unsubscribe string
  | Mqtt_Handler string string int

datatype mqtt_event =
    MQTT_EVENT_CONNECTED | MQTT_EVENT_DISCONNECTED | MQTT_EVENT_SUBSCRIBED | MQTT_EVENT_UNSUBSCRIBED
  | MQTT_EVENT_PUBLISHED | MQTT_EVENT_DATA string string int | MQTT_EVENT_ERROR | MQTT_EVENT_OTHER nat

record mqtt_state =
  mqtt_calls :: "mqtt_call list"
  mqtt_handler_set :: bool

definition mqtt_do :: "mqtt_call \<Rightarrow> mqtt_state \<Rightarrow> mqtt_state" where
  "mqtt_do c s = s\<lparr>mqtt_calls := mqtt_calls s @ [c]\<rparr>"

text \<open>The handler of the application is called through a pointer: NULL before \<^verbatim>\<open>mqtt_set_callback\<close>.\<close>

definition mqtt_event_handler_cb :: "mqtt_event \<Rightarrow> mqtt_state \<Rightarrow> mqtt_state option" where
  "mqtt_event_handler_cb event s =
     (case event of
        MQTT_EVENT_CONNECTED \<Rightarrow> Some (mqtt_do (Client_Subscribe ''hieu45678vip/sub'' 1) s)
      | MQTT_EVENT_DATA topic data len \<Rightarrow>
          (if mqtt_handler_set s then Some (mqtt_do (Mqtt_Handler topic data len) s) else None)
      | _ \<Rightarrow> Some s)"

definition mqtt_app_init :: "mqtt_state \<Rightarrow> mqtt_state" where "mqtt_app_init s = mqtt_do Client_Init s"
definition mqtt_app_start :: "mqtt_state \<Rightarrow> mqtt_state" where "mqtt_app_start s = mqtt_do Client_Start s"
definition mqtt_app_stop :: "mqtt_state \<Rightarrow> mqtt_state" where "mqtt_app_stop s = mqtt_do Client_Stop s"
definition mqtt_app_disconnect :: "mqtt_state \<Rightarrow> mqtt_state" where "mqtt_app_disconnect s = mqtt_do Client_Disconnect s"
definition mqtt_app_destroy :: "mqtt_state \<Rightarrow> mqtt_state" where "mqtt_app_destroy s = mqtt_do Client_Destroy s"
definition mqtt_app_reconnect :: "mqtt_state \<Rightarrow> mqtt_state" where "mqtt_app_reconnect s = mqtt_do Client_Reconnect s"

definition mqtt_app_publish :: "string \<Rightarrow> string \<Rightarrow> int \<Rightarrow> nat \<Rightarrow> nat \<Rightarrow> mqtt_state \<Rightarrow> mqtt_state" where
  "mqtt_app_publish topic data len qos retain s = mqtt_do (Client_Publish topic data len qos retain) s"

definition mqtt_app_subcribe :: "string \<Rightarrow> nat \<Rightarrow> mqtt_state \<Rightarrow> mqtt_state" where
  "mqtt_app_subcribe topic qos s = mqtt_do (Client_Subscribe topic qos) s"

definition mqtt_app_unsubcribe :: "string \<Rightarrow> nat \<Rightarrow> mqtt_state \<Rightarrow> mqtt_state" where
  "mqtt_app_unsubcribe topic qos s = mqtt_do (Client_Unsubscribe topic) s"

definition mqtt_set_callback :: "bool \<Rightarrow> mqtt_state \<Rightarrow> mqtt_state" where
  "mqtt_set_callback cb s = s\<lparr>mqtt_handler_set := cb\<rparr>"

section \<open>The message with the sensor values\<close>

definition zero_100 :: buf where "zero_100 = replicate 100 NUL"

text \<open>One field: its opening text, the value and its closing text are appended one after the other.\<close>

definition cat_field :: "string \<Rightarrow> string \<Rightarrow> string \<Rightarrow> buf \<Rightarrow> buf option" where
  "cat_field opening val closing json =
     do { json \<leftarrow> c_strcat json opening; json \<leftarrow> c_strcat json val; c_strcat json closing }"

definition mqtt_app_pub_json :: "('f \<Rightarrow> string) \<Rightarrow> string \<Rightarrow> 'f \<Rightarrow> 'f \<Rightarrow> 'f \<Rightarrow> 'f \<Rightarrow> 'f \<Rightarrow> mqtt_state \<Rightarrow> mqtt_state option" where
  "mqtt_app_pub_json fmt time temp humidity pressure gas uv s = do {
     Str_time \<leftarrow> c_strcpy zero_100 time;
     Str_ND \<leftarrow> c_strcpy zero_100 (fmt temp);
     Str_DA \<leftarrow> c_strcpy zero_100 (fmt humidity);
     Str_PR \<leftarrow> c_strcpy zero_100 (fmt pressure);
     Str_GA \<leftarrow> c_strcpy zero_100 (fmt gas);
     Str_UV \<leftarrow> c_strcpy zero_100 (fmt uv);
     JSON \<leftarrow> cat_field (CHR ''{'' # DQ # ''TIME'' @ [DQ, CHR '':'', DQ]) (cstr Str_time) [DQ, CHR '',''] zero_100;
     JSON \<leftarrow> cat_field (DQ # ''ND'' @ [DQ, CHR '':'', DQ]) (cstr Str_ND) [DQ, CHR '',''] JSON;
     JSON \<leftarrow> cat_field (DQ # ''DA'' @ [DQ, CHR '':'', DQ]) (cstr Str_DA) [DQ, CHR '',''] JSON;
     JSON \<leftarrow> cat_field (DQ # ''PR'' @ [DQ, CHR '':'', DQ]) (cstr Str_PR) [DQ, CHR '',''] JSON;
     JSON \<leftarrow> cat_field (DQ # ''GA'' @ [DQ, CHR '':'', DQ]) (cstr Str_GA) [DQ, CHR '',''] JSON;
     JSON \<leftarrow> cat_field (DQ # ''UV'' @ [DQ, CHR '':'', DQ]) (cstr Str_UV) [DQ, CHR ''}''] JSON;
     len \<leftarrow> c_strlen JSON;
     Some (mqtt_app_publish ''hieu45678vip/pub'' (cstr JSON) (int len) 1 0 s)
   }"

section \<open>Theorems\<close>

text \<open>A field is appended exactly when it leaves room for the terminator.\<close>

lemma NUL_parts: "NUL \<notin> set (a @ b) \<longleftrightarrow> NUL \<notin> set a \<and> NUL \<notin> set b"
  by simp

lemma cat_field_eq:
  assumes "NUL \<notin> set s" "NUL \<notin> set a" "NUL \<notin> set v" "NUL \<notin> set z"
  shows "cat_field a v z (s @ NUL # r) =
     (if length a + length v + length z \<le> length r
      then Some ((s @ a @ v @ z) @ NUL # drop (length a + length v + length z) r) else None)"
  using assms c_strcat_eq [of s r a] c_strcat_eq [of "s @ a" "drop (length a) r" v]
    c_strcat_eq [of "s @ a @ v" "drop (length v) (drop (length a) r)" z]
  by (auto simp: cat_field_def add.commute)

lemma strcpy_100:
  "NUL \<notin> set v \<Longrightarrow> length v < 100 \<Longrightarrow> \<exists>b. c_strcpy zero_100 v = Some b \<and> cstr b = v"
  by (simp add: c_strcpy_eq zero_100_def)

text \<open>The text that is sent.\<close>

definition field_text :: "string \<Rightarrow> string \<Rightarrow> string" where
  "field_text name val = DQ # name @ [DQ, CHR '':'', DQ] @ val @ [DQ]"

definition pub_text :: "string \<Rightarrow> string \<Rightarrow> string \<Rightarrow> string \<Rightarrow> string \<Rightarrow> string \<Rightarrow> string" where
  "pub_text t nd da pr ga uv = CHR ''{'' # field_text ''TIME'' t @ CHR '','' # field_text ''ND'' nd @ CHR '','' #
     field_text ''DA'' da @ CHR '','' # field_text ''PR'' pr @ CHR '','' # field_text ''GA'' ga @ CHR '','' #
     field_text ''UV'' uv @ [CHR ''}'']"

definition pub_lengths :: "string \<Rightarrow> string \<Rightarrow> string \<Rightarrow> string \<Rightarrow> string \<Rightarrow> string \<Rightarrow> nat" where
  "pub_lengths t nd da pr ga uv = length t + length nd + length da + length pr + length ga + length uv"

text \<open>The buffer that holds a text, and the fields appended to it.\<close>

definition json_buf :: "string \<Rightarrow> buf" where
  "json_buf s = s @ NUL # replicate (99 - length s) NUL"

fun cat_fields :: "(string \<times> string \<times> string) list \<Rightarrow> buf \<Rightarrow> buf option" where
  "cat_fields [] b = Some b"
| "cat_fields ((a, v, z) # fs) b = do { b \<leftarrow> cat_field a v z b; cat_fields fs b }"

lemma cat_field_buf:
  assumes "NUL \<notin> set (s @ a @ v @ z)" "length s \<le> 99"
  shows "cat_field a v z (json_buf s) = (if length (s @ a @ v @ z) \<le> 99 then Some (json_buf (s @ a @ v @ z)) else None)"
  using assms by (auto simp: json_buf_def cat_field_eq)

lemma cat_fields_buf:
  assumes "NUL \<notin> set (s @ concat (map (\<lambda>(a, v, z). a @ v @ z) fs))" "length s \<le> 99"
  shows "cat_fields fs (json_buf s) =
    (if length (s @ concat (map (\<lambda>(a, v, z). a @ v @ z) fs)) \<le> 99
     then Some (json_buf (s @ concat (map (\<lambda>(a, v, z). a @ v @ z) fs))) else None)"
  using assms
proof (induction fs arbitrary: s)
  case (Cons f fs)
  obtain a v z where f: "f = (a, v, z)" by (cases f)
  show ?case
  proof (cases "length (s @ a @ v @ z) \<le> 99")
    case True
    with Cons.prems f have "cat_field a v z (json_buf s) = Some (json_buf (s @ a @ v @ z))"
      by (subst cat_field_buf) auto
    with Cons.IH [of "s @ a @ v @ z"] Cons.prems True f show ?thesis by simp
  next
    case False
    with Cons.prems f have "cat_field a v z (json_buf s) = None"
      by (subst cat_field_buf) auto
    with False f show ?thesis by simp
  qed
qed simp

definition pub_parts :: "string \<Rightarrow> string \<Rightarrow> string \<Rightarrow> string \<Rightarrow> string \<Rightarrow> string \<Rightarrow> (string \<times> string \<times> string) list" where
  "pub_parts t nd da pr ga uv =
     [(CHR ''{'' # DQ # ''TIME'' @ [DQ, CHR '':'', DQ], t, [DQ, CHR '','']),
      (DQ # ''ND'' @ [DQ, CHR '':'', DQ], nd, [DQ, CHR '','']),
      (DQ # ''DA'' @ [DQ, CHR '':'', DQ], da, [DQ, CHR '','']),
      (DQ # ''PR'' @ [DQ, CHR '':'', DQ], pr, [DQ, CHR '','']),
      (DQ # ''GA'' @ [DQ, CHR '':'', DQ], ga, [DQ, CHR '','']),
      (DQ # ''UV'' @ [DQ, CHR '':'', DQ], uv, [DQ, CHR ''}''])]"

lemma pub_parts_text: "concat (map (\<lambda>(a, v, z). a @ v @ z) (pub_parts t nd da pr ga uv)) = pub_text t nd da pr ga uv"
  by (simp add: pub_parts_def pub_text_def field_text_def)

lemma length_pub_text: "length (pub_text t nd da pr ga uv) = pub_lengths t nd da pr ga uv + 51"
  by (simp add: pub_text_def field_text_def pub_lengths_def)

lemma NUL_pub_text:
  "NUL \<notin> set t \<Longrightarrow> NUL \<notin> set nd \<Longrightarrow> NUL \<notin> set da \<Longrightarrow> NUL \<notin> set pr \<Longrightarrow> NUL \<notin> set ga \<Longrightarrow> NUL \<notin> set uv
   \<Longrightarrow> NUL \<notin> set (pub_text t nd da pr ga uv)"
  by (simp add: pub_text_def field_text_def)

lemma pub_fields:
  assumes "NUL \<notin> set t" "NUL \<notin> set nd" "NUL \<notin> set da" "NUL \<notin> set pr" "NUL \<notin> set ga" "NUL \<notin> set uv"
  shows "cat_fields (pub_parts t nd da pr ga uv) zero_100 =
    (if pub_lengths t nd da pr ga uv \<le> 48 then Some (json_buf (pub_text t nd da pr ga uv)) else None)"
proof -
  have "zero_100 = json_buf []" by (simp add: zero_100_def json_buf_def flip: replicate_Suc)
  then show ?thesis
    using cat_fields_buf [of "[]" "pub_parts t nd da pr ga uv"] NUL_pub_text [OF assms]
    by (simp add: pub_parts_text length_pub_text)
qed

lemma short_copy: "NUL \<notin> set v \<Longrightarrow> length v < 100 \<Longrightarrow> c_strcpy zero_100 v = Some (v @ NUL # drop (Suc (length v)) zero_100)"
  by (simp add: c_strcpy_eq zero_100_def)

text \<open>
  C24: The message goes into its buffer of 100 bytes exactly when the time and the five printed values
  have at most 48 characters together.  Then it is published as one JSON object with six members; with
  49 or more the code writes behind the buffer.
\<close>

theorem pub_json_fits:
  assumes "NUL \<notin> set time" "\<And>x. NUL \<notin> set (fmt x)" "length time < 100" "\<And>x. length (fmt x) < 100"
  shows "mqtt_app_pub_json fmt time nd da pr ga uv s =
    (if pub_lengths time (fmt nd) (fmt da) (fmt pr) (fmt ga) (fmt uv) \<le> 48
     then Some (mqtt_app_publish ''hieu45678vip/pub'' (pub_text time (fmt nd) (fmt da) (fmt pr) (fmt ga) (fmt uv))
        (int (length (pub_text time (fmt nd) (fmt da) (fmt pr) (fmt ga) (fmt uv)))) 1 0 s)
     else None)"
proof -
  let ?ps = "pub_parts time (fmt nd) (fmt da) (fmt pr) (fmt ga) (fmt uv)"
  let ?t = "pub_text time (fmt nd) (fmt da) (fmt pr) (fmt ga) (fmt uv)"
  have "mqtt_app_pub_json fmt time nd da pr ga uv s =
      do { JSON \<leftarrow> cat_fields ?ps zero_100; len \<leftarrow> c_strlen JSON;
           Some (mqtt_app_publish ''hieu45678vip/pub'' (cstr JSON) (int len) 1 0 s) }"
    using assms by (simp add: mqtt_app_pub_json_def short_copy pub_parts_def)
  also have "\<dots> = (if pub_lengths time (fmt nd) (fmt da) (fmt pr) (fmt ga) (fmt uv) \<le> 48
     then Some (mqtt_app_publish ''hieu45678vip/pub'' ?t (int (length ?t)) 1 0 s) else None)"
    using NUL_pub_text [of time "fmt nd" "fmt da" "fmt pr" "fmt ga" "fmt uv"] assms
    by (simp add: pub_fields json_buf_def c_strlen_terminated)
  finally show ?thesis .
qed

text \<open>A sensor at 123.45 kilohm overflows the buffer.\<close>

definition bench_fmt :: "nat \<Rightarrow> string" where
  "bench_fmt n = (if n = 0 then ''25.00'' else if n = 1 then ''45.00'' else if n = 2 then ''1013.25''
     else if n = 3 then ''123450.00'' else ''0.12'')"

lemma bench_fmt_ok: "NUL \<notin> set (bench_fmt n)" "length (bench_fmt n) < 100"
  by (simp_all add: bench_fmt_def)

theorem pub_json_fits_witness:
  "mqtt_app_pub_json bench_fmt ''2022/12/31 23:59:59'' 0 1 2 3 4 \<lparr>mqtt_calls = [], mqtt_handler_set = True\<rparr> = None
   \<and> mqtt_app_pub_json bench_fmt ''2022/12/31 3:59:59'' 0 1 2 3 4 \<lparr>mqtt_calls = [], mqtt_handler_set = True\<rparr> \<noteq> None"
  using pub_json_fits [where fmt = bench_fmt, OF _ bench_fmt_ok(1) _ bench_fmt_ok(2)]
  by (simp add: pub_lengths_def bench_fmt_def)

end
