(* ===== verification/Sd_Card.thy ===== *)
theory Sd_Card
  imports Bme680
begin

text \<open>
  The store on the SD card (\<^verbatim>\<open>common/sd_card_lib/sd_card_lib.c\<close>): a text file with a header and one line per
  record, written while there is no connection and read back line by line.

  The file is its text, or absent.  \<open>fmt\<close> prints a number under \<^verbatim>\<open>%.2f\<close> and \<open>atof\<close> reads one; both are
  parameters.  A \<^verbatim>\<open>char *\<close> in a record points to a string or nowhere: into memory that
  was never set or has been given up.
\<close>

section \<open>Records\<close>

datatype char_ptr = Points string | Nowhere

record 'f module_data =
  md_id :: int
  md_uv_values :: 'f
  md_time_values :: char_ptr
  md_bme680_values :: "'f bme680_values_float"

record sd_state =
  sd_file :: "string option"
  sd_id :: u32

section \<open>Mounting\<close>

datatype sd_call = Set_Pull_Mode nat | Spi_Bus_Initialize | Fat_Mount | Print_Info

text \<open>Pins of the card: \<^verbatim>\<open>MOSI\<close> 23, \<^verbatim>\<open>MISO\<close> 19, \<^verbatim>\<open>CLK\<close> 18, \<^verbatim>\<open>CS\<close> 5.  \<open>E\<close> gives the error of each call.\<close>

definition sd_card_init :: "(sd_call \<Rightarrow> int) \<Rightarrow> sd_call list" where
  "sd_card_init E =
     [Set_Pull_Mode 23, Set_Pull_Mode 19, Set_Pull_Mode 18, Set_Pull_Mode 5, Spi_Bus_Initialize]
     @ (if E Spi_Bus_Initialize \<noteq> ESP_OK then []
        else Fat_Mount # (if E Fat_Mount \<noteq> ESP_OK then [] else [Print_Info]))"

section \<open>Writing\<close>

definition csv_header :: string where
  "csv_header = ''ID, Time, temperature, humidity, pressure, gas, uv'' @ [NEWLINE]"

definition csv_line :: "('f \<Rightarrow> string) \<Rightarrow> string \<Rightarrow> 'f module_data \<Rightarrow> string" where
  "csv_line fmt time d = show_int (md_id d) @ '', '' @ time @ '', '' @ fmt (float_temperature (md_bme680_values d)) @ '', '' @
     fmt (float_humidity (md_bme680_values d)) @ '', '' @ fmt (float_pressure (md_bme680_values d)) @ '', '' @
     fmt (float_gas_resistance (md_bme680_values d)) @ '', '' @ fmt (md_uv_values d) @ [NEWLINE]"

text \<open>\<open>opens\<close>: whether \<^verbatim>\<open>fopen\<close> succeeds.  The code goes on with the NULL stream when it does not.\<close>

definition sd_card_write :: "('f \<Rightarrow> string) \<Rightarrow> bool \<Rightarrow> 'f module_data \<Rightarrow> sd_state \<Rightarrow> sd_state option" where
  "sd_card_write fmt opens d s =
     (if \<not> opens then None
      else case md_time_values d of
             Nowhere \<Rightarrow> None
           | Points time \<Rightarrow>
               Some (s\<lparr>sd_file := Some ((case sd_file s of None \<Rightarrow> [] | Some f \<Rightarrow> f) @ (if sd_id s = 0 then csv_header else [])
                                        @ csv_line fmt time d),
                       sd_id := sd_id s + 1\<rparr>))"

section \<open>Reading\<close>

text \<open>\<^verbatim>\<open>fgets\<close>: a line with its newline, cut at the size of the buffer.\<close>

definition fgets :: "nat \<Rightarrow> string \<Rightarrow> string \<times> string" where
  "fgets n f =
     (let l = takeWhile (\<lambda>c. c \<noteq> NEWLINE) f;
          l = take (n - 1) (if length l < length f then l @ [NEWLINE] else l)
      in (l, drop (length l) f))"

definition strtok :: "char \<Rightarrow> string \<Rightarrow> (string \<times> string) option" where
  "strtok c s =
     (let s = dropWhile (\<lambda>x. x = c) s
      in if s = [] then None else Some (takeWhile (\<lambda>x. x \<noteq> c) s, drop 1 (dropWhile (\<lambda>x. x \<noteq> c) s)))"

fun digits_value :: "int \<Rightarrow> string \<Rightarrow> int" where
  "digits_value a [] = a"
| "digits_value a (c # cs) = (case read_digit c of None \<Rightarrow> a | Some d \<Rightarrow> digits_value (10 * a + int d) cs)"

definition atoi :: "string \<Rightarrow> int" where
  "atoi s =
     (let s = dropWhile (\<lambda>c. c = CHR '' '') s
      in if s \<noteq> [] \<and> hd s = CHR ''-'' then - digits_value 0 (tl s) else digits_value 0 s)"

text \<open>
  The seven tokens of a line.  The pointer to the time points into the local buffer; when the function
  has returned it points nowhere.  A missing token is NULL, which the conversions do not accept.
\<close>

definition parse_line :: "(string \<Rightarrow> 'f) \<Rightarrow> string \<Rightarrow> 'f module_data option" where
  "parse_line atof buffer = do {
     (token, r) \<leftarrow> strtok (CHR '','') buffer;
     let i = atoi token;
     (time, r) \<leftarrow> strtok (CHR '','') r;
     (token, r) \<leftarrow> strtok (CHR '','') r;
     let t = atof token;
     (token, r) \<leftarrow> strtok (CHR '','') r;
     let h = atof token;
     (token, r) \<leftarrow> strtok (CHR '','') r;
     let p = atof token;
     (token, r) \<leftarrow> strtok (CHR '','') r;
     let g = atof token;
     (token, r) \<leftarrow> strtok (CHR '','') r;
     Some \<lparr>md_id = i, md_uv_values = atof token, md_time_values = Nowhere,
           md_bme680_values = \<lparr>float_temperature = t, float_pressure = p, float_humidity = h, float_gas_resistance = g\<rparr>\<rparr> }"

text \<open>The loop over the lines; \<open>m\<close> is the record found so far, at first what the memory holds.\<close>

lemma fgets_progress: "f \<noteq> [] \<Longrightarrow> length (snd (fgets 1024 f)) < length f"
  by (cases f) (auto simp: fgets_def Let_def)

function read_lines :: "(string \<Rightarrow> 'f) \<Rightarrow> u32 \<Rightarrow> u32 \<Rightarrow> 'f module_data \<Rightarrow> string \<Rightarrow> 'f module_data option" where
  "read_lines atof line_number i m f =
     (if f = [] then Some m
      else if i + 1 = line_number
      then do { m \<leftarrow> parse_line atof (fst (fgets 1024 f)); read_lines atof line_number (i + 1) m (snd (fgets 1024 f)) }
      else read_lines atof line_number (i + 1) m (snd (fgets 1024 f)))"
  by pat_completeness auto
termination
  by (relation "measure (\<lambda>(atof, n, i, m, f). length f)") (auto simp: fgets_progress)

declare read_lines.simps [simp del]

definition sd_card_read :: "(string \<Rightarrow> 'f) \<Rightarrow> 'f module_data \<Rightarrow> u32 \<Rightarrow> sd_state \<Rightarrow> 'f module_data option" where
  "sd_card_read atof garbage line_number s =
     (case sd_file s of None \<Rightarrow> None | Some f \<Rightarrow> read_lines atof line_number 0 garbage f)"

section \<open>Lines\<close>

definition one_line :: "string \<Rightarrow> bool" where
  "one_line l \<longleftrightarrow> NEWLINE \<notin> set l \<and> length l \<le> 1022"

lemma fgets_line: "one_line l \<Longrightarrow> fgets 1024 (l @ NEWLINE # r) = (l @ [NEWLINE], r)"
  by (auto simp: one_line_def fgets_def takeWhile_neq_append Let_def)

abbreviation lines_text :: "string list \<Rightarrow> string" where
  "lines_text ls \<equiv> concat (map (\<lambda>l. l @ [NEWLINE]) ls)"

lemma read_lines_Cons:
  "one_line l \<Longrightarrow> read_lines atof n i m (l @ NEWLINE # r) =
     (if i + 1 = n then do { m \<leftarrow> parse_line atof (l @ [NEWLINE]); read_lines atof n (i + 1) m r }
      else read_lines atof n (i + 1) m r)"
  by (subst read_lines.simps) (simp add: fgets_line)

lemma read_lines_Nil [simp]: "read_lines atof n i m [] = Some m"
  by (simp add: read_lines.simps)

lemma next_line: "a + 1 < 2 ^ 32 \<Longrightarrow> b < 2 ^ 32 \<Longrightarrow> (of_nat a + 1 = (of_nat b :: u32)) \<longleftrightarrow> a + 1 = b"
proof -
  assume a: "a + 1 < 2 ^ 32" "b < 2 ^ 32"
  have e: "(of_nat a + 1 :: u32) = of_nat (a + 1)" by simp
  have "(of_nat a + 1 = (of_nat b :: u32)) \<longleftrightarrow> unat (of_nat (a + 1) :: u32) = unat (of_nat b :: u32)"
    by (simp only: e word_unat_eq_iff)
  also have "\<dots> \<longleftrightarrow> a + 1 = b" using a by (simp only: unat_of_nat take_bit_nat_eq_self_iff) (simp add: take_bit_nat_eq_self)
  finally show ?thesis .
qed

lemma read_lines_done:
  "\<forall>l \<in> set ls. one_line l \<Longrightarrow> b \<le> a \<Longrightarrow> a + length ls < 2 ^ 32 \<Longrightarrow>
   read_lines atof (of_nat b) (of_nat a) m (lines_text ls) = Some m"
proof (induction ls arbitrary: a)
  case (Cons l ls)
  have "(of_nat a + 1 :: u32) \<noteq> of_nat b" using next_line [of a b] Cons.prems by simp
  with Cons.IH [of "a + 1"] Cons.prems show ?case by (simp add: read_lines_Cons add.commute)
qed simp

lemma read_lines_nth:
  "\<forall>l \<in> set ls. one_line l \<Longrightarrow> k < length ls \<Longrightarrow> a + length ls < 2 ^ 32 \<Longrightarrow>
   read_lines atof (of_nat (a + k + 1)) (of_nat a) m (lines_text ls) = parse_line atof (ls ! k @ [NEWLINE])"
proof (induction ls arbitrary: a k)
  case (Cons l ls)
  show ?case
  proof (cases k)
    case 0
    have "read_lines atof (of_nat (a + 1)) (of_nat (a + 1)) m' (lines_text ls) = Some m'" for m'
      using Cons.prems by (intro read_lines_done) auto
    with 0 Cons.prems show ?thesis
      by (cases "parse_line atof (l @ [NEWLINE])") (simp_all add: read_lines_Cons add.commute)
  next
    case (Suc j)
    have "(of_nat a + 1 :: u32) \<noteq> of_nat (a + k + 1)" using next_line [of a "a + k + 1"] Cons.prems Suc by simp
    with Cons.IH [of j "a + 1"] Cons.prems Suc show ?thesis
      by (simp add: read_lines_Cons add.commute add.left_commute)
  qed
qed simp

section \<open>Fields\<close>

lemma dropWhile_neq_append: "x \<notin> set xs \<Longrightarrow> dropWhile (\<lambda>c. c \<noteq> x) (xs @ x # ys) = x # ys"
  by (induction xs) auto

lemma dropWhile_neq_all: "x \<notin> set xs \<Longrightarrow> dropWhile (\<lambda>c. c \<noteq> x) xs = []"
  by (induction xs) auto

lemma dropWhile_eq_head: "x \<notin> set v \<Longrightarrow> v \<noteq> [] \<Longrightarrow> dropWhile (\<lambda>c. c = x) (v @ r) = v @ r"
  by (cases v) auto

lemma strtok_field: "CHR '','' \<notin> set v \<Longrightarrow> v \<noteq> [] \<Longrightarrow> strtok (CHR '','') (v @ CHR '','' # r) = Some (v, r)"
  by (simp add: strtok_def Let_def dropWhile_eq_head dropWhile_neq_append takeWhile_neq_append)

lemma strtok_last: "CHR '','' \<notin> set v \<Longrightarrow> v \<noteq> [] \<Longrightarrow> strtok (CHR '','') v = Some (v, [])"
  using dropWhile_eq_head [of "CHR '',''" v "[]"]
  by (simp add: strtok_def Let_def dropWhile_neq_all takeWhile_neq_id)

lemma digits_value_read: "read_nat_acc a s = Some b \<Longrightarrow> digits_value (int a) s = int b"
proof (induction a s rule: read_nat_acc.induct)
  case (2 a c cs)
  then show ?case by (auto split: option.splits)
qed simp

lemma digits_show_nat: "digits_value 0 (show_nat n) = int n"
  using digits_value_read [OF read_show_nat] by simp

lemma show_nat_head: "show_nat n = c # r \<Longrightarrow> c \<noteq> CHR '' '' \<and> c \<noteq> CHR ''-''"
  using set_show_nat [of n] by (force simp: less_eq_char_def)

lemma atoi_show_int: "atoi (show_int i) = i"
proof (cases "i < 0")
  case True
  then show ?thesis by (simp add: atoi_def show_int_def digits_show_nat)
next
  case False
  obtain c r where c: "show_nat (nat i) = c # r" by (cases "show_nat (nat i)") auto
  with show_nat_head [OF c] have "atoi (show_nat (nat i)) = digits_value 0 (show_nat (nat i))"
    by (simp add: atoi_def)
  with False show ?thesis by (simp add: show_int_def digits_show_nat)
qed

lemma show_nat_chars: "c < CHR ''0'' \<Longrightarrow> c \<notin> set (show_nat n)"
  using set_show_nat [of n] by (meson atLeastAtMost_iff leD subsetD)

lemma show_int_chars: "CHR '','' \<notin> set (show_int i)" "NEWLINE \<notin> set (show_int i)" "show_int i \<noteq> []"
  by (simp_all add: show_int_def show_nat_chars less_char_def)

section \<open>What is written can be read\<close>

fun time_of :: "'f module_data \<Rightarrow> string" where
  "time_of d = (case md_time_values d of Points t \<Rightarrow> t | Nowhere \<Rightarrow> [])"

definition csv_body :: "('f \<Rightarrow> string) \<Rightarrow> 'f module_data \<Rightarrow> string" where
  "csv_body fmt d = show_int (md_id d) @ CHR '','' # (CHR '' '' # time_of d) @ CHR '','' #
     (CHR '' '' # fmt (float_temperature (md_bme680_values d))) @ CHR '','' #
     (CHR '' '' # fmt (float_humidity (md_bme680_values d))) @ CHR '','' #
     (CHR '' '' # fmt (float_pressure (md_bme680_values d))) @ CHR '','' #
     (CHR '' '' # fmt (float_gas_resistance (md_bme680_values d))) @ CHR '','' # CHR '' '' # fmt (md_uv_values d)"

lemma csv_line_body: "csv_line fmt (time_of d) d = csv_body fmt d @ [NEWLINE]"
  by (simp add: csv_line_def csv_body_def)

text \<open>A record whose strings can be put into a line: the time is set, no field has a comma or a newline.\<close>

definition clean :: "string \<Rightarrow> bool" where
  "clean v \<longleftrightarrow> CHR '','' \<notin> set v \<and> NEWLINE \<notin> set v"

definition storable :: "('f \<Rightarrow> string) \<Rightarrow> 'f module_data \<Rightarrow> bool" where
  "storable fmt d \<longleftrightarrow> md_time_values d \<noteq> Nowhere \<and> clean (time_of d) \<and> length (csv_body fmt d) \<le> 1022"

definition read_back :: "('f \<Rightarrow> 'f) \<Rightarrow> 'f module_data \<Rightarrow> 'f module_data" where
  "read_back rnd d = \<lparr>md_id = md_id d, md_uv_values = rnd (md_uv_values d), md_time_values = Nowhere,
     md_bme680_values = \<lparr>float_temperature = rnd (float_temperature (md_bme680_values d)),
       float_pressure = rnd (float_pressure (md_bme680_values d)), float_humidity = rnd (float_humidity (md_bme680_values d)),
       float_gas_resistance = rnd (float_gas_resistance (md_bme680_values d))\<rparr>\<rparr>"

text \<open>The contract of printing and reading numbers: \<^verbatim>\<open>atof\<close> skips spaces and stops at the end of the number.\<close>

locale number_text =
  fixes fmt :: "'f \<Rightarrow> string"
    and atof :: "string \<Rightarrow> 'f"
    and rnd :: "'f \<Rightarrow> 'f"
  assumes clean_fmt: "clean (fmt x)"
    and atof_fmt: "atof (CHR '' '' # fmt x) = rnd x"
    and atof_line: "atof (CHR '' '' # fmt x @ [NEWLINE]) = rnd x"
begin

lemma parse_body: "clean (time_of d) \<Longrightarrow> parse_line atof (csv_body fmt d @ [NEWLINE]) = Some (read_back rnd d)"
  using clean_fmt
  by (simp add: parse_line_def csv_body_def strtok_field strtok_field [where v = "CHR '' '' # x" for x, simplified]
      strtok_last show_int_chars atoi_show_int atof_fmt atof_line clean_def read_back_def Let_def)

lemma one_line_body: "storable fmt d \<Longrightarrow> one_line (csv_body fmt d)"
  using clean_fmt by (simp add: one_line_def storable_def clean_def csv_body_def show_int_chars)

end

fun sd_writes :: "('f \<Rightarrow> string) \<Rightarrow> 'f module_data list \<Rightarrow> sd_state \<Rightarrow> sd_state option" where
  "sd_writes fmt [] s = Some s"
| "sd_writes fmt (d # ds) s = do { s \<leftarrow> sd_card_write fmt True d s; sd_writes fmt ds s }"

lemma write_one:
  "storable fmt d \<Longrightarrow> sd_card_write fmt True d s =
     Some (s\<lparr>sd_file := Some ((case sd_file s of None \<Rightarrow> [] | Some f \<Rightarrow> f) @ (if sd_id s = 0 then csv_header else [])
       @ csv_body fmt d @ [NEWLINE]), sd_id := sd_id s + 1\<rparr>)"
  by (cases "md_time_values d") (simp_all add: sd_card_write_def storable_def flip: csv_line_body)

lemma writes_more:
  "\<forall>d \<in> set ds. storable fmt d \<Longrightarrow> 0 < n \<Longrightarrow> n + length ds < 2 ^ 32 \<Longrightarrow>
   sd_writes fmt ds \<lparr>sd_file = Some f, sd_id = of_nat n\<rparr> =
     Some \<lparr>sd_file = Some (f @ lines_text (map (csv_body fmt) ds)), sd_id = of_nat (n + length ds)\<rparr>"
proof (induction ds arbitrary: f n)
  case (Cons d ds)
  have "(of_nat n :: u32) \<noteq> 0" using Cons.prems by (simp add: word_unat_eq_iff unat_of_nat take_bit_nat_eq_self)
  moreover have "(of_nat n + 1 :: u32) = of_nat (Suc n)" by simp
  ultimately show ?case
    using Cons.IH [of "Suc n" "f @ csv_body fmt d @ [NEWLINE]"] Cons.prems by (simp add: write_one add_ac)
qed simp

text \<open>The card without a file.\<close>

definition empty_card :: sd_state where "empty_card = \<lparr>sd_file = None, sd_id = 0\<rparr>"

lemma writes_file:
  assumes "\<forall>d \<in> set ds. storable fmt d" "ds \<noteq> []" "length ds < 2 ^ 31"
  shows "sd_writes fmt ds empty_card =
     Some \<lparr>sd_file = Some (csv_header @ lines_text (map (csv_body fmt) ds)), sd_id = of_nat (length ds)\<rparr>"
proof -
  obtain d ds' where ds: "ds = d # ds'" using assms(2) by (cases ds) auto
  have "(1 :: u32) = of_nat 1" by simp
  then show ?thesis
    using writes_more [of ds' fmt 1 "csv_header @ csv_body fmt d @ [NEWLINE]"] assms ds
    by (simp add: write_one empty_card_def del: of_nat_1)
qed

text \<open>The header is a line too, so record \<open>k\<close> is line \<open>k + 2\<close>.\<close>

definition csv_names :: string where
  "csv_names = ''ID, Time, temperature, humidity, pressure, gas, uv''"

lemma header_line: "csv_header = csv_names @ [NEWLINE]" "one_line csv_names"
  by (simp_all add: csv_header_def csv_names_def one_line_def)

context number_text
begin

lemma read_record:
  assumes "\<forall>d \<in> set ds. storable fmt d" "k < length ds" "length ds < 2 ^ 31"
  shows "sd_card_read atof g (of_nat (k + 2)) \<lparr>sd_file = Some (csv_header @ lines_text (map (csv_body fmt) ds)), sd_id = n\<rparr>
    = Some (read_back rnd (ds ! k))"
proof -
  let ?ls = "csv_names # map (csv_body fmt) ds"
  have "read_lines atof (of_nat (0 + Suc k + 1)) (of_nat 0) g (lines_text ?ls) = parse_line atof (?ls ! Suc k @ [NEWLINE])"
    using assms header_line one_line_body by (intro read_lines_nth) auto
  moreover have "parse_line atof (?ls ! Suc k @ [NEWLINE]) = Some (read_back rnd (ds ! k))"
    using assms parse_body [of "ds ! k"] by (simp add: storable_def)
  ultimately show ?thesis by (simp add: sd_card_read_def header_line add_ac)
qed

end

lemma digits_value_stop: "read_nat_acc a s = Some b \<Longrightarrow> digits_value (int a) (s @ [NEWLINE]) = int b"
proof (induction a s rule: read_nat_acc.induct)
  case (1 a)
  then show ?case by (simp add: read_digit_def Let_def)
next
  case (2 a c cs)
  then show ?case by (auto split: option.splits)
qed

lemma atoi_line: "atoi (show_int i @ [NEWLINE]) = i"
proof (cases "i < 0")
  case True
  then show ?thesis using digits_value_stop [OF read_show_nat] by (simp add: atoi_def show_int_def)
next
  case False
  obtain c r where c: "show_nat (nat i) = c # r" by (cases "show_nat (nat i)") auto
  with show_nat_head [OF c] digits_value_stop [OF read_show_nat, of "nat i"] False show ?thesis
    by (simp add: atoi_def show_int_def)
qed

lemma atoi_space: "atoi (CHR '' '' # s) = atoi s"
  by (simp add: atoi_def)

text \<open>Whole numbers, printed and read as the identifiers are.\<close>

interpretation whole_numbers: number_text show_int atoi "\<lambda>i. i"
  by unfold_locales (simp_all add: clean_def show_int_chars atoi_space atoi_show_int atoi_line)

text \<open>
  C14: What is stored while there is no connection can be read back: after any records were written to a card
  without a file, line \<open>k + 2\<close> gives the numbers of record \<open>k\<close> as they were printed, for every \<open>k\<close>.  The
  time alone is lost: the returned pointer leads into the buffer of the function that returned.
\<close>

theorem sd_card_round_trip:
  assumes "\<And>x. clean (fmt x)" "\<And>x. atof (CHR '' '' # fmt x) = rnd x" "\<And>x. atof (CHR '' '' # fmt x @ [NEWLINE]) = rnd x"
    and "\<forall>d \<in> set ds. storable fmt d" "k < length ds" "length ds < 2 ^ 31"
  shows "(do { s \<leftarrow> sd_writes fmt ds empty_card; sd_card_read atof garbage (of_nat (k + 2)) s }) = Some (read_back rnd (ds ! k))"
proof -
  have laws: "number_text fmt atof rnd" using assms(1-3) by unfold_locales
  have "ds \<noteq> []" using assms(5) by auto
  with writes_file [OF assms(4) this assms(6)] number_text.read_record [OF laws assms(4-6)] show ?thesis by simp
qed

lemma digit_chars: "digit_char 0 = CHR ''0''" "digit_char (Suc 0) = CHR ''1''" "digit_char 2 = CHR ''2''" "digit_char 3 = CHR ''3''"
  "digit_char 4 = CHR ''4''" "digit_char 5 = CHR ''5''"
  by code_simp+

definition bench_record :: "int module_data" where
  "bench_record = \<lparr>md_id = 0, md_uv_values = 1, md_time_values = Points ''2022/12/31 23:59:59'',
     md_bme680_values = \<lparr>float_temperature = 25, float_pressure = 1013, float_humidity = 45, float_gas_resistance = 123450\<rparr>\<rparr>"

theorem sd_card_round_trip_witness:
  "(do { s \<leftarrow> sd_writes show_int [bench_record, bench_record] empty_card; sd_card_read atoi bench_record 3 s })
     = Some (bench_record\<lparr>md_time_values := Nowhere\<rparr>)"
proof -
  have n: "show_nat (Suc 0) = ''1''" "show_nat 25 = ''25''" "show_nat 1013 = ''1013''" "show_nat 45 = ''45''"
    "show_nat 123450 = ''123450''" "show_nat 0 = ''0''"
    by (simp_all add: show_nat.simps digit_chars)
  have "storable show_int bench_record"
    by (simp add: storable_def bench_record_def clean_def csv_body_def show_int_def n)
  with sd_card_round_trip [of show_int atoi "\<lambda>i. i" "[bench_record, bench_record]" 1 bench_record]
    whole_numbers.clean_fmt whole_numbers.atof_fmt whole_numbers.atof_line
  show ?thesis by (simp add: read_back_def bench_record_def)
qed

text \<open>Without the card \<^verbatim>\<open>fopen\<close> fails, and writing goes on with the NULL stream.\<close>

lemma write_without_card: "sd_card_write fmt False d s = None"
  by (simp add: sd_card_write_def)

end
