(* ===== verification/App_Io.thy ===== *)
theory App_Io
  imports I2cdev
begin

text \<open>
  The small devices of the application: the button with its timer (\<^verbatim>\<open>common/input_iot/input_iot.c\<close> and
  the callbacks in \<^verbatim>\<open>main/app_main.c\<close>), the pins for output (\<^verbatim>\<open>common/output_iot/output_iot.c\<close>), the time from the
  network (\<^verbatim>\<open>common/real_time/real_time_app.c\<close>) and the averaging of the UV sensor's readings.
\<close>

section \<open>Pins\<close>

text \<open>The calls to the GPIO driver in order; the level of a pin is what it answers.\<close>

datatype gpio_call =
    Pad_Select int | Set_Direction_Output int | Set_Direction_Input int | Set_Pullup int | Set_Intr_Type int nat
  | Install_Isr_Service | Isr_Handler_Add int | Set_Level int u32 | Timer_Create_300

definition output_io_create :: "int \<Rightarrow> gpio_call list" where
  "output_io_create gpio_num = [Pad_Select gpio_num, Set_Direction_Output gpio_num]"

definition output_set_level :: "int \<Rightarrow> u32 \<Rightarrow> gpio_call list" where
  "output_set_level gpio_num level = [Set_Level gpio_num level]"

definition output_toggle_pin :: "(int \<Rightarrow> u32) \<Rightarrow> int \<Rightarrow> gpio_call list" where
  "output_toggle_pin gpio_get_level gpio_num = [Set_Level gpio_num (1 - gpio_get_level gpio_num)]"

definition input_io_create :: "int \<Rightarrow> nat \<Rightarrow> gpio_call list" where
  "input_io_create gpio_num typ =
     [Pad_Select gpio_num, Set_Direction_Input gpio_num, Set_Pullup gpio_num, Set_Intr_Type gpio_num typ,
      Install_Isr_Service, Isr_Handler_Add gpio_num, Timer_Create_300]"

definition input_get_level :: "(int \<Rightarrow> u32) \<Rightarrow> int \<Rightarrow> u8" where
  "input_get_level gpio_get_level gpio_num = ucast (gpio_get_level gpio_num)"

section \<open>Button\<close>

datatype button_bit = Event_press_short | Event_press_long

text \<open>A press time of 64 bits is multiplied by 10 and cut to a signed number of 32 bits.\<close>

definition input_event_callback :: "int \<Rightarrow> u64 \<Rightarrow> button_bit list" where
  "input_event_callback pin pressTick =
     (if pin = 0
      then (let pressTick_ms = sint (ucast (pressTick * 10) :: u32)
            in if pressTick_ms < 1000 then [Event_press_short]
               else if pressTick_ms > 3000 then [Event_press_long] else [])
      else [])"

text \<open>
  \<open>'s\<close> is the state that the callback of the timer changes; a callback that was not set is the NULL pointer,
  and calling it is \<open>None\<close>.
\<close>

record 's input_state =
  input_callback :: "(int \<Rightarrow> u64 \<Rightarrow> button_bit list) option"
  timer_callback :: "('s \<Rightarrow> 's) option"
  press_start :: u64
  press_stop :: u64
  press_ticks :: u64
  timer_runs :: bool

definition initial_input :: "'s input_state" where
  "initial_input = \<lparr>input_callback = None, timer_callback = None, press_start = 0, press_stop = 0, press_ticks = 0,
     timer_runs = False\<rparr>"

definition input_set_callback :: "(int \<Rightarrow> u64 \<Rightarrow> button_bit list) option \<Rightarrow> 's input_state \<Rightarrow> 's input_state" where
  "input_set_callback cb i = i\<lparr>input_callback := cb\<rparr>"

definition timer_set_callback :: "('s \<Rightarrow> 's) option \<Rightarrow> 's input_state \<Rightarrow> 's input_state" where
  "timer_set_callback cb i = i\<lparr>timer_callback := cb\<rparr>"

text \<open>An edge of the pin at tick \<open>rtc\<close>.\<close>

definition gpio_input_handler :: "int \<Rightarrow> u32 \<Rightarrow> u32 \<Rightarrow> 's input_state \<Rightarrow> (button_bit list \<times> 's input_state) option" where
  "gpio_input_handler gpio_num rtc level i =
     (if level = 0 then Some ([], i\<lparr>press_start := ucast rtc, timer_runs := True\<rparr>)
      else (let i = i\<lparr>timer_runs := False, press_stop := ucast rtc\<rparr>;
                i = i\<lparr>press_ticks := press_stop i - press_start i\<rparr>
            in case input_callback i of
                 None \<Rightarrow> None
               | Some cb \<Rightarrow> Some (cb gpio_num (press_ticks i), i)))"

text \<open>The timer runs once and calls the callback; its identifier is the constant 0.\<close>

definition vTimerCallback :: "u32 \<Rightarrow> 's input_state \<Rightarrow> 's \<Rightarrow> 's option" where
  "vTimerCallback ID i s =
     (if ID = 0 then (case timer_callback i of None \<Rightarrow> None | Some cb \<Rightarrow> Some (cb s)) else Some s)"

definition BUTTON_TIMER_TICKS :: nat where "BUTTON_TIMER_TICKS = 300"

text \<open>
  A press from tick \<open>t0\<close> to tick \<open>t1\<close>: the timer fires when the button is still held after its 300 ticks.
  The result has the bits that were set and what the callback of the timer made of \<open>s\<close>.
\<close>

definition button_press :: "u32 \<Rightarrow> u32 \<Rightarrow> 's input_state \<Rightarrow> 's \<Rightarrow> (button_bit list \<times> 's) option" where
  "button_press t0 t1 i s = do {
     (_, i) \<leftarrow> gpio_input_handler 0 t0 0 i;
     s \<leftarrow> (if timer_runs i \<and> BUTTON_TIMER_TICKS \<le> unat (t1 - t0) then vTimerCallback 0 i s else Some s);
     (evs, i) \<leftarrow> gpio_input_handler 0 t1 1 i;
     Some (evs, s) }"

section \<open>Time from the network\<close>

datatype sntp_call = Sntp_Stop | Sntp_Init | Sntp_Setoperatingmode | Sntp_Setservername string | Sntp_Set_Notification_Cb
  | Sntp_Delay nat

definition initialize_sntp :: "sntp_call list" where
  "initialize_sntp = [Sntp_Setoperatingmode, Sntp_Setservername ''pool.ntp.org'', Sntp_Set_Notification_Cb, Sntp_Init]"

definition retry_count :: nat where "retry_count = 10"

text \<open>\<open>unset k\<close>: the status is still the initial one at the \<open>k\<close>-th question.\<close>

function wait_for_time :: "(nat \<Rightarrow> bool) \<Rightarrow> nat \<Rightarrow> nat \<Rightarrow> sntp_call list \<Rightarrow> nat \<times> sntp_call list" where
  "wait_for_time unset k retry cs =
     (if unset k
      then (if retry + 1 < retry_count then wait_for_time unset (k + 1) (retry + 1) (cs @ [Sntp_Delay 200]) else (retry + 1, cs))
      else (retry, cs))"
  by pat_completeness auto
termination
  by (relation "measure (\<lambda>(u, k, retry, cs). retry_count - retry)") auto

definition obtain_time :: "bool \<Rightarrow> (nat \<Rightarrow> bool) \<Rightarrow> bool \<times> sntp_call list" where
  "obtain_time enabled unset =
     (let cs = (if enabled then [Sntp_Stop, Sntp_Init] else initialize_sntp);
          (retry, cs) = wait_for_time unset 0 0 cs
      in (retry \<noteq> retry_count, cs))"

section \<open>Readings of the UV sensor\<close>

definition NO_OF_SAMPLES :: nat where "NO_OF_SAMPLES = 64"

text \<open>One round of the task: the variable of the sum keeps the average of the round before.\<close>

definition adc_round :: "u32 \<Rightarrow> u32 list \<Rightarrow> u32" where
  "adc_round adc_reading samples = fold (\<lambda>x sum. sum + x) samples adc_reading div of_nat NO_OF_SAMPLES"

section \<open>Theorems\<close>

declare wait_for_time.simps [simp del]

lemma wait_step:
  "wait_for_time unset k retry cs =
     (if unset k
      then (if retry + 1 < retry_count then wait_for_time unset (k + 1) (retry + 1) (cs @ [Sntp_Delay 200]) else (retry + 1, cs))
      else (retry, cs))"
  by (rule wait_for_time.simps)

lemma all_less_Suc_shift: "(\<forall>j < Suc n. P (k + j)) \<longleftrightarrow> P k \<and> (\<forall>j < n. P (Suc k + j))"
  by (auto simp: less_Suc_eq_0_disj)

lemma wait_gives_up:
  "retry + n = retry_count \<Longrightarrow> 0 < n \<Longrightarrow>
   fst (wait_for_time unset k retry cs) = retry_count \<longleftrightarrow> (\<forall>j < n. unset (k + j))"
proof (induction n arbitrary: k retry cs)
  case (Suc n)
  show ?case
  proof (cases "unset k \<and> 0 < n")
    case True
    with Suc.IH [of "Suc retry" "Suc k"] Suc.prems show ?thesis
      unfolding all_less_Suc_shift by (subst wait_step) simp
  next
    case False
    with Suc.prems show ?thesis
      unfolding all_less_Suc_shift by (subst wait_step) auto
  qed
qed simp

text \<open>The waits: as many as answers in a row say that the time is not set, but never after the last.\<close>

lemma wait_delays:
  "retry + n = retry_count \<Longrightarrow> 0 < n \<Longrightarrow>
   \<exists>m < n. snd (wait_for_time unset k retry cs) = cs @ replicate m (Sntp_Delay 200)
     \<and> (\<forall>j < m. unset (k + j)) \<and> (Suc m < n \<longrightarrow> \<not> unset (k + m))"
proof (induction n arbitrary: k retry cs)
  case (Suc n)
  show ?case
  proof (cases "unset k \<and> 0 < n")
    case True
    have "Suc retry + n = retry_count" using Suc.prems(1) by simp
    with Suc.IH [of "Suc retry" "Suc k" "cs @ [Sntp_Delay 200]"] True obtain m where
      m: "m < n" "snd (wait_for_time unset (Suc k) (Suc retry) (cs @ [Sntp_Delay 200])) = cs @ replicate (Suc m) (Sntp_Delay 200)"
        "\<forall>j < m. unset (Suc k + j)" "Suc m < n \<longrightarrow> \<not> unset (Suc k + m)"
      by auto
    have "snd (wait_for_time unset k retry cs) = cs @ replicate (Suc m) (Sntp_Delay 200)"
      using True Suc.prems m(2) by (subst wait_step) simp
    with m True all_less_Suc_shift [of m unset k] show ?thesis by (intro exI [of _ "Suc m"]) simp
  next
    case False
    with Suc.prems have "snd (wait_for_time unset k retry cs) = cs" by (subst wait_step) auto
    with False show ?thesis by (intro exI [of _ 0]) auto
  qed
qed simp

text \<open>
  C25: Getting the time ends, whatever the network answers: after the calls that start SNTP come at most nine waits of
  two seconds and nothing else, one wait for each answer at the beginning that says the time is not set.  It
  reports success exactly when one of the first ten answers shows that the time was set.
\<close>

theorem obtain_time_ends:
  "(fst (obtain_time enabled unset) \<longleftrightarrow> (\<exists>k < 10. \<not> unset k))
   \<and> (\<exists>n \<le> 9. snd (obtain_time enabled unset) = (if enabled then [Sntp_Stop, Sntp_Init] else initialize_sntp) @ replicate n (Sntp_Delay 200)
        \<and> (\<forall>j < n. unset j) \<and> (n = 9 \<or> \<not> unset n))"
proof -
  let ?start = "if enabled then [Sntp_Stop, Sntp_Init] else initialize_sntp"
  have "fst (wait_for_time unset 0 0 ?start) = retry_count \<longleftrightarrow> (\<forall>j < 10. unset j)"
    using wait_gives_up [of 0 10 unset 0 ?start] by (simp add: retry_count_def)
  moreover obtain n where "n < 10" "snd (wait_for_time unset 0 0 ?start) = ?start @ replicate n (Sntp_Delay 200)"
    "\<forall>j < n. unset j" "Suc n < 10 \<longrightarrow> \<not> unset n"
    using wait_delays [of 0 10 unset 0 ?start] by (auto simp: retry_count_def)
  moreover from this have "n \<le> 9" "n = 9 \<or> \<not> unset n" by auto
  ultimately show ?thesis unfolding obtain_time_def Let_def split_beta fst_conv snd_conv by blast
qed

theorem obtain_time_ends_witness:
  "fst (obtain_time True (\<lambda>k. k < 3)) \<and> snd (obtain_time True (\<lambda>k. k < 3)) = [Sntp_Stop, Sntp_Init] @ replicate 3 (Sntp_Delay 200)"
proof -
  obtain n where n: "snd (obtain_time True (\<lambda>k. k < 3)) = [Sntp_Stop, Sntp_Init] @ replicate n (Sntp_Delay 200)"
    "\<forall>j < n. j < (3::nat)" "n = 9 \<or> \<not> n < 3"
    using obtain_time_ends [of True "\<lambda>k. k < 3"] by auto
  from n(2) have "n \<le> 3" using less_irrefl not_le by metis
  with n have "n = 3" by auto
  moreover have "\<exists>k < 10. \<not> k < (3::nat)" by (rule exI [of _ 3]) simp
  ultimately show ?thesis using obtain_time_ends [of True "\<lambda>k. k < 3"] n(1) by simp
qed

lemma fold_add: "fold (\<lambda>x sum. sum + x) xs (a :: u32) = a + sum_list xs"
  by (induction xs arbitrary: a) (simp_all add: add_ac)

lemma adc_round_nat:
  assumes "unat a + 64 * unat r < 2 ^ 32"
  shows "unat (adc_round a (replicate 64 r)) = (unat a + 64 * unat r) div 64"
proof -
  have "(a + sum_list (replicate 64 r) :: u32) = of_nat (unat a + 64 * unat r)"
    by (simp add: sum_list_replicate)
  with assms have "unat (a + sum_list (replicate 64 r)) = unat a + 64 * unat r"
    by (simp only: unat_of_nat) (simp add: take_bit_nat_eq_self)
  then show ?thesis unfolding adc_round_def fold_add NO_OF_SAMPLES_def by (simp add: unat_div_distrib del: sum_list_replicate)
qed

text \<open>
  C40: The averages of the UV sensor are too high.  The sum of a round starts from the average of the round before,
  not from 0: with samples that are all \<open>r\<close> the first average is \<open>r\<close> and the next is \<open>r + r div 64\<close>.
\<close>

theorem uv_average_biased:
  assumes "unat r < 4096"
  shows "adc_round 0 (replicate 64 r) = r
    \<and> unat (adc_round (adc_round 0 (replicate 64 r)) (replicate 64 r)) = unat r + unat r div 64"
proof -
  have 1: "adc_round 0 (replicate 64 r) = r"
    using adc_round_nat [of 0 r] assms by (simp add: word_unat_eq_iff)
  with adc_round_nat [of r r] assms show ?thesis by simp
qed

theorem uv_average_biased_witness:
  "adc_round 0 (replicate 64 2048) = 2048 \<and> unat (adc_round 2048 (replicate 64 2048)) = 2080"
  using uv_average_biased [of 2048] by auto

lemma unat_wide: "unat (ucast (t :: u32) :: u64) = unat t"
  using unsigned_less [of t, where ?'a = nat] by (simp add: unsigned_ucast_eq take_bit_nat_eq_self)

lemma press_ticks:
  fixes t0 t1 :: u32
  assumes "t0 \<le> t1"
  shows "unat (ucast t1 - ucast t0 :: u64) = unat (t1 - t0)"
proof -
  have "(ucast t0 :: u64) \<le> ucast t1" using assms by (simp only: word_le_nat_alt unat_wide)
  then have "unat (ucast t1 - ucast t0 :: u64) = unat t1 - unat t0" by (simp only: unat_sub unat_wide)
  with unat_sub [OF assms] show ?thesis by simp
qed

lemma press_ms:
  assumes "uint t < 2 ^ 27"
  shows "sint (ucast ((t :: u64) * 10) :: u32) = 10 * uint t"
proof -
  have u: "uint (t * 10) = uint t * 10"
    using assms by (simp add: uint_word_ariths)
  have "(ucast (t * 10) :: u32) = word_of_int (uint (t * 10))" by simp
  then have "sint (ucast (t * 10) :: u32) = signed_take_bit (LENGTH(32) - 1) (uint t * 10)"
    by (simp only: sint_sbintrunc' u)
  also have "\<dots> = 10 * uint t"
  proof (subst signed_take_bit_int_eq_self)
    have "uint t < 134217728" using assms by simp
    with uint_ge_0 [of t] have "- 2147483648 \<le> uint t * 10" "uint t * 10 < 2147483648" by linarith+
    then show "- (2 ^ (LENGTH(32) - 1)) \<le> uint t * 10" "uint t * 10 < 2 ^ (LENGTH(32) - 1)" by simp_all
  qed simp
  finally show ?thesis .
qed

lemma press_bits:
  assumes "unat t < 2 ^ 27"
  shows "input_event_callback 0 t =
     (if unat t < 100 then [Event_press_short] else if 300 < unat t then [Event_press_long] else [])"
proof -
  define x where "x = unat t"
  have n: "uint t = int x" unfolding x_def by (rule uint_nat)
  have "int x < int (2 ^ 27)" using assms unfolding x_def by (simp only: of_nat_less_iff)
  with n have "uint t < 2 ^ 27" by simp
  from press_ms [OF this] have "sint (ucast (t * 10) :: u32) = 10 * int x" by (simp only: n)
  then show ?thesis unfolding x_def [symmetric] by (simp add: input_event_callback_def Let_def)
qed

text \<open>
  C23: What a press of the button does once the callbacks are set, by its length in ticks of 10 ms: below one second it sets
  the bit of the short press, up to three seconds it does nothing, from three seconds on the timer has called
  its callback, and above three seconds the bit of the long press is set as well.
\<close>

theorem button_press_meaning:
  assumes "t0 \<le> t1" "unat (t1 - t0) < 2 ^ 27"
  shows "button_press t0 t1 (timer_set_callback (Some cb) (input_set_callback (Some input_event_callback) i)) s = Some
    (if unat (t1 - t0) < 100 then [Event_press_short] else if unat (t1 - t0) \<le> 300 then [] else [Event_press_long],
     if 300 \<le> unat (t1 - t0) then cb s else s)"
  using assms press_ticks [OF assms(1)] press_bits [of "ucast t1 - ucast t0"]
  by (simp add: button_press_def gpio_input_handler_def vTimerCallback_def BUTTON_TIMER_TICKS_def Let_def
      timer_set_callback_def input_set_callback_def)

theorem button_press_meaning_witness:
  "button_press 1000 1350 (timer_set_callback (Some (\<lambda>n. n + 1)) (input_set_callback (Some input_event_callback) initial_input)) (7 :: nat)
     = Some ([Event_press_long], 8)"
  using button_press_meaning [of 1000 1350 "\<lambda>n. n + 1" initial_input "7 :: nat"] by simp

end
