(* ===== verification/App_Main.thy ===== *)
theory App_Main
  imports Wifi_Link Ds1302 Sd_Card Mqtt_App App_Io
begin

text \<open>
  The application (\<^verbatim>\<open>main/app_main.c\<close>): its tasks and what they share.  The connection decides which of
  two tasks runs, the one that writes records to the card or the one that publishes them; the clock's task joins
  the readings of the UV sensor and of the BME680 into records; commands arrive over MQTT and updates over HTTP.

  Tasks are named.  A task that suspends itself, a failed assertion and memory violations are \<open>None\<close>
  results of the function in question.
\<close>

section \<open>State\<close>

datatype wifi_state = ota | wifi_config | normal

datatype app_task = Toggle_Task | Mqtt_Task | Write_Task | Read_Task | Update_Task | Set_Clock_Task | Get_Clock_Task

text \<open>
  \<open>handles\<close>: the tasks whose handle is set; \<open>running\<close>: those that are not suspended; \<open>fresh\<close>: those that have not reached
  the \<^verbatim>\<open>vTaskSuspend(NULL)\<close> at their start yet.
\<close>

record app =
  STATE :: wifi_state
  state_write :: u8
  state_wifi :: u8
  number_of_days :: int
  led :: u32
  handles :: "app_task set"
  running :: "app_task set"
  fresh :: "app_task set"

definition initial_app :: app where
  "initial_app = \<lparr>STATE = normal, state_write = 1, state_wifi = 0, number_of_days = -1, led = 0,
     handles = {}, running = {}, fresh = {}\<rparr>"

text \<open>Suspending the NULL handle suspends the caller; resuming it fails an assertion.\<close>

definition vTaskSuspend :: "app_task \<Rightarrow> app \<Rightarrow> app option" where
  "vTaskSuspend t s = (if t \<in> handles s then Some (s\<lparr>running := running s - {t}\<rparr>) else None)"

definition vTaskResume :: "app_task \<Rightarrow> app \<Rightarrow> app option" where
  "vTaskResume t s = (if t \<in> handles s then Some (s\<lparr>running := insert t (running s)\<rparr>) else None)"

text \<open>The tasks of the update and for setting the clock are created without a place for their handle.\<close>

definition xTaskCreate :: "app_task \<Rightarrow> app \<Rightarrow> app" where
  "xTaskCreate t s = s\<lparr>handles := (if t \<in> {Update_Task, Set_Clock_Task} then handles s else insert t (handles s)),
     running := insert t (running s),
     fresh := (if t \<in> {Toggle_Task, Write_Task} then insert t (fresh s) else fresh s)\<rparr>"

section \<open>Connection\<close>

definition wifi_event_handler :: "wifi_event \<Rightarrow> app \<Rightarrow> app option" where
  "wifi_event_handler event s =
     (case event of
        WIFI_EVENT_STA_START \<Rightarrow> Some s
      | WIFI_EVENT_STA_DISCONNECTED r \<Rightarrow> do {
          s \<leftarrow> (if state_write s = 1
               then do { s \<leftarrow> vTaskResume Write_Task s; s \<leftarrow> vTaskSuspend Read_Task s; Some (s\<lparr>state_write := state_write s + 1\<rparr>) }
               else Some s);
          Some (s\<lparr>state_wifi := 0\<rparr>) }
      | IP_EVENT_STA_GOT_IP ip \<Rightarrow> do {
          s \<leftarrow> vTaskSuspend Write_Task s;
          s \<leftarrow> vTaskResume Read_Task s;
          vTaskSuspend Toggle_Task (s\<lparr>state_write := 1, state_wifi := 1, STATE := normal, led := 0\<rparr>) }
      | _ \<Rightarrow> Some s)"

section \<open>Button\<close>

text \<open>One round of the task that waits for the button's bits, which also orders the access point.\<close>

definition button_round :: "button_bit set \<Rightarrow> app \<times> wm \<Rightarrow> (app \<times> wm) option" where
  "button_round evs sw =
     (case sw of (s, w) \<Rightarrow>
        if Event_press_short \<in> evs
        then do { w \<leftarrow> change_state_wifi w; s \<leftarrow> vTaskResume Toggle_Task (s\<lparr>STATE := wifi_config\<rparr>); Some (s, w) }
        else Some (s, w))"

definition timer_event_callback :: "app \<Rightarrow> app" where
  "timer_event_callback s = xTaskCreate Update_Task (s\<lparr>STATE := ota, led := 1\<rparr>)"

text \<open>The blinking: the two levels of a round of the task, with the waits.\<close>

datatype toggle_step = Led u32 | Wait nat

definition toggle_round :: "toggle_step list" where
  "toggle_round = [Led 0, Wait 100, Led 1, Wait 100]"

section \<open>Commands over MQTT\<close>

text \<open>
  The queue holds a pointer to the data and their length; a full queue drops the message.  The pointer is an
  offset into the buffer of the MQTT client, from which the data are read when the message is handled.
\<close>

definition mqtt_handler :: "nat \<Rightarrow> int \<Rightarrow> (nat \<times> int) list \<Rightarrow> (nat \<times> int) list" where
  "mqtt_handler data data_len q = (if length q < 5 then q @ [(data, data_len)] else q)"

text \<open>\<^verbatim>\<open>strncpy\<close> writes exactly \<open>n\<close> bytes, no terminator when the source is not shorter.\<close>

definition c_strncpy :: "buf \<Rightarrow> string \<Rightarrow> nat \<Rightarrow> buf option" where
  "c_strncpy dst src n = buf_write 0 (take n (cstr (take n src) @ replicate n NUL)) dst"

text \<open>What the task reads of a parsed message: the strings of two members.\<close>

record command_json =
  json_OTA :: "string option"
  json_Rem :: "string option"

text \<open>The commands of a message: look for an update, switch the light.\<close>

definition run_command :: "command_json \<Rightarrow> app \<Rightarrow> app" where
  "run_command json s =
     (let s = (case json_OTA json of
                 Some v \<Rightarrow> if CHR ''1'' \<in> set v then xTaskCreate Update_Task s else s
               | None \<Rightarrow> s)
      in case json_Rem json of
           Some v \<Rightarrow> s\<lparr>led := if CHR ''1'' \<in> set v then 1 else 0\<rparr>
         | None \<Rightarrow> s)"

text \<open>
  A round of the task: the data are copied into an array of \<open>len + 1\<close> bytes on the stack, which holds \<open>garbage\<close>
  before; \<open>parse\<close> is cJSON.
\<close>

definition mqtt_handler_round :: "(string \<Rightarrow> command_json option) \<Rightarrow> buf \<Rightarrow> string \<Rightarrow> app \<Rightarrow> app option" where
  "mqtt_handler_round parse garbage data s = do {
     string_json \<leftarrow> c_strncpy (take (length data + 1) garbage) data (length data);
     string_json \<leftarrow> c_strcat string_json [];
     Some (case parse (cstr string_json) of None \<Rightarrow> s | Some json \<Rightarrow> run_command json s) }"

text \<open>The loop of the task: the next message of the queue, read from the client's buffer as it is by then.\<close>

definition mqtt_handler_task :: "(string \<Rightarrow> command_json option) \<Rightarrow> buf \<Rightarrow> string \<Rightarrow> (nat \<times> int) list \<times> app
    \<Rightarrow> ((nat \<times> int) list \<times> app) option" where
  "mqtt_handler_task parse garbage buffer qs =
     (case qs of
        ([], s) \<Rightarrow> None
      | ((data, data_len) # q, s) \<Rightarrow>
          if data + nat data_len \<le> length buffer
          then map_option (Pair q) (mqtt_handler_round parse garbage (take (nat data_len) (drop data buffer)) s)
          else None)"

section \<open>Update\<close>

datatype http_event = HTTP_EVENT_ERROR | HTTP_EVENT_ON_CONNECTED | HTTP_EVENT_HEADER_SENT | HTTP_EVENT_ON_HEADER
  | HTTP_EVENT_ON_DATA bool string | HTTP_EVENT_ON_FINISH | HTTP_EVENT_DISCONNECTED

text \<open>The data of a response that is not chunked go to the front of a static buffer of 200 bytes.\<close>

definition http_event_handler :: "http_event \<Rightarrow> buf \<Rightarrow> buf option" where
  "http_event_handler evt rcv_buffer =
     (case evt of
        HTTP_EVENT_ON_DATA chunked data \<Rightarrow> (if \<not> chunked then c_strncpy rcv_buffer data (length data) else Some rcv_buffer)
      | _ \<Rightarrow> Some rcv_buffer)"

text \<open>The parsed update file: whether the version is a number greater than the running one, and the file's name.\<close>

datatype version = No_Number | Newer | Not_Newer

record update_json =
  json_version :: version
  json_file :: "string option"

datatype update_step = Http_Perform | Https_Ota string | Restart | Http_Cleanup | Update_Delay nat

text \<open>What a parsed answer leads to; \<open>ota_err\<close> is the error of the installation.  A restart ends the round.\<close>

definition update_steps :: "update_json option \<Rightarrow> (string \<Rightarrow> int) \<Rightarrow> update_step list" where
  "update_steps json ota_err =
     (let finish = [Http_Cleanup, Update_Delay 3000];
          upgrade = (\<lambda>file. Https_Ota file # (if ota_err file = ESP_OK then [Restart] else finish))
      in case json of
           None \<Rightarrow> finish
         | Some j \<Rightarrow>
             (case json_version j of
                No_Number \<Rightarrow> finish
              | Newer \<Rightarrow> (case json_file j of Some file \<Rightarrow> upgrade file | None \<Rightarrow> finish)
              | Not_Newer \<Rightarrow> finish))"

text \<open>
  A round of the task that looks for an update: \<open>err\<close> is the error of the request, \<open>parse\<close> is cJSON, which reads the
  buffer up to its terminator, beyond its end when there is none.
\<close>

definition check_update_round :: "int \<Rightarrow> buf \<Rightarrow> (string \<Rightarrow> update_json option) \<Rightarrow> (string \<Rightarrow> int) \<Rightarrow> update_step list option" where
  "check_update_round err rcv_buffer parse ota_err =
     (if err = ESP_OK
      then (if NUL \<in> set rcv_buffer then Some (Http_Perform # update_steps (parse (cstr rcv_buffer)) ota_err) else None)
      else Some [Http_Perform, Http_Cleanup, Update_Delay 3000])"

section \<open>Records on their way\<close>

text \<open>
  A record in the queue holds the readings by value and the time by its address: \<open>time_str\<close>, an array of the
  clock's task, is read when the record is used.
\<close>

record 'f store =
  card :: sd_state
  client :: mqtt_state
  sensor_queue :: "('f \<times> 'f bme680_values_float) list"
  time_str :: string

definition received :: "int \<Rightarrow> string \<Rightarrow> 'f \<times> 'f bme680_values_float \<Rightarrow> 'f module_data" where
  "received unset_id time q =
     \<lparr>md_id = unset_id, md_uv_values = fst q, md_time_values = Points time, md_bme680_values = snd q\<rparr>"

definition publish_record :: "('f \<Rightarrow> string) \<Rightarrow> 'f module_data \<Rightarrow> mqtt_state \<Rightarrow> mqtt_state option" where
  "publish_record fmt d m =
     (case md_time_values d of
        Nowhere \<Rightarrow> None
      | Points time \<Rightarrow>
          mqtt_app_pub_json fmt time (float_temperature (md_bme680_values d)) (float_humidity (md_bme680_values d))
            (float_pressure (md_bme680_values d)) (float_gas_resistance (md_bme680_values d)) (md_uv_values d) m)"

text \<open>One round of the task that writes to the card: it waits for a record.  Its identifier was never set.\<close>

definition write_round :: "('f \<Rightarrow> string) \<Rightarrow> bool \<Rightarrow> int \<Rightarrow> 'f store \<Rightarrow> 'f store option" where
  "write_round fmt opens unset_id st =
     (case sensor_queue st of
        [] \<Rightarrow> None
      | q # qs \<Rightarrow> do {
          c \<leftarrow> sd_card_write fmt opens (received unset_id (time_str st) q) (card st);
          Some (st\<lparr>card := c, sensor_queue := qs\<rparr>) })"

text \<open>The loop that publishes what is on the card, line by line.\<close>

fun publish_card :: "('f \<Rightarrow> string) \<Rightarrow> (string \<Rightarrow> 'f) \<Rightarrow> 'f module_data \<Rightarrow> nat \<Rightarrow> u32 \<Rightarrow> sd_state \<Rightarrow> mqtt_state \<Rightarrow> mqtt_state option" where
  "publish_card fmt atof garbage 0 line c m = Some m"
| "publish_card fmt atof garbage (Suc j) line c m = do {
     d \<leftarrow> sd_card_read atof garbage line c;
     m \<leftarrow> publish_record fmt d m;
     publish_card fmt atof garbage j (line + 1) c m }"

definition read_round :: "('f \<Rightarrow> string) \<Rightarrow> (string \<Rightarrow> 'f) \<Rightarrow> 'f module_data \<Rightarrow> int \<Rightarrow> 'f store \<Rightarrow> 'f store option" where
  "read_round fmt atof garbage unset_id st =
     (if sd_file (card st) \<noteq> None
      then do {
        m \<leftarrow> publish_card fmt atof garbage (unat (sd_id (card st))) 2 (card st) (client st);
        Some (st\<lparr>client := m, card := \<lparr>sd_file = None, sd_id = 0\<rparr>\<rparr>) }
      else case sensor_queue st of
        [] \<Rightarrow> None
      | q # qs \<Rightarrow> do {
          m \<leftarrow> publish_record fmt (received unset_id (time_str st) q) (client st);
          Some (st\<lparr>client := m, sensor_queue := qs\<rparr>) })"

section \<open>Clock\<close>

definition time_text :: "DS1302_DateTime \<Rightarrow> string" where
  "time_text dt = show_nat (unat (dt_year dt)) @ ''/'' @ show_nat (unat (dt_month dt)) @ ''/'' @ show_nat (unat (dt_dayMonth dt)) @ '' '' @
     show_nat (unat (dt_hour dt)) @ '':'' @ show_nat (unat (dt_minute dt)) @ '':'' @ show_nat (unat (dt_second dt))"

text \<open>Whether the clock is to be set: after a connection, at the start and on every new day.\<close>

definition clock_due :: "DS1302_DateTime \<Rightarrow> app \<Rightarrow> bool" where
  "clock_due dt s \<longleftrightarrow>
     (number_of_days s = -1 \<and> state_wifi s = 1) \<or> (uint (dt_dayWeek dt) \<noteq> number_of_days s \<and> state_wifi s = 1)"

text \<open>The start of the clock's task: without a chip that runs it waits forever.\<close>

definition clock_start :: "'w gpio \<Rightarrow> 'w \<Rightarrow> (DS1302_Dev \<times> 'w) option" where
  "clock_start g w = (let (begun, dev, w) = DS1302_begin g 12 13 14 w in if begun then Some (dev, w) else None)"

text \<open>The task creates the one that sets the clock and suspends itself; resumed, it stores the day it had read before.\<close>

definition clock_suspends :: "app \<Rightarrow> app" where
  "clock_suspends s = (let s = xTaskCreate Set_Clock_Task s in s\<lparr>running := running s - {Get_Clock_Task}\<rparr>)"

definition clock_resumed :: "DS1302_DateTime \<Rightarrow> app \<Rightarrow> app" where
  "clock_resumed dt s = s\<lparr>number_of_days := uint (dt_dayWeek dt)\<rparr>"

text \<open>
  One round of the clock's task.  \<open>others\<close> is what the other tasks make of the state and of the world while this task is
  suspended, \<open>None\<close> if nothing ever resumes it.  A full queue blocks.
\<close>

definition clock_round :: "'w gpio \<Rightarrow> DS1302_Dev \<Rightarrow> (app \<times> 'w \<Rightarrow> (app \<times> 'w) option) \<Rightarrow> 'f \<Rightarrow> 'f bme680_values_float
    \<Rightarrow> app \<times> 'f store \<times> 'w \<Rightarrow> (app \<times> 'f store \<times> 'w) option" where
  "clock_round g dev others uv bme sw =
     (case sw of (s, st, w) \<Rightarrow>
      let ((ok, dt), w) = DS1302_getDateTime g dev w
      in do {
        (s, w) \<leftarrow> (if clock_due dt s
                  then do { (s, w) \<leftarrow> others (clock_suspends s, w); Some (clock_resumed dt s, w) }
                  else Some (s, w));
        time \<leftarrow> c_strcpy (replicate 26 NUL) (time_text dt);
        if length (sensor_queue st) < 5
        then Some (s, st\<lparr>time_str := cstr time, sensor_queue := sensor_queue st @ [(uv, bme)]\<rparr>, w)
        else None })"

text \<open>The broken-down time of the C library.\<close>

record tm =
  tm_sec :: int
  tm_min :: int
  tm_hour :: int
  tm_mday :: int
  tm_mon :: int
  tm_year :: int
  tm_wday :: int

definition DateTime_of_tm :: "tm \<Rightarrow> DS1302_DateTime" where
  "DateTime_of_tm t = \<lparr>dt_second = word_of_int (tm_sec t), dt_minute = word_of_int (tm_min t), dt_hour = word_of_int (tm_hour t),
     dt_dayWeek = word_of_int (tm_wday t), dt_dayMonth = word_of_int (tm_mday t), dt_month = word_of_int (tm_mon t + 1),
     dt_year = word_of_int (tm_year t + 1900)\<rparr>"

text \<open>The task that sets the clock; where it fails it waits forever.\<close>

definition set_clock_task :: "'w gpio \<Rightarrow> bool \<Rightarrow> tm \<Rightarrow> app \<times> 'w \<Rightarrow> (app \<times> 'w) option" where
  "set_clock_task g obtained timeinfo sw =
     (case sw of (s, w) \<Rightarrow>
      if \<not> obtained then None
      else (let (begun, dev, w) = DS1302_begin g 12 13 14 w
            in if \<not> begun then None
            else (let dt = DateTime_of_tm timeinfo;
                      w = DS1302_setDateTime g dev dt w;
                      (protected, w) = DS1302_isWriteProtected g dev w
                  in if protected then None
                  else (let (halted, w) = DS1302_isHalted g dev w
                        in if halted then None
                        else do {
                          s \<leftarrow> vTaskResume Get_Clock_Task (s\<lparr>number_of_days := uint (dt_dayWeek dt)\<rparr>);
                          Some (s\<lparr>running := running s - {Set_Clock_Task}\<rparr>, w) }))))"

section \<open>The sensor's task\<close>

text \<open>The start: only the first two calls are checked.\<close>

definition bme680_test_start :: "('f, 'd) floating \<Rightarrow> bus \<Rightarrow> bme_state \<Rightarrow> (u32 option \<times> bme_state) option" where
  "bme680_test_start F B s = do {
     (e, s) \<leftarrow> bme680_init_desc B True BME680_I2C_ADDR_1 0 21 22 s;
     (e, s) \<leftarrow> (if e = ESP_OK then bme680_init_sensor F B True s else None);
     if e \<noteq> ESP_OK then None
     else do {
       (_, s) \<leftarrow> bme680_set_oversampling_rates B True 3 3 2 s;
       (_, s) \<leftarrow> bme680_set_filter_size B True 3 s;
       (_, s) \<leftarrow> bme680_set_heater_profile F B True 0 200 100 s;
       (_, s) \<leftarrow> bme680_use_heater_profile B True 0 s;
       (_, s) \<leftarrow> bme680_set_ambient_temperature F B True 25 s;
       Some (snd (bme680_get_measurement_duration True True s), s) } }"

text \<open>A round: a measurement, and the values are sent to the queue, measured or not.\<close>

definition bme680_test_round :: "('f, 'd) floating \<Rightarrow> bus \<Rightarrow> u32 \<Rightarrow> 'f bme680_values_float \<Rightarrow> bme_state
    \<Rightarrow> ('f bme680_values_float \<times> bme_state) option" where
  "bme680_test_round F B duration bme680_data s = do {
     (e, s) \<leftarrow> bme680_force_measurement B True s;
     if e = ESP_OK
     then do {
       (_, r, s) \<leftarrow> bme680_get_results_float F B True (Some bme680_data) (bus_act B (Task_Delay duration) s);
       Some (case r of Some v \<Rightarrow> v | None \<Rightarrow> bme680_data, s) }
     else Some (bme680_data, s) }"

fun bme680_test_rounds :: "('f, 'd) floating \<Rightarrow> bus \<Rightarrow> u32 \<Rightarrow> nat \<Rightarrow> 'f bme680_values_float \<Rightarrow> bme_state
    \<Rightarrow> ('f bme680_values_float list \<times> bme_state) option" where
  "bme680_test_rounds F B duration 0 v s = Some ([], s)"
| "bme680_test_rounds F B duration (Suc n) v s = do {
     (v, s) \<leftarrow> bme680_test_round F B duration v s;
     (vs, s) \<leftarrow> bme680_test_rounds F B duration n v s;
     Some (v # vs, s) }"

section \<open>The UV sensor's task\<close>

text \<open>The intensity from a voltage in mV; the division by 1000 is in \<^verbatim>\<open>float\<close>, the rest in \<^verbatim>\<open>double\<close>.\<close>

definition ml851_uv_intensity :: "('f, 'd) floating \<Rightarrow> u32 \<Rightarrow> 'f" where
  "ml851_uv_intensity F voltage =
     narrow F (d_div F (d_mul F (d_sub F (widen F (f_div F (f_of_i F (uint voltage)) (f_of_i F 1000))) (lit F 0.99)) (of_i F 15))
       (lit F 1.81))"

text \<open>
  A round: \<open>to_voltage\<close> is the calibration of the ADC; the variable of the sum is kept.  A full queue blocks.
\<close>

definition ml8511_read_round :: "('f, 'd) floating \<Rightarrow> (u32 \<Rightarrow> u32) \<Rightarrow> u32 list \<Rightarrow> u32 \<times> 'f list \<Rightarrow> (u32 \<times> 'f list) option" where
  "ml8511_read_round F to_voltage samples rq =
     (case rq of (adc_reading, uv_queue) \<Rightarrow>
      let adc_reading = adc_round adc_reading samples;
          uv_index = ml851_uv_intensity F (to_voltage adc_reading)
      in if length uv_queue < 5 then Some (adc_reading, uv_queue @ [uv_index]) else None)"

section \<open>Which task runs\<close>

text \<open>What happens to the shared state: tasks are created once, start, and events arrive in any order.\<close>

inductive app_step :: "'w gpio \<Rightarrow> wifi_event option \<Rightarrow> app \<Rightarrow> app \<Rightarrow> bool" for g where
  create: "t \<notin> handles s \<Longrightarrow> app_step g None s (xTaskCreate t s)"
| start: "t \<in> running s \<Longrightarrow> t \<in> fresh s \<Longrightarrow> app_step g None s (s\<lparr>running := running s - {t}, fresh := fresh s - {t}\<rparr>)"
| event: "wifi_event_handler ev s = Some s' \<Longrightarrow> app_step g (Some ev) s s'"
| button: "button_round evs (s, w) = Some (s', w') \<Longrightarrow> app_step g None s s'"
| timer: "app_step g None s (timer_event_callback s)"
| command: "mqtt_handler_round parse garbage data s = Some s' \<Longrightarrow> app_step g None s s'"
| clock: "clock_due dt s \<Longrightarrow> app_step g None s (clock_suspends s)"
| resumed: "app_step g None s (clock_resumed dt s)"
| set_clock: "set_clock_task g obtained t (s, w) = Some (s', w') \<Longrightarrow> app_step g None s s'"

inductive app_reachable :: "'w gpio \<Rightarrow> app \<Rightarrow> bool" for g where
  init: "app_reachable g initial_app"
| step: "app_reachable g s \<Longrightarrow> app_step g l s s' \<Longrightarrow> app_reachable g s'"

text \<open>Any number of steps, with the events among them.\<close>

inductive app_run :: "'w gpio \<Rightarrow> wifi_event option list \<Rightarrow> app \<Rightarrow> app \<Rightarrow> bool" for g where
  run_none: "app_run g [] s s"
| run_step: "app_step g l s s1 \<Longrightarrow> app_run g ls s1 s2 \<Longrightarrow> app_run g (l # ls) s s2"

inductive_cases app_stepE: "app_step g l s s'"

fun connects :: "wifi_event option \<Rightarrow> bool" where
  "connects (Some (IP_EVENT_STA_GOT_IP ip)) \<longleftrightarrow> True"
| "connects _ \<longleftrightarrow> False"

definition connected_ok :: "app \<Rightarrow> bool" where
  "connected_ok s \<longleftrightarrow> state_write s = 1 \<and> Read_Task \<in> running s \<and> Write_Task \<notin> running s
     \<and> Read_Task \<in> handles s \<and> Write_Task \<in> handles s"

definition offline_ok :: "app \<Rightarrow> bool" where
  "offline_ok s \<longleftrightarrow> state_wifi s = 0 \<and> Read_Task \<notin> running s \<and> Read_Task \<in> handles s \<and> Write_Task \<in> handles s"

definition app_inv :: "app \<Rightarrow> bool" where
  "app_inv s \<longleftrightarrow> (state_write s = 1 \<or> state_write s = 2) \<and> (state_wifi s = 0 \<or> state_wifi s = 1)
     \<and> fresh s \<subseteq> {Toggle_Task, Write_Task}
     \<and> (state_wifi s = 1 \<longrightarrow> connected_ok s) \<and> (state_write s = 2 \<longrightarrow> offline_ok s)"

lemmas app_inv_defs = app_inv_def connected_ok_def offline_ok_def

text \<open>The invariant looks at the two tasks only.\<close>

lemma inv_other:
  "app_inv s \<Longrightarrow> t \<notin> {Read_Task, Write_Task} \<Longrightarrow> app_inv (xTaskCreate t s)"
  "app_inv s \<Longrightarrow> app_inv (s\<lparr>led := l\<rparr>)"
  "app_inv s \<Longrightarrow> app_inv (s\<lparr>STATE := x\<rparr>)"
  "app_inv s \<Longrightarrow> app_inv (s\<lparr>number_of_days := n\<rparr>)"
  "app_inv s \<Longrightarrow> t \<notin> {Read_Task, Write_Task} \<Longrightarrow> app_inv (s\<lparr>running := running s - {t}\<rparr>)"
  by (auto simp: app_inv_defs xTaskCreate_def)

lemma inv_resume: "vTaskResume t s = Some s' \<Longrightarrow> app_inv s \<Longrightarrow> t \<notin> {Read_Task, Write_Task} \<Longrightarrow> app_inv s'"
  by (auto simp: app_inv_defs vTaskResume_def split: if_splits)

lemma inv_create: "app_inv s \<Longrightarrow> t \<notin> handles s \<Longrightarrow> app_inv (xTaskCreate t s)"
  by (auto simp: app_inv_defs xTaskCreate_def)

lemma inv_start: "app_inv s \<Longrightarrow> t \<in> fresh s \<Longrightarrow> app_inv (s\<lparr>running := running s - {t}, fresh := fresh s - {t}\<rparr>)"
  by (auto simp: app_inv_defs)

lemma inv_event: "wifi_event_handler ev s = Some s' \<Longrightarrow> app_inv s \<Longrightarrow> app_inv s'"
  by (cases ev)
    (auto simp: wifi_event_handler_def app_inv_defs vTaskResume_def vTaskSuspend_def split: if_splits)

lemma inv_button: "button_round evs (s, w) = Some (s', w') \<Longrightarrow> app_inv s \<Longrightarrow> app_inv s'"
  by (auto simp: button_round_def split: if_splits elim!: inv_resume intro: inv_other)

lemma inv_timer: "app_inv s \<Longrightarrow> app_inv (timer_event_callback s)"
  unfolding timer_event_callback_def by (auto simp: app_inv_defs xTaskCreate_def)

lemma inv_run_command: "app_inv s \<Longrightarrow> app_inv (run_command json s)"
  by (cases "json_OTA json"; cases "json_Rem json") (simp_all add: run_command_def inv_other)

lemma inv_command: "mqtt_handler_round parse garbage data s = Some s' \<Longrightarrow> app_inv s \<Longrightarrow> app_inv s'"
  by (auto simp: mqtt_handler_round_def inv_run_command split: option.splits)

lemma inv_clock: "app_inv s \<Longrightarrow> app_inv (clock_suspends s)"
  unfolding clock_suspends_def by (auto simp: app_inv_defs xTaskCreate_def)

lemma inv_resumed: "app_inv s \<Longrightarrow> app_inv (clock_resumed dt s)"
  unfolding clock_resumed_def by (rule inv_other)

lemma inv_set_clock: "set_clock_task g ob t (s, w) = Some (s', w') \<Longrightarrow> app_inv s \<Longrightarrow> app_inv s'"
  by (auto simp: set_clock_task_def Let_def split_beta split: if_splits intro!: inv_other dest: inv_resume [OF _ inv_other(4)])

lemma inv_step: "app_step g l s s' \<Longrightarrow> app_inv s \<Longrightarrow> app_inv s'"
  by (cases rule: app_step.cases, assumption)
    (auto intro: inv_create inv_start inv_event inv_button inv_timer inv_command inv_clock inv_resumed inv_set_clock)

lemma inv_reachable: "app_reachable g s \<Longrightarrow> app_inv s"
proof (induction rule: app_reachable.induct)
  case init
  then show ?case by (simp add: app_inv_defs initial_app_def)
next
  case (step s l s')
  then show ?case by (blast intro: inv_step)
qed

text \<open>
  The state after a loss: the flag tells that the tasks were switched.  It stays so until a connection comes
  up, and the writing task, once past its start, keeps running.
\<close>

lemma other_tasks_kept:
  "state_write (xTaskCreate t s) = state_write s" "fresh (xTaskCreate t s) \<subseteq> fresh s \<union> {t}"
  "running (xTaskCreate t s) = insert t (running s)"
  "vTaskResume t s = Some s' \<Longrightarrow> state_write s' = state_write s \<and> fresh s' = fresh s \<and> running s' = insert t (running s)"
  by (auto simp: xTaskCreate_def vTaskResume_def split: if_splits)

lemma run_command_kept:
  "state_write (run_command json s) = state_write s" "fresh (run_command json s) = fresh s"
  "running s \<subseteq> running (run_command json s)"
  by (auto simp: run_command_def xTaskCreate_def split: option.splits)

definition writing :: "app \<Rightarrow> bool" where
  "writing s \<longleftrightarrow> Write_Task \<in> running s \<and> Write_Task \<notin> fresh s"

lemma step_after_loss:
  assumes "app_step g l s s'" "\<not> connects l" "state_write s = 2" "Write_Task \<in> handles s"
  shows "state_write s' = 2 \<and> (writing s \<longrightarrow> writing s')"
  using assms(1)
proof cases
  case (event ev)
  then show ?thesis using assms
    by (cases ev) (auto simp: wifi_event_handler_def writing_def split: if_splits)
next
  case (command parse garbage data)
  then show ?thesis
    using assms(3) run_command_kept(3) [THEN subsetD]
    by (auto simp: mqtt_handler_round_def writing_def run_command_kept(1,2) split: option.splits)
next
  case (set_clock obtained t w w')
  then show ?thesis using assms(3)
    by (auto simp: set_clock_task_def Let_def split_beta writing_def split: if_splits dest!: other_tasks_kept(4))
qed (use assms(3,4) in \<open>auto simp: button_round_def timer_event_callback_def clock_suspends_def clock_resumed_def xTaskCreate_def writing_def
    split: if_splits dest!: other_tasks_kept(4)\<close>)

lemma run_after_loss:
  "app_run g ls s s' \<Longrightarrow> app_inv s \<Longrightarrow> state_write s = 2 \<Longrightarrow> \<forall>l \<in> set ls. \<not> connects l \<Longrightarrow>
   Read_Task \<notin> running s' \<and> (writing s \<longrightarrow> writing s')"
proof (induction rule: app_run.induct)
  case (run_none s)
  then show ?case by (simp add: app_inv_defs)
next
  case (run_step l s s1 ls s2)
  have "Write_Task \<in> handles s" using run_step.prems(1,2) by (simp add: app_inv_defs)
  with step_after_loss [OF run_step.hyps(1)] run_step.prems have "state_write s1 = 2 \<and> (writing s \<longrightarrow> writing s1)" by simp
  moreover have "app_inv s1" using inv_step [OF run_step.hyps(1) run_step.prems(1)] .
  ultimately show ?case using run_step.IH run_step.prems(3) by simp
qed

lemma loss_switches:
  "wifi_event_handler (WIFI_EVENT_STA_DISCONNECTED r) s = Some s' \<Longrightarrow> app_inv s \<Longrightarrow>
   state_write s' = 2 \<and> (state_write s = 1 \<longrightarrow> Write_Task \<in> running s' \<and> fresh s' = fresh s)"
  by (auto simp: wifi_event_handler_def vTaskResume_def vTaskSuspend_def app_inv_defs split: if_splits)

text \<open>
  C11: Records go one way at a time.  In every state the application can reach, while there is a connection the
  task that publishes runs and the one that writes to the card does not.  When the connection is lost, then through
  whatever happens up to the next connection the publishing task does not run; the loss resumes the
  writing task, which from then on runs all the time once it is past the \<^verbatim>\<open>vTaskSuspend(NULL)\<close> at its start.
\<close>

theorem records_go_one_way:
  assumes "app_reachable g s"
  shows "(state_wifi s = 1 \<longrightarrow> Read_Task \<in> running s \<and> Write_Task \<notin> running s)
    \<and> (\<forall>r s1 ls s2. wifi_event_handler (WIFI_EVENT_STA_DISCONNECTED r) s = Some s1 \<longrightarrow> app_run g ls s1 s2 \<longrightarrow>
         (\<forall>l \<in> set ls. \<not> connects l) \<longrightarrow>
         Read_Task \<notin> running s2
         \<and> (state_wifi s = 1 \<longrightarrow> Write_Task \<in> running s1 \<and> (Write_Task \<notin> fresh s \<longrightarrow> Write_Task \<in> running s2)))"
proof (intro conjI allI impI)
  have inv: "app_inv s" by (rule inv_reachable [OF assms])
  show "state_wifi s = 1 \<Longrightarrow> Read_Task \<in> running s" "state_wifi s = 1 \<Longrightarrow> Write_Task \<notin> running s"
    using inv by (auto simp: app_inv_defs)
  fix r s1 ls s2
  assume e: "wifi_event_handler (WIFI_EVENT_STA_DISCONNECTED r) s = Some s1" and run: "app_run g ls s1 s2"
    and l: "\<forall>l \<in> set ls. \<not> connects l"
  have after: "Read_Task \<notin> running s2 \<and> (writing s1 \<longrightarrow> writing s2)"
    using run_after_loss [OF run inv_event [OF e inv] _ l] loss_switches [OF e inv] by simp
  then show "Read_Task \<notin> running s2" by simp
  assume "state_wifi s = 1"
  then have w: "Write_Task \<in> running s1" "fresh s1 = fresh s" using loss_switches [OF e inv] inv by (auto simp: app_inv_defs)
  then show "Write_Task \<in> running s1" by simp
  assume "Write_Task \<notin> fresh s"
  with w after show "Write_Task \<in> running s2" by (simp add: writing_def)
qed

theorem records_go_one_way_witness:
  "\<exists>s s1 s2. app_reachable bench_gpio s \<and> state_wifi s = 1 \<and> Read_Task \<in> running s \<and> Write_Task \<notin> running s
     \<and> wifi_event_handler (WIFI_EVENT_STA_DISCONNECTED 8) s = Some s1 \<and> app_run bench_gpio [None, Some (WIFI_EVENT_STA_DISCONNECTED 8)] s1 s2
     \<and> Write_Task \<in> running s2 \<and> Read_Task \<notin> running s2"
proof -
  let ?s = "xTaskCreate Read_Task (xTaskCreate Write_Task (xTaskCreate Toggle_Task initial_app))"
  let ?past = "?s\<lparr>running := running ?s - {Write_Task}, fresh := fresh ?s - {Write_Task}\<rparr>"
  have "app_reachable bench_gpio (xTaskCreate Toggle_Task initial_app)"
    by (rule app_reachable.step [OF app_reachable.init app_step.create]) (simp add: initial_app_def)
  then have "app_reachable bench_gpio (xTaskCreate Write_Task (xTaskCreate Toggle_Task initial_app))"
    by (rule app_reachable.step [OF _ app_step.create]) (simp add: initial_app_def xTaskCreate_def)
  then have "app_reachable bench_gpio ?s"
    by (rule app_reachable.step [OF _ app_step.create]) (simp add: initial_app_def xTaskCreate_def)
  then have r: "app_reachable bench_gpio ?past"
    by (rule app_reachable.step [OF _ app_step.start]) (simp_all add: xTaskCreate_def)
  obtain s where e: "wifi_event_handler (IP_EVENT_STA_GOT_IP 0) ?past = Some s" and w: "state_wifi s = 1"
    and f: "Write_Task \<notin> fresh s" and h: "state_write s = 1" "Write_Task \<in> handles s" "Read_Task \<in> handles s"
    by (simp add: wifi_event_handler_def vTaskResume_def vTaskSuspend_def xTaskCreate_def)
  have rs: "app_reachable bench_gpio s" by (rule app_reachable.step [OF r app_step.event [OF e]])
  obtain s1 where d: "wifi_event_handler (WIFI_EVENT_STA_DISCONNECTED 8) s = Some s1" and n: "state_write s1 = 2"
    using h by (simp add: wifi_event_handler_def vTaskResume_def vTaskSuspend_def)
  let ?n = "timer_event_callback s1"
  have d2: "wifi_event_handler (WIFI_EVENT_STA_DISCONNECTED 8) ?n = Some (?n\<lparr>state_wifi := 0\<rparr>)"
    using n by (simp add: wifi_event_handler_def timer_event_callback_def xTaskCreate_def)
  have run: "app_run bench_gpio [None, Some (WIFI_EVENT_STA_DISCONNECTED 8)] s1 (?n\<lparr>state_wifi := 0\<rparr>)"
    by (rule app_run.run_step [OF app_step.timer app_run.run_step [OF app_step.event [OF d2] app_run.run_none]])
  from records_go_one_way [OF rs] w f d run rs show ?thesis by fastforce
qed

section \<open>The sensor's task gets stuck\<close>

lemma force_refused: "meas_started (sensor s) \<Longrightarrow> bme680_force_measurement B True s = Some (ESP_ERR_INVALID_STATE, s)"
  by (simp add: bme680_force_measurement_def CHECK_ARG_def)

lemma stuck_rounds:
  "meas_started (sensor s) \<Longrightarrow> bme680_test_rounds F B duration n v s = Some (replicate n v, s)"
  by (induction n) (simp_all add: bme680_test_round_def force_refused)

text \<open>
  C22: One missed result silences the sensor.  When a round of the task ends without having read its
  results, because the status could not be read or showed no new data, the measurement counts as started; from then on
  every round refuses to start another one, does not touch the bus, and sends the old values again.
\<close>

theorem sensor_stuck:
  assumes "bme680_test_round F B duration v s = Some (v1, s1)" "meas_started (sensor s1)"
  shows "bme680_test_rounds F B duration (Suc n) v s = Some (replicate (Suc n) v1, s1)"
  using assms(1) stuck_rounds [OF assms(2)] by simp

definition old_values :: "rat bme680_values_float" where
  "old_values = \<lparr>float_temperature = 21.5, float_pressure = 1013.25, float_humidity = 40, float_gas_resistance = 50000\<rparr>"

theorem sensor_stuck_witness:
  "\<exists>s1. bme680_test_rounds bench_floats (bench_with 0 [0x20]) 14 100 old_values bench_bme = Some (replicate 100 old_values, s1)
     \<and> meas_started (sensor s1)"
proof -
  obtain s1 where r: "bme680_test_round bench_floats (bench_with 0 [0x20]) 14 old_values bench_bme = Some (old_values, s1)"
    and m: "meas_started (sensor s1)"
    by (simp add: bme680_test_round_def bme680_force_measurement_def bme680_set_mode_def bme680_get_results_float_def
        bme680_get_results_fixed_def bme680_get_raw_data_def new_data_def read_reg_8_def macro_defs transfer_defs
        bench_bme_defs Let_def split_beta)
  from sensor_stuck [OF r m, of 99] m show ?thesis by auto
qed

section \<open>Times of the records\<close>

lemma time_parts:
  "length (time_text dt) \<le> 25"
proof -
  have u8: "length (show_nat (unat (x :: u8))) \<le> 3" for x
    using unsigned_less [of x, where ?'a = nat] by (intro length_show_nat) simp_all
  have u16: "length (show_nat (unat (x :: u16))) \<le> 5" for x
    using unsigned_less [of x, where ?'a = nat] by (intro length_show_nat) simp_all
  show ?thesis
    using u16 [of "dt_year dt"] u8 [of "dt_month dt"] u8 [of "dt_dayMonth dt"] u8 [of "dt_hour dt"] u8 [of "dt_minute dt"]
      u8 [of "dt_second dt"]
    by (simp add: time_text_def)
qed

lemma NUL_time_text: "NUL \<notin> set (time_text dt)"
  by (simp add: time_text_def)

text \<open>The text of any time fits the array of 26 bytes.\<close>

lemma time_text_fits: "\<exists>b. c_strcpy (replicate 26 NUL) (time_text dt) = Some b \<and> cstr b = time_text dt"
  using time_parts [of dt] NUL_time_text [of dt] by (simp add: c_strcpy_eq)

lemma clock_round_store:
  assumes "clock_round g dev others uv bme (s, st, w) = Some (s', st', w')"
  shows "\<exists>ok dt. fst (DS1302_getDateTime g dev w) = (ok, dt) \<and>
    st' = st\<lparr>time_str := time_text dt, sensor_queue := sensor_queue st @ [(uv, bme)]\<rparr>"
proof -
  obtain ok dt where d: "fst (DS1302_getDateTime g dev w) = (ok, dt)" by (cases "fst (DS1302_getDateTime g dev w)")
  obtain b where "c_strcpy (replicate 26 NUL) (time_text dt) = Some b" "cstr b = time_text dt"
    using time_text_fits by blast
  with assms d show ?thesis by (auto simp: clock_round_def Let_def split_beta split: if_splits)
qed

text \<open>
  C36: Queued records share one time.  A record carries the address of the array with its time; when a second
  record is queued before the first is used, the first is written to the card with its own readings
  and the time of the second.
\<close>

theorem queued_records_share_time:
  assumes "clock_round g dev others1 uv1 bme1 (s, st, w) = Some (s1, st1, w1)"
    and "clock_round g dev others2 uv2 bme2 (s1, st1, w1) = Some (s2, st2, w2)"
    and "sensor_queue st = []" "sd_id (card st) \<noteq> 0" "sd_file (card st) = Some f"
  shows "\<exists>st3. write_round fmt True i st2 = Some st3
    \<and> sd_file (card st3) = Some (f @ csv_line fmt (time_text (snd (fst (DS1302_getDateTime g dev w1)))) (received i [] (uv1, bme1)))"
proof -
  obtain ok dt where 1: "st1 = st\<lparr>time_str := time_text dt, sensor_queue := sensor_queue st @ [(uv1, bme1)]\<rparr>"
    using clock_round_store [OF assms(1)] by blast
  obtain ok2 dt2 where 2: "fst (DS1302_getDateTime g dev w1) = (ok2, dt2)"
    "st2 = st1\<lparr>time_str := time_text dt2, sensor_queue := sensor_queue st1 @ [(uv2, bme2)]\<rparr>"
    using clock_round_store [OF assms(2)] by blast
  with 1 assms show ?thesis
    by (auto simp: write_round_def received_def sd_card_write_def csv_line_def)
qed

lemma clock_round_runs:
  assumes "length (sensor_queue st) < 5" "state_wifi s = 0"
  shows "\<exists>w'. clock_round g dev others uv bme (s, st, w) =
    Some (s, st\<lparr>time_str := time_text (snd (fst (DS1302_getDateTime g dev w))), sensor_queue := sensor_queue st @ [(uv, bme)]\<rparr>, w')"
proof -
  obtain b where "c_strcpy (replicate 26 NUL) (time_text (snd (fst (DS1302_getDateTime g dev w)))) = Some b"
    "cstr b = time_text (snd (fst (DS1302_getDateTime g dev w)))"
    using time_text_fits by blast
  with assms show ?thesis by (auto simp: clock_round_def clock_due_def Let_def split_beta)
qed

definition bench_store :: "int store" where
  "bench_store = \<lparr>card = \<lparr>sd_file = Some csv_header, sd_id = 1\<rparr>, client = \<lparr>mqtt_calls = [], mqtt_handler_set = True\<rparr>,
     sensor_queue = [], time_str = []\<rparr>"

theorem queued_records_share_time_witness:
  "\<exists>st2 st3 w. write_round show_int True 7 st2 = Some st3
    \<and> sensor_queue st2 = [(1, md_bme680_values bench_record), (2, md_bme680_values bench_record)]
    \<and> sd_file (card st3) = Some (csv_header @ csv_line show_int (time_text (snd (fst (DS1302_getDateTime bench_gpio Ds1302.bench_dev w))))
        (received 7 [] (1, md_bme680_values bench_record)))"
proof -
  let ?v = "md_bme680_values bench_record" and ?w = "bench_chip [0, 0, 0, 1, 1, 1, 0, 0, 0]"
  obtain w1 where 1: "clock_round bench_gpio Ds1302.bench_dev Some 1 ?v (initial_app, bench_store, ?w) =
      Some (initial_app, bench_store\<lparr>time_str := time_text (snd (fst (DS1302_getDateTime bench_gpio Ds1302.bench_dev ?w))),
        sensor_queue := sensor_queue bench_store @ [(1, ?v)]\<rparr>, w1)" (is "_ = Some (_, ?st1, w1)")
    using clock_round_runs [of bench_store initial_app] by (force simp: bench_store_def initial_app_def)
  obtain w2 where 2: "clock_round bench_gpio Ds1302.bench_dev Some 2 ?v (initial_app, ?st1, w1) =
      Some (initial_app, ?st1\<lparr>time_str := time_text (snd (fst (DS1302_getDateTime bench_gpio Ds1302.bench_dev w1))),
        sensor_queue := sensor_queue ?st1 @ [(2, ?v)]\<rparr>, w2)" (is "_ = Some (_, ?st2, w2)")
    using clock_round_runs [of ?st1 initial_app] by (force simp: bench_store_def initial_app_def)
  have "\<exists>st3. write_round show_int True 7 ?st2 = Some st3
    \<and> sd_file (card st3) = Some (csv_header @ csv_line show_int (time_text (snd (fst (DS1302_getDateTime bench_gpio Ds1302.bench_dev w1))))
        (received 7 [] (1, ?v)))"
    by (rule queued_records_share_time [OF 1 2]) (simp_all add: bench_store_def)
  moreover have "sensor_queue ?st2 = [(1, ?v), (2, ?v)]" by (simp add: bench_store_def)
  ultimately show ?thesis by blast
qed

section \<open>The way from the card to the broker\<close>

text \<open>
  The count of the records is kept in memory only.  After a restart it is 0 while the file is still there: the
  round publishes nothing and deletes the file.
\<close>

lemma restart_deletes_records:
  assumes "sd_file (card st) = Some f" "sd_id (card st) = 0"
  shows "read_round fmt atof garbage i st = Some (st\<lparr>card := \<lparr>sd_file = None, sd_id = 0\<rparr>\<rparr>)"
  using assms by (simp add: read_round_def)

lemma card_unreadable:
  assumes "number_text fmt atof rnd" "\<forall>d \<in> set ds. storable fmt d" "ds \<noteq> []" "length ds < 2 ^ 31"
    "sd_writes fmt ds empty_card = Some c" "card st = c"
  shows "read_round fmt atof garbage i st = None"
proof -
  have c: "c = \<lparr>sd_file = Some (csv_header @ lines_text (map (csv_body fmt) ds)), sd_id = of_nat (length ds)\<rparr>"
    using writes_file [OF assms(2-4)] assms(5) by simp
  have n: "unat (of_nat (length ds) :: u32) = Suc (length ds - 1)"
    using assms(3,4) by (simp add: unat_of_nat take_bit_nat_eq_self)
  have "sd_card_read atof garbage 2 c = Some (read_back rnd (ds ! 0))"
    using number_text.read_record [OF assms(1,2), of 0 garbage "of_nat (length ds)"] assms(3,4) c by simp
  then show ?thesis
    using n assms(6) c by (simp add: read_round_def publish_record_def read_back_def)
qed

text \<open>
  C37: What was stored without a connection is not delivered as stored: with any records on the card the round
  that publishes them reads the time of the first through a pointer into a function that has returned.
\<close>

theorem card_records_lost:
  assumes "\<And>x. clean (fmt x)" "\<And>x. atof (CHR '' '' # fmt x) = rnd x" "\<And>x. atof (CHR '' '' # fmt x @ [NEWLINE]) = rnd x"
    and "\<forall>d \<in> set ds. storable fmt d" "ds \<noteq> []" "length ds < 2 ^ 31"
    and "sd_writes fmt ds empty_card = Some (card st)"
  shows "read_round fmt atof garbage i st = None"
proof -
  have "number_text fmt atof rnd" using assms(1-3) by unfold_locales
  from card_unreadable [OF this assms(4-7) refl] show ?thesis .
qed

theorem card_records_lost_witness:
  "\<exists>c. sd_writes show_int [bench_record] empty_card = Some c
    \<and> read_round show_int atoi bench_record 0 (bench_store\<lparr>card := c\<rparr>) = None"
proof -
  have st: "\<forall>d \<in> set [bench_record]. storable show_int d"
    by (simp add: storable_def bench_record_def clean_def csv_body_def show_int_def show_nat.simps digit_chars)
  then obtain c where c: "sd_writes show_int [bench_record] empty_card = Some c"
    using writes_file [OF st] by auto
  have "read_round show_int atoi bench_record 0 (bench_store\<lparr>card := c\<rparr>) = None"
    by (rule card_records_lost [where ds = "[bench_record]" and rnd = "\<lambda>i. i"])
      (use st c whole_numbers.clean_fmt whole_numbers.atof_fmt whole_numbers.atof_line in \<open>simp_all\<close>)
  with c show ?thesis by blast
qed

section \<open>Commands and updates\<close>

lemma strncpy_exact:
  assumes "NUL \<notin> set src" "length dst = Suc (length src)"
  shows "c_strncpy dst src (length src) = Some (src @ [dst ! length src])"
  using assms by (simp add: c_strncpy_def buf_write_def) (metis Cons_nth_drop_Suc drop_all le_refl lessI)

lemma command_effect:
  assumes "NUL \<notin> set data" "length data < length garbage"
  shows "mqtt_handler_round parse garbage data s =
    (if garbage ! length data = NUL
     then Some (case parse data of None \<Rightarrow> s | Some json \<Rightarrow> run_command json s) else None)"
proof -
  have "c_strncpy (take (length data + 1) garbage) data (length data) = Some (data @ [garbage ! length data])"
    using strncpy_exact [of data "take (length data + 1) garbage"] assms by simp
  moreover have "c_strcat (data @ [b]) [] = (if b = NUL then Some (data @ [NUL]) else None)" for b
    using assms(1) c_strcat_eq [of data "[]" "[]"] by (auto simp: c_strcat_def c_strlen_def)
  ultimately show ?thesis using assms(1) by (simp add: mqtt_handler_round_def)
qed

text \<open>
  C38: Whether a command is understood depends on what was on the stack.  The copy of a message ends without a
  terminator, and appending the empty string adds none: the text is the message exactly if the byte behind
  it happened to be 0; any other byte makes the code read beyond the array.
\<close>

theorem command_needs_zero_stack:
  assumes "NUL \<notin> set data" "length data < length garbage"
  shows "mqtt_handler_round parse garbage data s =
    (if garbage ! length data = NUL
     then Some (case parse data of None \<Rightarrow> s | Some json \<Rightarrow> run_command json s) else None)"
  using assms by (rule command_effect)

theorem command_needs_zero_stack_witness:
  "mqtt_handler_round (\<lambda>t. Some \<lparr>json_OTA = None, json_Rem = Some t\<rparr>) (replicate 10 NUL) ''1'' initial_app
     = Some (initial_app\<lparr>led := 1\<rparr>)
   \<and> mqtt_handler_round (\<lambda>t. Some \<lparr>json_OTA = None, json_Rem = Some t\<rparr>) (replicate 10 CHR ''1'') ''1'' initial_app = None"
  using command_needs_zero_stack [of "''1''" "replicate 10 NUL"] command_needs_zero_stack [of "''1''" "replicate 10 CHR ''1''"]
  by (simp add: run_command_def)

lemma answer_text:
  assumes "NUL \<notin> set data" "length rcv_buffer = 200" "rcv_buffer ! 199 = NUL"
  shows "length data < 200 \<Longrightarrow> NUL \<in> set (data @ drop (length data) rcv_buffer)"
    "cstr (data @ drop (length data) rcv_buffer) = data @ cstr (drop (length data) rcv_buffer)"
proof -
  assume "length data < 200"
  then have "rcv_buffer ! 199 = drop (length data) rcv_buffer ! (199 - length data)" "199 - length data < length (drop (length data) rcv_buffer)"
    using assms(2) by simp_all
  then have "NUL \<in> set (drop (length data) rcv_buffer)" using assms(3) nth_mem by metis
  then show "NUL \<in> set (data @ drop (length data) rcv_buffer)" by simp
next
  show "cstr (data @ drop (length data) rcv_buffer) = data @ cstr (drop (length data) rcv_buffer)"
    using assms(1) by (auto simp: cstr_def takeWhile_append)
qed

lemma stored_answer:
  assumes "NUL \<notin> set data" "length rcv_buffer = 200"
  shows "http_event_handler (HTTP_EVENT_ON_DATA False data) rcv_buffer =
      (if length data \<le> 200 then Some (data @ drop (length data) rcv_buffer) else None)"
  using assms by (simp add: http_event_handler_def c_strncpy_def buf_write_def)

text \<open>
  C39: What an answer to the request for an update does to the static buffer of 200 bytes, whose last byte is 0.  Up
  to 199 bytes storing and parsing it are memory safe, and what is parsed is the answer followed by
  the rest of an earlier, longer one.  An answer of exactly 200 bytes is stored, but leaves no terminator,
  and the parser reads beyond the buffer; a longer one is written beyond it.
\<close>

theorem update_answer_bounds:
  assumes "NUL \<notin> set data" "length rcv_buffer = 200" "rcv_buffer ! 199 = NUL"
  shows "do { b \<leftarrow> http_event_handler (HTTP_EVENT_ON_DATA False data) rcv_buffer; check_update_round ESP_OK b parse ota_err } =
      (if length data < 200
       then Some (Http_Perform # update_steps (parse (data @ cstr (drop (length data) rcv_buffer))) ota_err) else None)
    \<and> http_event_handler (HTTP_EVENT_ON_DATA False data) rcv_buffer =
      (if length data \<le> 200 then Some (data @ drop (length data) rcv_buffer) else None)"
  using stored_answer [OF assms(1,2)] assms(1,2) answer_text [OF assms]
  by (cases "length data = 200") (auto simp: check_update_round_def)

definition bench_update :: "string \<Rightarrow> update_json option" where
  "bench_update t = (if t = ''{}]}'' then Some \<lparr>json_version = Newer, json_file = Some ''u''\<rparr> else None)"

theorem update_answer_bounds_witness:
  "do { b \<leftarrow> http_event_handler (HTTP_EVENT_ON_DATA False ''{}'') (''{[]}'' @ replicate 196 NUL);
        check_update_round ESP_OK b bench_update (\<lambda>_. ESP_OK) } = Some [Http_Perform, Https_Ota ''u'', Restart]
   \<and> do { b \<leftarrow> http_event_handler (HTTP_EVENT_ON_DATA False (replicate 200 CHR ''1'')) (''{[]}'' @ replicate 196 NUL);
        check_update_round ESP_OK b bench_update (\<lambda>_. ESP_OK) } = None"
proof -
  have l: "length (''{[]}'' @ replicate 196 NUL) = 200" "(''{[]}'' @ replicate 196 NUL) ! 199 = NUL"
    by (simp_all add: nth_append)
  have c: "cstr (drop 2 (''{[]}'' @ replicate 196 NUL)) = '']}''" by (simp add: cstr_def numeral_eq_Suc)
  show ?thesis
    using update_answer_bounds [OF _ l, of "''{}''" bench_update "\<lambda>_. ESP_OK"] c
      update_answer_bounds [OF _ l, of "replicate 200 CHR ''1''" bench_update "\<lambda>_. ESP_OK"]
    by (auto simp: bench_update_def update_steps_def Let_def)
qed

text \<open>The task restarts only after a newer version with a file name was installed.\<close>

lemma restart_only_after_update:
  "check_update_round err rcv_buffer parse ota_err = Some steps \<Longrightarrow> Restart \<in> set steps \<Longrightarrow>
   \<exists>file. err = ESP_OK \<and> parse (cstr rcv_buffer) = Some \<lparr>json_version = Newer, json_file = Some file\<rparr> \<and> ota_err file = ESP_OK"
  by (auto simp: check_update_round_def update_steps_def Let_def split: if_splits option.splits version.splits)
    (metis update_json.surjective old.unit.exhaust)

text \<open>
  A queued message is read when it is handled: when the client's buffer holds another one by then, the second
  is carried out twice and the first not at all.
\<close>

lemma queued_message_replaced:
  assumes "NUL \<notin> set d2" "length d2 < length garbage" "length d1 = length d2" "garbage ! length d2 = NUL" "parse d2 = Some json"
  shows "do { qs \<leftarrow> mqtt_handler_task parse garbage (d2 @ rest) (mqtt_handler 0 (int (length d2)) (mqtt_handler 0 (int (length d1)) []), s);
       mqtt_handler_task parse garbage (d2 @ rest) qs } = Some ([], run_command json (run_command json s))"
  using assms command_effect [of d2 garbage parse] by (simp add: mqtt_handler_task_def mqtt_handler_def)

section \<open>The start of the program\<close>

datatype main_call =
    Nvs_Flash_Init_1 | Nvs_Flash_Erase | Nvs_Flash_Init_2 | Esp_Netif_Init | Event_Loop_Create | Event_Groups_Create
  | Queues_Create | Sd_Card_Init | Wifi_Handler_Set | Wifi_Manager_Start | Got_Ip_Callback_Set | Task_Create_Call string
  | Handle_Create app_task | Output_Create int | Input_Callback_Set | Input_Create int | Timer_Callback_Set
  | Mqtt_App_Init | Mqtt_Callback_Set | I2cdev_Init

text \<open>The calls of \<^verbatim>\<open>app_main\<close> in order, up to the first that \<^verbatim>\<open>ESP_ERROR_CHECK\<close> does not let pass; \<open>E\<close> gives their errors.\<close>

fun run_checked :: "(main_call \<Rightarrow> int) \<Rightarrow> (bool \<times> main_call) list \<Rightarrow> main_call list" where
  "run_checked E [] = []"
| "run_checked E ((checked, c) # cs) = c # (if checked \<and> E c \<noteq> ESP_OK then [] else run_checked E cs)"

definition ESP_ERR_NVS_NO_FREE_PAGES :: int where "ESP_ERR_NVS_NO_FREE_PAGES = 0x110d"
definition ESP_ERR_NVS_NEW_VERSION_FOUND :: int where "ESP_ERR_NVS_NEW_VERSION_FOUND = 0x1110"

definition app_main :: "(main_call \<Rightarrow> int) \<Rightarrow> main_call list" where
  "app_main E =
     (let err = E Nvs_Flash_Init_1;
          retry = (err = ESP_ERR_NVS_NO_FREE_PAGES \<or> err = ESP_ERR_NVS_NEW_VERSION_FOUND);
          start = (if retry then [(False, Nvs_Flash_Init_1), (True, Nvs_Flash_Erase), (True, Nvs_Flash_Init_2)]
                   else [(True, Nvs_Flash_Init_1)])
      in run_checked E (start @
        [(True, Esp_Netif_Init), (True, Event_Loop_Create), (False, Event_Groups_Create), (False, Queues_Create),
         (False, Sd_Card_Init), (False, Wifi_Handler_Set), (False, Wifi_Manager_Start), (False, Got_Ip_Callback_Set),
         (False, Task_Create_Call ''monitoring_task''), (False, Task_Create_Call ''task1''), (False, Handle_Create Toggle_Task),
         (False, Handle_Create Mqtt_Task), (False, Output_Create 2), (False, Input_Callback_Set), (False, Input_Create 0),
         (False, Timer_Callback_Set), (False, Mqtt_App_Init), (False, Mqtt_Callback_Set), (False, Handle_Create Write_Task),
         (False, Handle_Create Read_Task), (True, I2cdev_Init), (False, Task_Create_Call ''bme680_test''),
         (False, Task_Create_Call ''ml8511_read_task''), (False, Handle_Create Get_Clock_Task)]))"

text \<open>What the calls do to the shared state: they create the tasks.\<close>

fun main_effect :: "main_call \<Rightarrow> app \<Rightarrow> app" where
  "main_effect (Handle_Create t) s = xTaskCreate t s"
| "main_effect _ s = s"

text \<open>
  The manager is started before the tasks exist that the handler of its events suspends: a connection that
  comes up in between suspends the task of the events itself, and no event is handled any more.
\<close>

lemma early_connection_blocks:
  assumes "\<forall>c. E c = ESP_OK"
  shows "\<exists>before after. app_main E = before @ Wifi_Manager_Start # after
    \<and> wifi_event_handler (IP_EVENT_STA_GOT_IP ip) (fold main_effect (before @ [Wifi_Manager_Start]) initial_app) = None"
proof -
  have "app_main E = [Nvs_Flash_Init_1, Esp_Netif_Init, Event_Loop_Create, Event_Groups_Create, Queues_Create,
      Sd_Card_Init, Wifi_Handler_Set] @ Wifi_Manager_Start # drop 8 (app_main E)"
    using assms by (simp add: app_main_def ESP_ERR_NVS_NO_FREE_PAGES_def ESP_ERR_NVS_NEW_VERSION_FOUND_def Let_def)
  moreover have "wifi_event_handler (IP_EVENT_STA_GOT_IP ip) (fold main_effect ([Nvs_Flash_Init_1, Esp_Netif_Init, Event_Loop_Create,
      Event_Groups_Create, Queues_Create, Sd_Card_Init, Wifi_Handler_Set] @ [Wifi_Manager_Start]) initial_app) = None"
    by (simp add: wifi_event_handler_def vTaskSuspend_def initial_app_def)
  ultimately show ?thesis by blast
qed

end
