(* ===== verification/App_Clock.thy ===== *)
theory App_Clock
  imports App_Main
begin

text \<open>
  The clock from the network to the record: the task that sets the clock (\<^verbatim>\<open>DS1302_setClock\<close>), the driver, the
  protocol and the chip taken together, and what the clock's task makes of the result.  The chip
  does not tick in this model: the time read is the time set.
\<close>

section \<open>Starting the chip\<close>

abbreviation clock_dev :: DS1302_Dev where
  "clock_dev \<equiv> \<lparr>clkPin = 12, ioPin = 13, cePin = 14\<rparr>"

text \<open>What the pins and the chip must be like before the task runs.\<close>

definition clock_board :: "'w gpio \<Rightarrow> ('w \<Rightarrow> ds1302_chip) \<Rightarrow> 'w \<Rightarrow> bool" where
  "clock_board g chip w \<longleftrightarrow> ds1302_wired g clock_dev chip \<and> resets_quietly g chip \<and> chip_wf (chip w)
     \<and> \<not> write_protected (chip w)"

lemma isHalted_world:
  assumes "ds1302_ready g dev chip w"
  shows "ds1302_ready g dev chip (snd (DS1302_isHalted g dev w))"
    and "chip_regs (chip (snd (DS1302_isHalted g dev w))) = chip_regs (chip w)"
proof -
  obtain w1 where w1: "DS1302_readClockRegister g dev 0 w = (clock_reg chip w 0, w1)" "ds1302_ready g dev chip w1"
      "chip_regs (chip w1) = chip_regs (chip w)"
    using readClockRegister_ready [OF assms, of 0] by auto
  moreover obtain w2 where "DS1302_readClockRegister g dev 0 w1 = (clock_reg chip w1 0, w2)" "ds1302_ready g dev chip w2"
      "chip_regs (chip w2) = chip_regs (chip w1)"
    using readClockRegister_ready [OF w1(2), of 0] by auto
  ultimately show "ds1302_ready g dev chip (snd (DS1302_isHalted g dev w))"
    "chip_regs (chip (snd (DS1302_isHalted g dev w))) = chip_regs (chip w)"
    by (simp_all add: DS1302_isHalted_def Let_def)
qed

lemma isWriteProtected_world:
  assumes "ds1302_ready g dev chip w"
  shows "ds1302_ready g dev chip (snd (DS1302_isWriteProtected g dev w))"
    and "chip_regs (chip (snd (DS1302_isWriteProtected g dev w))) = chip_regs (chip w)"
proof -
  obtain w1 where "DS1302_readClockRegister g dev 7 w = (clock_reg chip w 7, w1)" "ds1302_ready g dev chip w1"
      "chip_regs (chip w1) = chip_regs (chip w)"
    using readClockRegister_ready [OF assms, of 7] by auto
  then show "ds1302_ready g dev chip (snd (DS1302_isWriteProtected g dev w))"
    "chip_regs (chip (snd (DS1302_isWriteProtected g dev w))) = chip_regs (chip w)"
    by (simp_all add: DS1302_isWriteProtected_def Let_def)
qed

text \<open>After a successful start the chip is idle, not protected and its clock runs.\<close>

definition clock_started :: "'w gpio \<Rightarrow> ('w \<Rightarrow> ds1302_chip) \<Rightarrow> 'w \<Rightarrow> bool" where
  "clock_started g chip w \<longleftrightarrow> ds1302_ready g clock_dev chip w \<and> \<not> write_protected (chip w) \<and> \<not> bit (ch_clock (chip w) ! 0) 7"

lemma clock_started_regs:
  assumes "clock_started g chip w" "ds1302_ready g clock_dev chip w'" "chip_regs (chip w') = chip_regs (chip w)"
  shows "clock_started g chip w'"
  using assms by (simp add: clock_started_def chip_regs_def write_protected_def)

lemma begin_board:
  assumes "clock_board g chip w"
  shows "\<exists>w'. DS1302_begin g 12 13 14 w = (True, clock_dev, w') \<and> clock_started g chip w'"
proof -
  have b: "ds1302_wired g clock_dev chip" "resets_quietly g chip" "chip_wf (chip w)" and wp: "\<not> write_protected (chip w)"
    using assms by (simp_all add: clock_board_def)
  let ?w2 = "begin_pins g 12 13 14 w"
  note regs = begin_pins_ready(1) [OF b] and r = begin_pins_ready(2) [OF b]
  have p: "\<not> write_protected (chip ?w2)" using regs wp by (simp add: chip_regs_def write_protected_def)
  let ?w3 = "DS1302_halt g clock_dev False ?w2"
  have h: "ds1302_ready g clock_dev chip ?w3" "clock_reg chip ?w3 = (clock_reg chip ?w2)(0 := halt_bits False (clock_reg chip ?w2 0))"
    by (rule halt_regs [OF r p])+
  have "clock_reg chip ?w3 7 = clock_reg chip ?w2 7" "\<not> bit (clock_reg chip ?w3 0) 7" by (simp_all add: h(2) bit_halt_bits)
  with p h(1) have s: "clock_started g chip ?w3" by (simp add: clock_started_def write_protected_def clock_reg_def)
  let ?b = "DS1302_isHalted g clock_dev ?w3"
  have "\<not> fst ?b" using isHalted_ready [OF h(1)] s by (simp add: clock_started_def clock_reg_def)
  moreover have "clock_started g chip (snd ?b)" by (rule clock_started_regs [OF s isHalted_world [OF h(1)]])
  moreover have "DS1302_begin g 12 13 14 w = (\<not> fst ?b, clock_dev, snd ?b)"
    by (simp add: begin_eq Let_def)
  ultimately show ?thesis by simp
qed

text \<open>So the task that reads the clock starts as well, on the same pins.\<close>

lemma clock_start_board:
  assumes "clock_board g chip w"
  shows "\<exists>w'. clock_start g w = Some (clock_dev, w') \<and> clock_started g chip w'"
  using begin_board [OF assms] by (auto simp: clock_start_def)

lemma set_started:
  assumes "clock_started g chip w" "unat (dt_second d) \<le> 59"
  shows "clock_started g chip (DS1302_setDateTime g clock_dev d w)"
proof -
  have r: "ds1302_ready g clock_dev chip w" and p: "\<not> write_protected (chip w)" and h: "\<not> bit (ch_clock (chip w) ! 0) 7"
    using assms by (simp_all add: clock_started_def)
  show ?thesis
    using setDateTime_ready(1) [OF r] h bcd_seconds [OF assms(2)]
    by (simp add: clock_started_def write_protected_def set_get_regs(1) [OF r p] upt_8 DateTime_bytes_def bit_and_iff bit_or_iff)
qed

section \<open>Setting the clock\<close>

text \<open>A broken-down time as \<^verbatim>\<open>localtime_r\<close> makes it, between 2000 and 2099 and without leap seconds.\<close>

definition legal_tm :: "tm \<Rightarrow> bool" where
  "legal_tm t \<longleftrightarrow> tm_sec t \<in> {0..59} \<and> tm_min t \<in> {0..59} \<and> tm_hour t \<in> {0..23} \<and> tm_mday t \<in> {1..31}
     \<and> tm_mon t \<in> {0..11} \<and> tm_year t \<in> {100..199} \<and> tm_wday t \<in> {0..6}"

lemma unat_small_int: "0 \<le> i \<Longrightarrow> i < 2 ^ LENGTH('a) \<Longrightarrow> unat (word_of_int i :: 'a::len word) = nat i"
  by (simp add: unat_eq_nat_uint uint_word_of_int take_bit_int_eq_self)

lemma DateTime_of_legal:
  assumes "legal_tm t"
  shows "unat (dt_second (DateTime_of_tm t)) = nat (tm_sec t)" "unat (dt_minute (DateTime_of_tm t)) = nat (tm_min t)"
    "unat (dt_hour (DateTime_of_tm t)) = nat (tm_hour t)" "unat (dt_dayWeek (DateTime_of_tm t)) = nat (tm_wday t)"
    "unat (dt_dayMonth (DateTime_of_tm t)) = nat (tm_mday t)" "unat (dt_month (DateTime_of_tm t)) = nat (tm_mon t + 1)"
    "unat (dt_year (DateTime_of_tm t)) = nat (tm_year t + 1900)"
  using assms unfolding legal_tm_def DateTime_of_tm_def by (simp_all add: unat_small_int del: unsigned_of_int of_int_add)

lemma valid_of_legal:
  assumes "legal_tm t" "tm_wday t \<noteq> 0"
  shows "DateTime_valid (DateTime_of_tm t)"
  using assms unfolding DateTime_valid_def DateTime_invalid_def
  by (simp add: word_less_nat_alt word_le_nat_alt DateTime_of_legal [OF assms(1)]) (auto simp: legal_tm_def)

text \<open>
  C10: A task that gets the time from the network, starts the chip and writes the time resumes the clock's task, and the
  next reading is the time that was set on six days of the week.  On Sundays, whose number the C library gives as 0,
  every reading fails and gives the zero date.
\<close>

theorem clock_shows_time_set:
  assumes "clock_board g chip w" "legal_tm t" "Get_Clock_Task \<in> handles s"
  shows "\<exists>s' w'. set_clock_task g True t (s, w) = Some (s', w') \<and> Get_Clock_Task \<in> running s'
    \<and> fst (DS1302_getDateTime g clock_dev w') =
      (if tm_wday t = 0 then (False, zero_DateTime) else (True, DateTime_of_tm t))"
proof -
  let ?d = "DateTime_of_tm t"
  obtain w1 where b: "DS1302_begin g 12 13 14 w = (True, clock_dev, w1)" and w1: "clock_started g chip w1"
    using begin_board [OF assms(1)] by blast
  let ?w2 = "DS1302_setDateTime g clock_dev ?d w1"
  let ?p = "DS1302_isWriteProtected g clock_dev ?w2"
  let ?h = "DS1302_isHalted g clock_dev (snd ?p)"
  have "unat (dt_second ?d) \<le> 59" using assms(2) by (auto simp: DateTime_of_legal [OF assms(2)] legal_tm_def)
  with w1 have w2: "clock_started g chip ?w2" by (rule set_started)
  then have r2: "ds1302_ready g clock_dev chip ?w2" by (simp add: clock_started_def)
  have p: "\<not> fst ?p" using isWriteProtected_ready [OF r2] w2 by (simp add: clock_started_def)
  have w3: "clock_started g chip (snd ?p)" by (rule clock_started_regs [OF w2 isWriteProtected_world [OF r2]])
  then have r3: "ds1302_ready g clock_dev chip (snd ?p)" by (simp add: clock_started_def)
  have h: "\<not> fst ?h" using isHalted_ready [OF r3] w3 by (simp add: clock_started_def clock_reg_def)
  have run: "\<exists>s'. set_clock_task g True t (s, w) = Some (s', snd ?h) \<and> Get_Clock_Task \<in> running s'"
    using p h assms(3) by (simp add: set_clock_task_def b Let_def split_beta vTaskResume_def)
  have "chip_regs (chip (snd ?h)) = chip_regs (chip ?w2)"
    using isHalted_world(2) [OF r3] isWriteProtected_world(2) [OF r2] by simp
  then have same: "fst (DS1302_getDateTime g clock_dev (snd ?h)) = fst (DS1302_getDateTime g clock_dev ?w2)"
    using fst_getDateTime [OF isHalted_world(1) [OF r3]] fst_getDateTime [OF r2] by (simp add: chip_regs_def)
  have r1: "ds1302_ready g clock_dev chip w1" "\<not> write_protected (chip w1)" using w1 by (simp_all add: clock_started_def)
  have "fst (DS1302_getDateTime g clock_dev ?w2) =
      (if tm_wday t = 0 then (False, zero_DateTime) else (True, ?d))"
    using get_after_set [OF r1] valid_of_legal [OF assms(2)] by (simp add: DateTime_of_tm_def)
  with run same show ?thesis by metis
qed

text \<open>The chip on the pins of the board.\<close>

definition clock_gpio :: "ds1302_chip gpio" where
  "clock_gpio = \<lparr>gpio_reset_pin = (\<lambda>_ c. c), gpio_set_level = ds1302_level clock_dev,
     gpio_set_direction = ds1302_direction clock_dev,
     gpio_get_level = (\<lambda>_ c. if ch_host_out c then ch_host c else ch_out c), gpio_task_delay = (\<lambda>_ c. c)\<rparr>"

definition halted_chip :: ds1302_chip where
  "halted_chip = bench_chip [0x80, 0, 0, 1, 1, 1, 0, 0, 0]"

lemma clock_bench: "clock_board clock_gpio id halted_chip"
  by (simp add: clock_board_def ds1302_wired_def clock_gpio_def resets_quietly_def chip_wf_def halted_chip_def bench_chip_def
      write_protected_def)

theorem clock_shows_time_set_witness:
  "\<exists>s' w'. set_clock_task clock_gpio True
      \<lparr>tm_sec = 58, tm_min = 59, tm_hour = 23, tm_mday = 31, tm_mon = 11, tm_year = 121, tm_wday = 5\<rparr>
      (xTaskCreate Get_Clock_Task initial_app, halted_chip) = Some (s', w')
    \<and> fst (DS1302_getDateTime clock_gpio clock_dev w') =
      (True, \<lparr>dt_second = 58, dt_minute = 59, dt_hour = 23, dt_dayWeek = 5, dt_dayMonth = 31, dt_month = 12, dt_year = 2021\<rparr>)"
  using clock_shows_time_set [OF clock_bench,
      of "\<lparr>tm_sec = 58, tm_min = 59, tm_hour = 23, tm_mday = 31, tm_mon = 11, tm_year = 121, tm_wday = 5\<rparr>"
         "xTaskCreate Get_Clock_Task initial_app"]
  by (auto simp: legal_tm_def xTaskCreate_def DateTime_of_tm_def)

section \<open>When the time cannot be had\<close>

text \<open>
  With a connection and no time from the network, the round of the clock's task never ends: the task that should resume
  it waits forever, and no further record is made.
\<close>

lemma failed_time_stops_records:
  assumes "state_wifi s = 1" "number_of_days s = -1"
  shows "clock_round g dev (set_clock_task g False t) uv bme (s, st, w) = None"
  using assms by (simp add: clock_round_def clock_due_def set_clock_task_def Let_def split_beta)

text \<open>Where the chip gives the zero date, as it does on Sundays, this is the time of the record.\<close>

lemma zero_date_text: "time_text zero_DateTime = ''0/0/0 0:0:0''"
  by (simp add: time_text_def zero_DateTime_def show_nat.simps digit_chars)

end
