(* ===== verification/Spec2Isabelle.thy ===== *)
theory Spec2Isabelle
  imports Prelude Json Ap_List Dns_Server Register_File Ds1302 Wifi_State Wifi_Nvs Wifi_Status Wifi_Manager Wifi_Link
    Http_App I2cdev Bme680_Convert Bme680 Bme680_Chip Mqtt_App Sd_Card App_Io App_Main App_Clock
begin

text \<open>
  \<^bold>\<open>DATK: the firmware of a weather station on an ESP32\<close>

  \<^bold>\<open>The program.\<close>  The firmware reads a BME680 (temperature, pressure, humidity, gas) over I2C, an UV sensor
  over the ADC and a DS1302 clock over three wires; joins the readings into records; publishes the records over MQTT while
  there is a connection and stores them on an SD card while there is none.  The connection is made by a Wi-Fi manager: it
  keeps the credentials in flash, scans for access points, retries lost connections, and otherwise runs an access point of
  its own with a web server and a DNS server that sends every name to it (a captive portal).  A button orders the access
  point or, held long, an update over HTTP.

  \<^bold>\<open>Theories and sources\<close> (paths under \<^verbatim>\<open>src/\<close>; definitions keep the names of the functions):

  \<^item> \<open>Prelude\<close>: fixed-width integers, C strings, buffers with bounds-checked writes (\<open>buf_write\<close>, \<open>c_strcpy\<close>,
    \<open>c_strcat\<close>), the \<^verbatim>\<open>printf\<close> conversions in use, shared lemmas and the collections \<open>buffer_simps\<close> and \<open>call_simps\<close>.
  \<^item> \<open>Json\<close>: the printer of JSON strings (\<^verbatim>\<open>common/wifi_manager/src/json.c\<close>).  \<open>Ap_List\<close>: the list of access
    points, duplicates removed in place, printed into a fixed heap block (\<^verbatim>\<open>wifi_manager.c\<close>).  \<open>Wifi_Status\<close>: the status text and the
    address string with their mutexes (\<^verbatim>\<open>wifi_manager.c\<close>).
  \<^item> \<open>Dns_Server\<close>: the reply of the captive portal, its request loop, start and stop (\<^verbatim>\<open>dns_server.c\<close>).
  \<^item> \<open>Wifi_State\<close>: the state of the manager, its queue, event bits, timers and the oracle of external calls.  \<open>Wifi_Nvs\<close>: the
    flash (\<^verbatim>\<open>nvs_sync.c\<close> and the saving and fetching in \<^verbatim>\<open>wifi_manager.c\<close>).  \<open>Wifi_Manager\<close>: the handlers of
    events and messages.  \<open>Wifi_Link\<close>: reachable states, invariant and the refinement of the automaton of the connection.
  \<^item> \<open>Http_App\<close>: the web server with its URLs and requests (\<^verbatim>\<open>http_app.c\<close>).
  \<^item> \<open>Register_File\<close>: the contract of a device with registers, a locale.  \<open>Ds1302\<close>: the clock's driver down to single
    pin levels, with a model of the chip (\<^verbatim>\<open>common/ds1302/ds1302.c\<close>); it provides the contract twice (clock, RAM).
  \<^item> \<open>I2cdev\<close>: mutexes per device and port, cached driver configuration, transfers (\<^verbatim>\<open>common/i2cdev/i2cdev.c\<close>).
    \<open>Bme680_Convert\<close>: the compensation formulas.  \<open>Bme680\<close>: settings, measurements and results over the I2C layer
    (\<^verbatim>\<open>common/bme680/bme680.c\<close>).  \<open>Bme680_Chip\<close>: the sensor behind the bus, whose registers hold the descriptor's settings.
  \<^item> \<open>Mqtt_App\<close>: event handler, wrappers and the JSON message (\<^verbatim>\<open>common/mqtt_app/mqtt_app.c\<close>).  \<open>Sd_Card\<close>: the file of records
    (\<^verbatim>\<open>common/sd_card_lib/sd_card_lib.c\<close>).  \<open>App_Io\<close>: button, pins, time from the network, averages of the UV sensor
    (\<^verbatim>\<open>input_iot.c\<close>, \<^verbatim>\<open>output_iot.c\<close>, \<^verbatim>\<open>real_time_app.c\<close>, \<^verbatim>\<open>main/app_main.c\<close>).
  \<^item> \<open>App_Main\<close>: the tasks and callbacks of the application and their shared state (\<^verbatim>\<open>main/app_main.c\<close>).  \<open>App_Clock\<close>: setting the
    clock from the network to the next reading, through driver, wires and chip.

  \<^bold>\<open>How the code is modelled.\<close>  A C function is a definition over an explicit state.  A result \<open>None\<close> is
  undefined behaviour (a write outside a block, a NULL pointer used, an index outside an array), a failed assertion, or
  waiting for ever; the text before each definition says which.  Error codes are the numbers of the code.  Macros that
  return from the function around them (\<^verbatim>\<open>CHECK\<close>, \<^verbatim>\<open>I2C_DEV_CHECK\<close>, \<^verbatim>\<open>SEMAPHORE_TAKE\<close>) take the rest of that function as an argument.
  Endless loops of tasks are one round each; the rounds are composed by functions on lists of inputs or by
  step relations (\<open>app_step\<close>, the reachable states of \<open>Wifi_Link\<close>).  ESP-IDF, FreeRTOS, sockets, the I2C and GPIO
  drivers, cJSON and floating-point arithmetic are not in the repository: they are parameters, mostly an oracle that
  answers a call from the history of calls, which is part of the state.  What the code relies on is a named predicate
  (\<open>ds1302_wired\<close>, \<open>number_text\<close>, \<open>sensor_on\<close>, \<open>block_writes\<close>, a flash that keeps what is written), and the witnesses
  give an instance of each.

  \<^bold>\<open>Taken for granted.\<close>  Allocations of heap memory succeed: the code writes through the unchecked result of
  \<^verbatim>\<open>malloc\<close> for the URLs (\<open>generate_urls\<close>) and the texts of the manager.  Where mutexes are counted (\<open>port_held\<close>, \<open>dev_held\<close>) a give
  counts as giving back whatever it answers.  The block of ten bytes that \<^verbatim>\<open>bme680_set_ambient_temperature\<close> writes
  goes to ten registers in a row (\<open>block_writes\<close>), which only the runs that contain such a call assume.  A pointer queued
  with an MQTT message points into the buffer of the client, which is read when the message is handled.

  \<^bold>\<open>What the theorems show.\<close>  Memory safety with exact bounds: the printer, the list of access points, the status
  text, the DNS buffers, the MQTT message, the answer to the update request.  Round trips: JSON strings, the clock and its
  RAM, the flash, the card.  Invariants over all reachable states: the manager, the URLs of the server, the
  mutexes of the I2C layer and of the driver, the two tasks of the application.  Refinement: a lost
  connection is handled as in an automaton with four decisions, and the registers
  of the BME680, those of the heater included, hold the settings of its descriptor.  Equivalence: the temperature in unsigned arithmetic
  against the same expressions in signed arithmetic.  Liveness and termination: the DNS server, the access point after four losses, the time
  from the network.  Several theorems state exactly where the code misbehaves: Sundays of the clock, records lost or with the
  time of others, a sensor that stays stuck, settings that are not repeated after an error, a mutex that is not given back.

  \<^bold>\<open>Bounds and fuel.\<close>  No function runs on fuel.  Loops over data recurse on the data; the others have a measure:
  the rest of the file (\<open>read_lines\<close>), the tries left of 10 (\<open>wait_for_time\<close>), the entries left (\<open>filter_inner\<close>).
  Sizes are those of the code: 15 access points, blocks of 99 bytes per entry, a queue of 3 messages, 80 and 96 bytes of
  DNS, 100 bytes of MQTT message, 200 bytes of update answer, queues of 5 records.

  \<^bold>\<open>Interfaces.\<close>  The locales state what one part needs of another, and each is interpreted on the code's model:
  \<open>text_codec\<close> (printed text is read back) by decimal numbers and by JSON strings, \<open>register_file\<close> (reading back and
  read-modify-write of device registers) by the DS1302's clock and by its RAM, \<open>mutex_section\<close> (a mutex taken is given back) by
  the ports and the devices of the I2C layer, \<open>driver_contract\<close> and its extension \<open>sensor_blind\<close> (what a call of the
  driver keeps) by the mutexes and by the descriptor of the BME680, \<open>number_text\<close> (numbers on the card) by whole numbers.

  \<^bold>\<open>Not modelled.\<close>  Log output.  The build's output and \<^verbatim>\<open>esp_idf_lib_helpers.h\<close>, which hold constants and no
  code.  In \<^verbatim>\<open>app_main.c\<close>: \<^verbatim>\<open>monitoring_task\<close>, \<^verbatim>\<open>cb_connection_ok\<close> and the set-up of the ADC, which only call libraries and log.
  In \<^verbatim>\<open>sd_card_lib.c\<close>: \<^verbatim>\<open>json_creat\<close>, which nothing calls.  The scheduling of FreeRTOS: tasks are interleaved by rounds, and what
  happens between two rounds is an argument or a step.  The ticking of the DS1302 and the timing of its wires.
\<close>

end
